(* ===== verification/Prelude.thy ===== *)
theory Prelude
  imports Complex_Main "HOL-Library.AList"
begin

text \<open>
  Shared vocabulary of the PyCAM development: the Python exceptions the modelled code can
  raise (as the left injection of a sum), the point type of the geometry code, the
  traversal of a list by a fallible function (a Python loop that stops at the first
  exception), and the list and association-list lemmas the component theories share
  (a Python dict is an association list with distinct keys).
\<close>

named_theorems res_simps "characteristic equations of the fallible list traversals"

section \<open>Python exceptions as values\<close>

text \<open>
  Every exception the modelled code raises or lets through is a constructor here;
  \<open>BackendError\<close> stands for whatever a collaborator that is not modelled (a collision
  back-end) raises, numbered so that two failures can be told apart.
\<close>

datatype py_error =
    ValueError
  | ZeroDivisionError
  | AttributeError
  | TypeError
  | KeyError
  | IndexError
  | NameError
  | NotImplementedError
  | BackendError nat

type_synonym 'a result = "py_error + 'a"

text \<open>PyCAM points are tuples of three floats; the model reads them as reals.\<close>

type_synonym point = "real \<times> real \<times> real"

section \<open>Fallible traversal\<close>

text \<open>
  \<open>map_res f xs\<close> is the loop \<^verbatim>\<open>ys = [f(x) for x in xs]\<close> where \<open>f\<close> may raise:
  the first exception aborts the loop and is the result.
\<close>

fun map_res :: "('a \<Rightarrow> 'b result) \<Rightarrow> 'a list \<Rightarrow> 'b list result" where
  "map_res f [] = Inr []"
| "map_res f (x # xs) =
     (case f x of
        Inl e \<Rightarrow> Inl e
      | Inr y \<Rightarrow> (case map_res f xs of Inl e \<Rightarrow> Inl e | Inr ys \<Rightarrow> Inr (y # ys)))"

lemma map_res_Inr_iff [res_simps]:
  "map_res f xs = Inr ys \<longleftrightarrow> list_all2 (\<lambda>x y. f x = Inr y) xs ys"
proof
  show "map_res f xs = Inr ys \<Longrightarrow> list_all2 (\<lambda>x y. f x = Inr y) xs ys"
    by (induction xs arbitrary: ys) (auto split: sum.splits)
next
  show "list_all2 (\<lambda>x y. f x = Inr y) xs ys \<Longrightarrow> map_res f xs = Inr ys"
    by (induction rule: list_all2_induct) auto
qed

lemma map_res_length:
  "map_res f xs = Inr ys \<Longrightarrow> length ys = length xs"
  by (simp add: map_res_Inr_iff list_all2_lengthD)

lemma map_res_all_Inr [res_simps]:
  "(\<And>x. x \<in> set xs \<Longrightarrow> f x = Inr (g x)) \<Longrightarrow> map_res f xs = Inr (map g xs)"
  by (induction xs) auto

lemma map_res_append [res_simps]:
  "map_res f (xs @ ys) =
     (case map_res f xs of
        Inl e \<Rightarrow> Inl e
      | Inr as \<Rightarrow> (case map_res f ys of Inl e \<Rightarrow> Inl e | Inr bs \<Rightarrow> Inr (as @ bs)))"
  by (induction xs) (auto split: sum.splits)

lemma map_res_Inl_first:
  "map_res f xs = Inl e \<Longrightarrow>
     \<exists>pre x post. xs = pre @ x # post \<and> f x = Inl e \<and> (\<forall>y\<in>set pre. \<exists>v. f y = Inr v)"
proof (induction xs)
  case Nil
  then show ?case by simp
next
  case (Cons x xs)
  show ?case
  proof (cases "f x")
    case (Inl e')
    with Cons.prems have "f x = Inl e" by simp
    then show ?thesis by (metis append_Nil empty_iff list.set(1))
  next
    case (Inr v)
    with Cons.prems have "map_res f xs = Inl e" by (simp split: sum.splits)
    then obtain pre y post where "xs = pre @ y # post" "f y = Inl e"
      "\<forall>z\<in>set pre. \<exists>v. f z = Inr v"
      using Cons.IH by blast
    with Inr show ?thesis by (metis Cons_eq_appendI set_ConsD)
  qed
qed

lemma map_res_Inr_elem:
  "map_res f xs = Inr ys \<Longrightarrow> y \<in> set ys \<Longrightarrow> \<exists>x\<in>set xs. f x = Inr y"
  by (induction xs arbitrary: ys) (auto split: sum.splits)

lemma map_res_total:
  "(\<And>x. x \<in> set xs \<Longrightarrow> \<exists>y. f x = Inr y) \<Longrightarrow> \<exists>ys. map_res f xs = Inr ys"
  by (induction xs) (force split: sum.splits)+

lemma map_res_map_Inr:
  "(\<And>x. x \<in> set xs \<Longrightarrow> f (h x) = Inr (g x)) \<Longrightarrow> map_res f (map h xs) = Inr (map g xs)"
  by (induction xs) auto

section \<open>Lists\<close>

lemma concat_map_length_sum:
  "(\<And>x. x \<in> set xs \<Longrightarrow> length (f x) = k * g x) \<Longrightarrow>
     length (concat (map f xs)) = k * sum_list (map g xs)"
  by (induction xs) (auto simp: distrib_left)

lemma upt_Suc_shift: "[0..<Suc n] = 0 # map Suc [0..<n]"
  by (simp add: map_Suc_upt upt_conv_Cons)

section \<open>Association lists\<close>

text \<open>Assigning a new key of a dict appends the entry.\<close>

lemma update_new_key:
  "k \<notin> set (map fst al) \<Longrightarrow> AList.update k v al = al @ [(k, v)]"
  by (induction al) auto

lemma map_entry_new_key:
  "k \<notin> set (map fst al) \<Longrightarrow> AList.map_entry k f (al @ [(k, v)]) = al @ [(k, f v)]"
  by (induction al) auto

lemma map_of_append_old:
  "k \<in> set (map fst al) \<Longrightarrow> map_of (al @ bl) k = map_of al k"
  by (induction al) auto

end
