(* ===== verification/Depth.thy ===== *)
theory Depth
  imports Prelude
begin

text \<open>
  The recursion depth that \<^verbatim>\<open>GenerateToolPathSlice\<close> computes for every probe line
  (\<^verbatim>\<open>src/pycam/PathGenerators/PushCutter.py\<close>, lines 132--150), with the
  distance of \<^verbatim>\<open>pycam.Geometry.PointUtils.pdist\<close>. Python's floats are read as
  reals, so \<^verbatim>\<open>math.log(x) / math.log(2)\<close> is \<open>log 2 x\<close>; the two exceptions the
  line can raise (\<^verbatim>\<open>ZeroDivisionError\<close> for a zero radius, \<^verbatim>\<open>ValueError\<close>
  "math domain error" for a non-positive logarithm argument) are results. The lemmas
  characterise the value exactly by powers of two and show the clamp into
  \<open>[4, 20]\<close>.
\<close>

section \<open>Distance\<close>

definition pdist :: "point \<Rightarrow> point \<Rightarrow> real" where
  "pdist a b =
     (case a of (x1, y1, z1) \<Rightarrow> case b of (x2, y2, z2) \<Rightarrow>
        sqrt ((x1 - x2)\<^sup>2 + (y1 - y2)\<^sup>2 + (z1 - z2)\<^sup>2))"

lemma pdist_nonneg: "0 \<le> pdist a b"
  by (simp add: pdist_def split: prod.splits)

lemma pdist_eq_0_iff: "pdist a b = 0 \<longleftrightarrow> a = b"
  by (auto simp: pdist_def add_nonneg_eq_0_iff split: prod.splits)

lemma pdist_pos: "a \<noteq> b \<Longrightarrow> 0 < pdist a b"
  using pdist_nonneg pdist_eq_0_iff by (metis order_less_le)

lemma pdist_self [simp]: "pdist a a = 0"
  by (simp add: pdist_eq_0_iff)

section \<open>The depth formula\<close>

text \<open>
  Lines 133--134 (\<^verbatim>\<open>accuracy = 20\<close>, \<^verbatim>\<open>max_depth = 20\<close>); line 135 also
  sets \<^verbatim>\<open>min_depth = 4\<close>, but line 150 writes the literal \<^verbatim>\<open>4\<close>, and so does
  the model.
\<close>

definition accuracy :: real where
  "accuracy = 20"

definition max_depth :: int where
  "max_depth = 20"

text \<open>
  Lines 149--150:
  \<^verbatim>\<open>depth = math.log(accuracy * distance / cutter.radius) / math.log(2)
  depth = min(max(ceil(depth), 4), max_depth)\<close>
\<close>

definition calc_depth :: "real \<Rightarrow> real \<Rightarrow> int result" where
  "calc_depth distance radius =
     (if radius = 0 then Inl ZeroDivisionError
      else let x = accuracy * distance / radius in
        if x \<le> 0 then Inl ValueError
        else Inr (min (max \<lceil>log 2 x\<rceil> 4) max_depth))"

section \<open>The ceiling of a binary logarithm\<close>

lemma ceiling_log2_eqI:
  fixes x :: real and k :: int
  assumes "0 < x" "2 powr (of_int k - 1) < x" "x \<le> 2 powr (of_int k)"
  shows "\<lceil>log 2 x\<rceil> = k"
proof -
  from assms have "of_int k - 1 < log 2 x"
    by (simp add: less_log_iff)
  moreover from assms have "log 2 x \<le> of_int k"
    by (simp add: log_le_iff)
  ultimately show ?thesis
    by (simp add: ceiling_eq_iff)
qed

lemma ceiling_log2_le:
  fixes x :: real and k :: int
  assumes "0 < x" "x \<le> 2 powr (of_int k)"
  shows "\<lceil>log 2 x\<rceil> \<le> k"
  using assms by (simp add: ceiling_le_iff log_le_iff)

lemma ceiling_log2_ge:
  fixes x :: real and k :: int
  assumes "0 < x" "2 powr (of_int k - 1) < x"
  shows "k \<le> \<lceil>log 2 x\<rceil>"
  using assms by (simp add: le_ceiling_iff less_log_iff)

lemma calc_depth_ok:
  "radius \<noteq> 0 \<Longrightarrow> 0 < accuracy * distance / radius \<Longrightarrow>
     calc_depth distance radius =
       Inr (min (max \<lceil>log 2 (accuracy * distance / radius)\<rceil> 4) max_depth)"
  by (simp add: calc_depth_def Let_def)


section \<open>Properties of the depth\<close>

text \<open>
  C5. Bounds of the recursion depth: whenever the depth of a probe line is computed at all,
  it lies in \<open>[4, 20]\<close>, and it is clamped at both ends: a line short against the radius
  (\<open>0 < 20 \<cdot> length / radius \<le> 16\<close>) gets depth 4, never less, and a line long
  against it (\<open>20 \<cdot> length / radius > 2\<^sup>1\<^sup>9\<close>) gets depth 20, never more.
\<close>

theorem calc_depth_bounds:
  "(calc_depth distance radius = Inr depth \<longrightarrow> 4 \<le> depth \<and> depth \<le> 20) \<and>
   (radius \<noteq> 0 \<and> 0 < accuracy * distance / radius \<and> accuracy * distance / radius \<le> 16 \<longrightarrow>
      calc_depth distance radius = Inr 4) \<and>
   (radius \<noteq> 0 \<and> 2 ^ 19 < accuracy * distance / radius \<longrightarrow> calc_depth distance radius = Inr 20)"
proof -
  have "calc_depth distance radius = Inr depth \<longrightarrow> 4 \<le> depth \<and> depth \<le> 20"
    by (auto simp: calc_depth_def max_depth_def Let_def split: if_splits)
  moreover have "radius \<noteq> 0 \<and> 0 < accuracy * distance / radius \<and> accuracy * distance / radius \<le> 16 \<longrightarrow>
      calc_depth distance radius = Inr 4"
  proof
    assume low: "radius \<noteq> 0 \<and> 0 < accuracy * distance / radius \<and> accuracy * distance / radius \<le> 16"
    then have "\<lceil>log 2 (accuracy * distance / radius)\<rceil> \<le> 4"
      by (intro ceiling_log2_le) (simp_all add: powr_realpow)
    with low show "calc_depth distance radius = Inr 4" by (simp add: calc_depth_ok max_depth_def)
  qed
  moreover have "radius \<noteq> 0 \<and> 2 ^ 19 < accuracy * distance / radius \<longrightarrow> calc_depth distance radius = Inr 20"
  proof
    assume high: "radius \<noteq> 0 \<and> 2 ^ 19 < accuracy * distance / radius"
    have "(0::real) < 2 ^ 19" by simp
    with high have pos: "0 < accuracy * distance / radius" by linarith
    have "20 \<le> \<lceil>log 2 (accuracy * distance / radius)\<rceil>"
      using pos high by (intro ceiling_log2_ge) (simp_all add: powr_realpow)
    with high pos show "calc_depth distance radius = Inr 20" by (simp add: calc_depth_ok max_depth_def)
  qed
  ultimately show ?thesis by blast
qed

theorem calc_depth_bounds_witness:
  "calc_depth 2 1 = Inr 6 \<and> 4 \<le> (6::int) \<and> (6::int) \<le> 20 \<and>
   calc_depth (1 / 2) 1 = Inr 4 \<and> calc_depth 524288 1 = Inr 20"
proof -
  have "\<lceil>log 2 (40::real)\<rceil> = 6"
    by (rule ceiling_log2_eqI) (simp_all add: powr_realpow)
  then have e: "calc_depth 2 1 = Inr 6"
    by (simp add: calc_depth_def accuracy_def max_depth_def)
  have "calc_depth (1 / 2) 1 = Inr 4" "calc_depth 524288 1 = Inr 20"
    using calc_depth_bounds [of "1 / 2" 1] calc_depth_bounds [of 524288 1] by (simp_all add: accuracy_def)
  then show ?thesis using calc_depth_bounds [of 2 1 6] e by simp
qed

text \<open>
  C6. The depth is the ceiling of \<open>log\<^sub>2 (20 \<cdot> length / radius)\<close> when that lies in
  \<open>[4, 20]\<close>: it is the \<open>k\<close> with \<open>2\<^sup>k\<^sup>-\<^sup>1 < 20 \<cdot> length / radius \<le> 2\<^sup>k\<close>.
\<close>

theorem calc_depth_exact:
  assumes "radius \<noteq> 0" "4 \<le> k" "k \<le> 20"
    and "2 powr (of_int k - 1) < accuracy * distance / radius"
    and "accuracy * distance / radius \<le> 2 powr (of_int k)"
  shows "calc_depth distance radius = Inr k"
proof -
  have "0 < (2::real) powr (of_int k - 1)" by simp
  with assms(4) have pos: "0 < accuracy * distance / radius" by linarith
  have "\<lceil>log 2 (accuracy * distance / radius)\<rceil> = k"
    using pos assms(4,5) by (rule ceiling_log2_eqI)
  with assms(1-3) pos show ?thesis
    by (simp add: calc_depth_ok max_depth_def)
qed

theorem calc_depth_exact_witness:
  "calc_depth 100 1 = Inr 11"
proof -
  have "2 powr (of_int (11::int) - 1) < accuracy * 100 / 1"
    and "accuracy * 100 / 1 \<le> 2 powr (of_int (11::int))"
    by (simp_all add: accuracy_def powr_realpow)
  from calc_depth_exact [of 1 11 100, OF _ _ _ this] show ?thesis by simp
qed

text \<open>
  The spec's example: accuracy 20, tool radius 1 and segment length 1 give depth
  \<open>clamp(ceil(log2 20), 4, 20) = 5\<close>.
\<close>

theorem calc_depth_spec_example: "calc_depth 1 1 = Inr 5"
proof -
  have "\<lceil>log 2 (20::real)\<rceil> = 5"
    by (rule ceiling_log2_eqI) (simp_all add: powr_realpow)
  then show ?thesis by (simp add: calc_depth_def accuracy_def max_depth_def)
qed

end
