(* ===== verification/Moves.thy ===== *)
theory Moves
  imports Prelude
begin

text \<open>
  The toolpath vocabulary of \<^verbatim>\<open>src/pycam/PathGenerators/PushCutter.py\<close>: a move is
  the tuple \<^verbatim>\<open>(MOVE_STRAIGHT, point)\<close> or \<^verbatim>\<open>(MOVE_SAFETY, None)\<close>, and the loop
  \<^verbatim>\<open>for index in range(len(points) / 2)\<close> (lines 161--164 and 115--118) expands a
  collision query's flat point list into one cut and one retract per free interval.
  The theory proves the index loop equal to a pairwise recursion, counts the moves it
  makes, and shows that every move it makes is well formed.
\<close>

section \<open>Moves\<close>

datatype move_kind = MOVE_STRAIGHT | MOVE_SAFETY

text \<open>The source's tuples: the second component is a point or \<^verbatim>\<open>None\<close>.\<close>

type_synonym move = "move_kind \<times> point option"

text \<open>The spec's invariant of the move type: a safety move never carries a point.\<close>

fun move_wf :: "move \<Rightarrow> bool" where
  "move_wf (MOVE_STRAIGHT, p) = (p \<noteq> None)"
| "move_wf (MOVE_SAFETY, p) = (p = None)"

section \<open>Expanding free intervals\<close>

text \<open>
  Lines 161--164 (and 115--118 in the waterline post-processing):
  \<^verbatim>\<open>for index in range(len(points) / 2):
      path.append((MOVE_STRAIGHT, points[2 * index]))
      path.append((MOVE_STRAIGHT, points[2 * index + 1]))
      path.append((MOVE_SAFETY, None))\<close>
  Python 2's \<^verbatim>\<open>/\<close> on ints floors, so an odd trailing point is never read.
\<close>

definition interval_moves :: "point list \<Rightarrow> move list" where
  "interval_moves points =
     concat (map (\<lambda>index. [(MOVE_STRAIGHT, Some (points ! (2 * index))),
                           (MOVE_STRAIGHT, Some (points ! (2 * index + 1))),
                           (MOVE_SAFETY, None)])
               [0..<length points div 2])"

text \<open>The reference reading: consume the list two points at a time.\<close>

fun pair_moves :: "point list \<Rightarrow> move list" where
  "pair_moves (a # b # rest) =
     [(MOVE_STRAIGHT, Some a), (MOVE_STRAIGHT, Some b), (MOVE_SAFETY, None)] @ pair_moves rest"
| "pair_moves _ = []"

lemma interval_moves_Nil [simp]: "interval_moves [] = []"
  and interval_moves_single [simp]: "interval_moves [a] = []"
  by (simp_all add: interval_moves_def)

lemma interval_moves_Cons_Cons [simp]:
  "interval_moves (a # b # rest) =
     [(MOVE_STRAIGHT, Some a), (MOVE_STRAIGHT, Some b), (MOVE_SAFETY, None)] @ interval_moves rest"
proof -
  have "length (a # b # rest) div 2 = Suc (length rest div 2)" by simp
  then show ?thesis
    by (simp add: interval_moves_def upt_Suc_shift comp_def del: upt_Suc)
qed

lemma interval_moves_wf: "m \<in> set (interval_moves ps) \<Longrightarrow> move_wf m"
  by (induction ps rule: pair_moves.induct) auto

lemma interval_moves_append_even:
  "even (length xs) \<Longrightarrow> interval_moves (xs @ ys) = interval_moves xs @ interval_moves ys"
  by (induction xs rule: pair_moves.induct) simp_all

lemma interval_moves_odd_drop_last:
  "odd (length ps) \<Longrightarrow> interval_moves ps = interval_moves (butlast ps)"
proof (induction ps rule: pair_moves.induct)
  case (1 a b rest)
  then show ?case by (cases rest) simp_all
qed simp_all

lemma list_all_interval_moves [simp]: "list_all move_wf (interval_moves ps)"
  by (simp add: list_all_iff interval_moves_wf)

section \<open>Properties of the expansion\<close>

text \<open>
  Counting (spec, section 8): the expansion of one query result makes exactly one
  cut/cut/retract triple per free interval, that is \<open>3 \<cdot> \<lfloor>n / 2\<rfloor>\<close> moves for
  \<open>n\<close> points.
\<close>

theorem length_interval_moves: "length (interval_moves ps) = 3 * (length ps div 2)"
  by (induction ps rule: pair_moves.induct) simp_all

text \<open>
  C13. The index loop of the source equals the pairwise reading: point \<open>2i\<close> and
  point \<open>2i+1\<close> are the ends of the \<open>i\<close>-th free interval, consumed two at a time.
\<close>

theorem interval_moves_pair_moves: "interval_moves ps = pair_moves ps"
  by (induction ps rule: pair_moves.induct) simp_all

end
