(* ===== verification/Progress.thy ===== *)
theory Progress
  imports Moves
begin

text \<open>
  The live-update callback and \<^verbatim>\<open>pycam.Utils.ProgressCounter\<close>. The callback is an
  external, stateful collaborator (the GUI): the model gives it its own state \<open>'s\<close>
  and reads every call \<^verbatim>\<open>draw_callback(...)\<close> as a step of that state that answers
  "cancel requested?". The counter is not among the repository's sources under
  \<^verbatim>\<open>src/\<close>; it is modelled from the spec (section 4.1): a total fixed at
  construction, a completed count that \<^verbatim>\<open>increment()\<close> advances by one, and
  \<^verbatim>\<open>update()\<close>, which reports to the callback and passes its cancel answer on.
\<close>

section \<open>The callback\<close>

text \<open>The keyword arguments the core passes to \<^verbatim>\<open>draw_callback\<close>.\<close>

datatype cb_event =
    CbText nat nat                    \<comment> \<open>\<^verbatim>\<open>text="PushCutter: processing layer %d/%d"\<close>\<close>
  | CbToolPosition point              \<comment> \<open>\<^verbatim>\<open>tool_position=points[-1]\<close>\<close>
  | CbToolPositionPath point "move list" \<comment> \<open>\<^verbatim>\<open>tool_position=..., toolpath=path\<close>\<close>
  | CbPercent nat nat                 \<comment> \<open>the progress counter's report: done, total\<close>

type_synonym 's callback = "'s \<Rightarrow> cb_event \<Rightarrow> 's \<times> bool"

text \<open>\<^verbatim>\<open>draw_callback and draw_callback(...)\<close>: no call, and no cancel, without a callback.\<close>

definition call_cb :: "'s callback option \<Rightarrow> cb_event \<Rightarrow> 's \<Rightarrow> 's \<times> bool" where
  "call_cb cb ev st = (case cb of None \<Rightarrow> (st, False) | Some f \<Rightarrow> f st ev)"

text \<open>A callback that never asks to cancel (or no callback at all).\<close>

definition never_cancels :: "'s callback option \<Rightarrow> bool" where
  "never_cancels cb = (case cb of None \<Rightarrow> True | Some f \<Rightarrow> (\<forall>st ev. \<not> snd (f st ev)))"

lemma never_cancels_call_cb [simp]:
  "never_cancels cb \<Longrightarrow> snd (call_cb cb ev st) = False"
  by (auto simp: never_cancels_def call_cb_def split: option.splits)

text \<open>
  The events a slice sends (positions and progress reports), as opposed to the layer
  driver's text; a callback is quiet in slices when it never cancels on those.
\<close>

fun slice_event :: "cb_event \<Rightarrow> bool" where
  "slice_event (CbText _ _) = False"
| "slice_event _ = True"

definition quiet_slices :: "'s callback option \<Rightarrow> bool" where
  "quiet_slices cb =
     (case cb of None \<Rightarrow> True | Some f \<Rightarrow> (\<forall>st ev. slice_event ev \<longrightarrow> \<not> snd (f st ev)))"

lemma never_cancels_quiet_slices: "never_cancels cb \<Longrightarrow> quiet_slices cb"
  by (auto simp: never_cancels_def quiet_slices_def split: option.splits)

lemma quiet_slices_call_cb:
  "quiet_slices cb \<Longrightarrow> slice_event ev \<Longrightarrow> snd (call_cb cb ev st) = False"
  by (auto simp: quiet_slices_def call_cb_def split: option.splits)

section \<open>The progress counter\<close>

record progress_counter =
  max_value :: nat
  current_value :: nat

definition ProgressCounter :: "nat \<Rightarrow> progress_counter" where
  "ProgressCounter max_val = \<lparr>max_value = max_val, current_value = 0\<rparr>"

definition pc_update ::
  "'s callback option \<Rightarrow> progress_counter \<Rightarrow> 's \<Rightarrow> 's \<times> bool" where
  "pc_update cb p st = call_cb cb (CbPercent (current_value p) (max_value p)) st"

definition pc_increment ::
  "'s callback option \<Rightarrow> progress_counter \<Rightarrow> 's \<Rightarrow> progress_counter \<times> 's \<times> bool" where
  "pc_increment cb p st =
     (let p' = p\<lparr>current_value := Suc (current_value p)\<rparr>;
          (st', quit) = pc_update cb p' st
      in (p', st', quit))"

lemma pc_increment_counter [simp]:
  "fst (pc_increment cb p st) = p\<lparr>current_value := Suc (current_value p)\<rparr>"
  by (simp add: pc_increment_def case_prod_beta Let_def)

lemma pc_increment_quit:
  "snd (snd (pc_increment cb p st)) =
     snd (call_cb cb (CbPercent (Suc (current_value p)) (max_value p)) st)"
  by (simp add: pc_increment_def pc_update_def case_prod_beta Let_def)

end
