(* ===== verification/Contour.thy ===== *)
theory Contour
  imports Prelude
begin

text \<open>
  The interface of the contour path processor
  (\<^verbatim>\<open>pycam.PathProcessors.ContourCutter\<close>), a collaborator that is not among the
  sources under \<^verbatim>\<open>src/\<close>: its operations as a datatype of calls, which the core
  issues through one step function of the accumulator, and the calling protocol that the
  spec (sections 4.3, 4.4 and 6) describes: a sweep direction is opened, filled with
  scan-lines, each scan-line bracketed by \<^verbatim>\<open>new_scanline\<close>/\<^verbatim>\<open>end_scanline\<close>
  around its \<^verbatim>\<open>append\<close>s, and closed before \<^verbatim>\<open>finish\<close>. The protocol is a
  finite automaton; a call sequence is well bracketed when the automaton accepts it.
\<close>

datatype pa_op =
    NewDirection nat
  | NewScanline
  | Append point
  | EndScanline
  | EndDirection
  | Finish

datatype pa_phase = PaIdle | PaDirection | PaScanline

fun pa_protocol :: "pa_phase \<Rightarrow> pa_op \<Rightarrow> pa_phase option" where
  "pa_protocol PaIdle (NewDirection _) = Some PaDirection"
| "pa_protocol PaDirection NewScanline = Some PaScanline"
| "pa_protocol PaScanline (Append _) = Some PaScanline"
| "pa_protocol PaScanline EndScanline = Some PaDirection"
| "pa_protocol PaDirection EndDirection = Some PaIdle"
| "pa_protocol PaIdle Finish = Some PaIdle"
| "pa_protocol _ _ = None"

fun pa_run :: "pa_phase \<Rightarrow> pa_op list \<Rightarrow> pa_phase option" where
  "pa_run q [] = Some q"
| "pa_run q (op # ops) = (case pa_protocol q op of None \<Rightarrow> None | Some q' \<Rightarrow> pa_run q' ops)"

lemma pa_run_append [simp]:
  "pa_run q (xs @ ys) = (case pa_run q xs of None \<Rightarrow> None | Some q' \<Rightarrow> pa_run q' ys)"
  by (induction q xs rule: pa_run.induct) (auto split: option.splits)

lemma pa_run_appends [simp]:
  "pa_run PaScanline (map Append ps) = Some PaScanline"
  by (induction ps) simp_all

text \<open>The calls one scan-line makes, and one whole direction of scan-lines.\<close>

definition scanline_ops :: "point list \<Rightarrow> pa_op list" where
  "scanline_ops ps = NewScanline # map Append ps @ [EndScanline]"

lemma pa_run_scanline_ops [simp]: "pa_run PaDirection (scanline_ops ps) = Some PaDirection"
  by (simp add: scanline_ops_def)

lemma pa_run_scanlines [simp]:
  "pa_run PaDirection (concat (map scanline_ops pss)) = Some PaDirection"
  by (induction pss) simp_all

end
