(* ===== verification/PushCutter.thy ===== *)
theory PushCutter
  imports Depth Progress Contour
begin

text \<open>
  \<^verbatim>\<open>src/pycam/PathGenerators/PushCutter.py\<close> as a state-passing program. The
  collision back-ends, the cutter's radius and the contour path processor are
  collaborators that are not modelled: they are the fields of a record \<open>backend\<close>
  that every operation takes. The mutable state of one run (the callback's world, the
  progress counter and \<^verbatim>\<open>self.pa\<close>) is the record \<open>run_state\<close>, threaded through
  every call; an exception is an \<open>Inl\<close> that aborts the run, as it would propagate in
  Python. Groups, in the order of the file: \<^verbatim>\<open>_process_one_line\<close> (lines 40--45),
  the \<^verbatim>\<open>PushCutter\<close> object (48--56), \<^verbatim>\<open>GenerateToolPathSlice\<close> (128--178),
  \<^verbatim>\<open>GenerateToolPath\<close> (58--126) with its waterline post-processing (99--124).
\<close>

section \<open>Collaborators and state\<close>

record ('m, 'c, 'ph, 'pa) backend =
  get_free_paths_ode :: "'ph \<Rightarrow> point \<Rightarrow> point \<Rightarrow> int \<Rightarrow> point list result"
  get_free_paths_triangles :: "'m list \<Rightarrow> 'c \<Rightarrow> point \<Rightarrow> point \<Rightarrow> point list result"
  cutter_radius :: "'c \<Rightarrow> real"
  contour_step :: "'pa \<Rightarrow> pa_op \<Rightarrow> 'pa"
  contour_paths :: "'pa \<Rightarrow> point list list"
  contour_new :: 'pa

text \<open>The \<^verbatim>\<open>PushCutter\<close> object: \<^verbatim>\<open>self.physics\<close> and \<^verbatim>\<open>self.waterlines\<close>.\<close>

record 'ph pushcutter =
  physics :: "'ph option"
  waterlines :: bool

text \<open>The argument tuple of \<^verbatim>\<open>_process_one_line\<close>: \<^verbatim>\<open>(p1, p2, depth, models, cutter, physics)\<close>.\<close>

record ('m, 'c, 'ph) line_arg =
  la_p1 :: point
  la_p2 :: point
  la_depth :: int
  la_models :: "'m list"
  la_cutter :: 'c
  la_physics :: "'ph option"

record ('s, 'pa) run_state =
  cb_state :: 's
  progress :: "progress_counter option"
  pa :: 'pa

section \<open>\<^verbatim>\<open>_process_one_line\<close>\<close>

definition process_one_line ::
  "('m, 'c, 'ph, 'pa) backend \<Rightarrow> ('m, 'c, 'ph) line_arg \<Rightarrow> point list result" where
  "process_one_line B a =
     (case la_physics a of
        Some ph \<Rightarrow> get_free_paths_ode B ph (la_p1 a) (la_p2 a) (la_depth a)
      | None \<Rightarrow> get_free_paths_triangles B (la_models a) (la_cutter a) (la_p1 a) (la_p2 a))"

section \<open>Calls on the state\<close>

definition draw ::
  "'s callback option \<Rightarrow> cb_event \<Rightarrow> ('s, 'pa) run_state \<Rightarrow> ('s, 'pa) run_state \<times> bool" where
  "draw cb ev s = (let (st, quit) = call_cb cb ev (cb_state s) in (s\<lparr>cb_state := st\<rparr>, quit))"

definition pa_call ::
  "('m, 'c, 'ph, 'pa) backend \<Rightarrow> pa_op \<Rightarrow> ('s, 'pa) run_state \<Rightarrow> ('s, 'pa) run_state" where
  "pa_call B op s = s\<lparr>pa := contour_step B (pa s) op\<rparr>"

section \<open>\<^verbatim>\<open>GenerateToolPathSlice\<close>\<close>

text \<open>Line 145, \<^verbatim>\<open>p1, p2 = line\<close>: unpacking raises unless the line has two points.\<close>

fun unpack2 :: "'a list \<Rightarrow> ('a \<times> 'a) result" where
  "unpack2 [a, b] = Inr (a, b)"
| "unpack2 _ = Inl ValueError"

text \<open>Lines 137--141: the contour processor only sees the first model.\<close>

definition slice_models :: "'ph pushcutter \<Rightarrow> 'm list \<Rightarrow> 'm list" where
  "slice_models pc models = (if waterlines pc then take 1 models else models)"

text \<open>Lines 144--151, one iteration: the argument tuple of one probe line.\<close>

definition make_line_arg ::
  "('m, 'c, 'ph, 'pa) backend \<Rightarrow> 'ph pushcutter \<Rightarrow> 'c \<Rightarrow> 'm list \<Rightarrow> point list \<Rightarrow>
     ('m, 'c, 'ph) line_arg result" where
  "make_line_arg B pc cutter models line =
     (case unpack2 line of
        Inl e \<Rightarrow> Inl e
      | Inr (p1, p2) \<Rightarrow>
          (case calc_depth (pdist p2 p1) (cutter_radius B cutter) of
             Inl e \<Rightarrow> Inl e
           | Inr depth \<Rightarrow>
               Inr \<lparr>la_p1 = p1, la_p2 = p2, la_depth = depth, la_models = models,
                    la_cutter = cutter, la_physics = physics pc\<rparr>))"

text \<open>
  Lines 155--171: what one query result does. In waterline mode its points go to the
  contour processor as one scan-line, in flat mode each free interval becomes a cut and a
  retract; in both the callback is shown the last point. An empty result does nothing.
\<close>

definition slice_consume ::
  "('m, 'c, 'ph, 'pa) backend \<Rightarrow> 'ph pushcutter \<Rightarrow> 's callback option \<Rightarrow> point list \<Rightarrow>
     move list \<Rightarrow> ('s, 'pa) run_state \<Rightarrow> move list \<times> ('s, 'pa) run_state" where
  "slice_consume B pc cb points path s =
     (if points = [] then (path, s)
      else if waterlines pc then
        (let s1 = fold (\<lambda>p. pa_call B (Append p)) points (pa_call B NewScanline s);
             s2 = fst (draw cb (CbToolPosition (last points)) s1)
         in (path, pa_call B EndScanline s2))
      else
        (let path' = path @ interval_moves points
         in (path', fst (draw cb (CbToolPositionPath (last points) path') s))))"

text \<open>Line 173: \<^verbatim>\<open>if progress_counter and progress_counter.increment(): break\<close>.\<close>

definition slice_increment ::
  "'s callback option \<Rightarrow> ('s, 'pa) run_state \<Rightarrow> ('s, 'pa) run_state \<times> bool" where
  "slice_increment cb s =
     (case progress s of
        None \<Rightarrow> (s, False)
      | Some p \<Rightarrow>
          (let (p', st, quit) = pc_increment cb p (cb_state s)
           in (s\<lparr>progress := Some p', cb_state := st\<rparr>, quit)))"

text \<open>
  The callback \<^verbatim>\<open>progress_counter.update\<close> that line 154 hands to
  \<^verbatim>\<open>run_in_parallel\<close>: it runs after each yielded result, when the consumer asks for
  the next one (its answer is not read).
\<close>

definition slice_update ::
  "'s callback option \<Rightarrow> ('s, 'pa) run_state \<Rightarrow> ('s, 'pa) run_state" where
  "slice_update cb s =
     (case progress s of
        None \<Rightarrow> s
      | Some p \<Rightarrow> s\<lparr>cb_state := fst (pc_update cb p (cb_state s))\<rparr>)"

text \<open>
  Lines 153--175: the results of \<^verbatim>\<open>run_in_parallel\<close>, consumed in input order (the
  theory \<open>Parallel\<close> shows the processor yields them so); a query is evaluated when
  its result is consumed, so a cancel stops the queries of the rest of the layer.
\<close>

fun slice_loop ::
  "('m, 'c, 'ph, 'pa) backend \<Rightarrow> 'ph pushcutter \<Rightarrow> 's callback option \<Rightarrow>
     ('m, 'c, 'ph) line_arg list \<Rightarrow> move list \<Rightarrow> ('s, 'pa) run_state \<Rightarrow>
     (move list \<times> ('s, 'pa) run_state) result" where
  "slice_loop B pc cb [] path s = Inr (path, s)"
| "slice_loop B pc cb (a # args) path s =
     (case process_one_line B a of
        Inl e \<Rightarrow> Inl e
      | Inr points \<Rightarrow>
          (let (path1, s1) = slice_consume B pc cb points path s;
               (s2, quit) = slice_increment cb s1
           in if quit then Inr (path1, s2)
              else slice_loop B pc cb args path1 (slice_update cb s2)))"

text \<open>
  Lines 128--178. The progress counter is part of the state; without one, line 154
  (\<^verbatim>\<open>callback=progress_counter.update\<close>) raises \<^verbatim>\<open>AttributeError\<close> after the
  argument list is built. In waterline mode the method returns \<^verbatim>\<open>None\<close>.
\<close>

definition GenerateToolPathSlice ::
  "('m, 'c, 'ph, 'pa) backend \<Rightarrow> 'ph pushcutter \<Rightarrow> 'c \<Rightarrow> 'm list \<Rightarrow> point list list \<Rightarrow>
     's callback option \<Rightarrow> ('s, 'pa) run_state \<Rightarrow>
     (move list option \<times> ('s, 'pa) run_state) result" where
  "GenerateToolPathSlice B pc cutter models layer_grid cb s =
     (case map_res (make_line_arg B pc cutter (slice_models pc models)) layer_grid of
        Inl e \<Rightarrow> Inl e
      | Inr args \<Rightarrow>
          (if progress s = None then Inl AttributeError
           else (case slice_loop B pc cb args [] s of
                   Inl e \<Rightarrow> Inl e
                 | Inr (path, s') \<Rightarrow> Inr (if waterlines pc then None else Some path, s'))))"

section \<open>\<^verbatim>\<open>GenerateToolPath\<close>\<close>

text \<open>
  Lines 80--97: the layer loop. The callback is asked before each layer whether to
  cancel; in waterline mode each layer is one sweep direction of the contour processor,
  in flat mode the layer's moves are appended to the path (\<^verbatim>\<open>path.extend(result)\<close>,
  which raises \<^verbatim>\<open>TypeError\<close> on \<^verbatim>\<open>None\<close>).
\<close>

fun layers_loop ::
  "('m, 'c, 'ph, 'pa) backend \<Rightarrow> 'ph pushcutter \<Rightarrow> 'c \<Rightarrow> 'm list \<Rightarrow> 's callback option \<Rightarrow>
     nat \<Rightarrow> nat \<Rightarrow> point list list list \<Rightarrow> move list \<Rightarrow> ('s, 'pa) run_state \<Rightarrow>
     (move list \<times> ('s, 'pa) run_state) result" where
  "layers_loop B pc cutter models cb num_of_layers current_layer [] path s = Inr (path, s)"
| "layers_loop B pc cutter models cb num_of_layers current_layer (layer_grid # grid) path s =
     (let (s1, quit) = draw cb (CbText (Suc current_layer) num_of_layers) s
      in if quit then Inr (path, s1)
         else
           (let s2 = (if waterlines pc then pa_call B (NewDirection 0) s1 else s1)
            in case GenerateToolPathSlice B pc cutter models layer_grid cb s2 of
                 Inl e \<Rightarrow> Inl e
               | Inr (result, s3) \<Rightarrow>
                   (if waterlines pc then
                      layers_loop B pc cutter models cb num_of_layers (Suc current_layer) grid path
                        (pa_call B Finish (pa_call B EndDirection s3))
                    else
                      (case result of
                         None \<Rightarrow> Inl TypeError
                       | Some r \<Rightarrow>
                           layers_loop B pc cutter models cb num_of_layers (Suc current_layer) grid
                             (path @ r) s3))))"

text \<open>Lines 105--107: consecutive pairs of a polyline's points.\<close>

definition point_pairs :: "'a list \<Rightarrow> ('a \<times> 'a) list" where
  "point_pairs pts = map (\<lambda>index. (pts ! index, pts ! (index + 1))) [0..<length pts - 1]"

text \<open>
  Lines 104--123, one polyline: with obstacle models (more than one model) each pair is
  re-checked against \<^verbatim>\<open>models[1:]\<close> by the triangle back-end; otherwise each pair is
  a cut and a retract as it is.
\<close>

definition waterline_path_moves ::
  "('m, 'c, 'ph, 'pa) backend \<Rightarrow> 'c \<Rightarrow> 'm list \<Rightarrow> point list \<Rightarrow> move list result" where
  "waterline_path_moves B cutter models pts =
     (if 1 < length models then
        (case map_res (\<lambda>(p1, p2). get_free_paths_triangles B (drop 1 models) cutter p1 p2)
                (point_pairs pts) of
           Inl e \<Rightarrow> Inl e
         | Inr frees \<Rightarrow> Inr (concat (map interval_moves frees)))
      else
        Inr (concat (map (\<lambda>(p1, p2). [(MOVE_STRAIGHT, Some p1), (MOVE_STRAIGHT, Some p2),
                                       (MOVE_SAFETY, None)])
                       (point_pairs pts))))"

definition waterline_moves ::
  "('m, 'c, 'ph, 'pa) backend \<Rightarrow> 'c \<Rightarrow> 'm list \<Rightarrow> point list list \<Rightarrow> move list result" where
  "waterline_moves B cutter models paths =
     (case map_res (waterline_path_moves B cutter models) paths of
        Inl e \<Rightarrow> Inl e
      | Inr rs \<Rightarrow> Inr (concat rs))"

text \<open>
  Lines 58--126. The motion grid is already a list of layers of lines (the
  materialisation of lines 61--69 is the identity on lists). In flat mode the model
  starts \<^verbatim>\<open>self.pa\<close> as a fresh accumulator too; no flat-mode step touches it.
\<close>

definition GenerateToolPath ::
  "('m, 'c, 'ph, 'pa) backend \<Rightarrow> 'ph pushcutter \<Rightarrow> 'c \<Rightarrow> 'm list \<Rightarrow> point list list list \<Rightarrow>
     's callback option \<Rightarrow> 's \<Rightarrow> (move list \<times> ('s, 'pa) run_state) result" where
  "GenerateToolPath B pc cutter models motion_grid cb st =
     (let grid = motion_grid;
          num_of_grid_positions = sum_list (map length grid);
          num_of_layers = length grid;
          s0 = \<lparr>cb_state = st, progress = Some (ProgressCounter num_of_grid_positions),
                pa = contour_new B\<rparr>
      in case layers_loop B pc cutter models cb num_of_layers 0 grid [] s0 of
           Inl e \<Rightarrow> Inl e
         | Inr (path, s) \<Rightarrow>
             (if waterlines pc then
                (case waterline_moves B cutter models (contour_paths B (pa s)) of
                   Inl e \<Rightarrow> Inl e
                 | Inr result \<Rightarrow> Inr (result, s))
              else Inr (path, s)))"

section \<open>Abstract specification of flat mode\<close>

text \<open>
  What flat mode promises (spec, sections 4.3, 4.4 and 8): per layer, build every line's
  query arguments, run every query, and expand every result into cut/cut/retract moves,
  concatenated in input order; the first exception aborts. No callback, no counter,
  no accumulator.
\<close>

definition layer_free_paths ::
  "('m, 'c, 'ph, 'pa) backend \<Rightarrow> 'ph pushcutter \<Rightarrow> 'c \<Rightarrow> 'm list \<Rightarrow> point list list \<Rightarrow>
     point list list result" where
  "layer_free_paths B pc cutter models layer_grid =
     (case map_res (make_line_arg B pc cutter (slice_models pc models)) layer_grid of
        Inl e \<Rightarrow> Inl e
      | Inr args \<Rightarrow> map_res (process_one_line B) args)"

definition flat_toolpath_spec ::
  "('m, 'c, 'ph, 'pa) backend \<Rightarrow> 'ph pushcutter \<Rightarrow> 'c \<Rightarrow> 'm list \<Rightarrow> point list list list \<Rightarrow>
     move list result" where
  "flat_toolpath_spec B pc cutter models grid =
     map_sum id (\<lambda>rss. concat (map (\<lambda>rs. concat (map interval_moves rs)) rss))
       (map_res (layer_free_paths B pc cutter models) grid)"

section \<open>Frame lemmas of the state calls\<close>

lemma progress_draw [simp]: "progress (fst (draw cb ev s)) = progress s"
  and pa_draw [simp]: "pa (fst (draw cb ev s)) = pa s"
  by (simp_all add: draw_def case_prod_beta)

lemma progress_pa_call [simp]: "progress (pa_call B op s) = progress s"
  and cb_state_pa_call [simp]: "cb_state (pa_call B op s) = cb_state s"
  by (simp_all add: pa_call_def)

lemma progress_fold_pa_call [simp]:
  "progress (fold (\<lambda>p. pa_call B (f p)) ps s) = progress s"
  by (induction ps arbitrary: s) simp_all

lemma progress_slice_consume [simp]:
  "progress (snd (slice_consume B pc cb points path s)) = progress s"
  by (simp add: slice_consume_def Let_def)

lemma slice_consume_flat:
  "\<not> waterlines pc \<Longrightarrow> fst (slice_consume B pc cb points path s) = path @ interval_moves points"
  by (simp add: slice_consume_def Let_def)

lemma slice_increment_progress:
  "progress s = Some p \<Longrightarrow>
     progress (fst (slice_increment cb s)) = Some (p\<lparr>current_value := Suc (current_value p)\<rparr>)"
  by (simp add: slice_increment_def case_prod_beta Let_def)

lemma slice_increment_quiet:
  "quiet_slices cb \<Longrightarrow> snd (slice_increment cb s) = False"
  by (simp add: slice_increment_def case_prod_beta pc_increment_quit quiet_slices_call_cb
      split: option.splits)

lemma slice_increment_never_cancels:
  "never_cancels cb \<Longrightarrow> snd (slice_increment cb s) = False"
  by (simp add: slice_increment_quiet never_cancels_quiet_slices)

lemma progress_slice_update [simp]: "progress (slice_update cb s) = progress s"
  by (simp add: slice_update_def split: option.splits)

lemma slice_loop_flat_quiet:
  assumes "\<not> waterlines pc" "quiet_slices cb"
  shows "map_sum id fst (slice_loop B pc cb args path s) =
           map_sum id (\<lambda>rs. path @ concat (map interval_moves rs)) (map_res (process_one_line B) args)"
proof (induction args arbitrary: path s)
  case Nil
  then show ?case by simp
next
  case (Cons a args)
  show ?case
  proof (cases "process_one_line B a")
    case (Inl e)
    then show ?thesis by simp
  next
    case (Inr points)
    obtain path1 s1 where c: "slice_consume B pc cb points path s = (path1, s1)"
      by fastforce
    obtain s2 q where i: "slice_increment cb s1 = (s2, q)"
      by fastforce
    from c assms(1) have "path1 = path @ interval_moves points"
      by (metis fst_conv slice_consume_flat)
    moreover from i assms(2) have "q = False"
      by (metis snd_conv slice_increment_quiet)
    ultimately show ?thesis
      using Inr c i Cons.IH [of path1 "slice_update cb s2"]
      by (simp split: sum.splits)
  qed
qed

lemma slice_loop_progress:
  assumes "slice_loop B pc cb args path s = Inr (path', s')" "progress s = Some p"
  shows "\<exists>p'. progress s' = Some p' \<and> max_value p' = max_value p \<and>
           current_value p \<le> current_value p' \<and> current_value p' \<le> current_value p + length args \<and>
           (never_cancels cb \<longrightarrow> current_value p' = current_value p + length args)"
  using assms
proof (induction args arbitrary: path s p)
  case Nil
  then show ?case by simp
next
  case (Cons a args)
  obtain points where q: "process_one_line B a = Inr points"
    using Cons.prems(1) by (cases "process_one_line B a") simp_all
  obtain path1 s1 where c: "slice_consume B pc cb points path s = (path1, s1)"
    by fastforce
  obtain s2 quit where i: "slice_increment cb s1 = (s2, quit)"
    by fastforce
  have p1: "progress s1 = Some p"
    using c Cons.prems(2) by (metis progress_slice_consume snd_conv)
  define p2 where "p2 = p\<lparr>current_value := Suc (current_value p)\<rparr>"
  have p2: "progress s2 = Some p2"
    using i p1 slice_increment_progress unfolding p2_def by (metis fst_conv)
  show ?case
  proof (cases quit)
    case True
    with Cons.prems(1) q c i have "s' = s2" by simp
    moreover from True i have "\<not> never_cancels cb"
      using slice_increment_never_cancels by (metis snd_conv)
    ultimately show ?thesis using p2 by (simp add: p2_def)
  next
    case False
    with Cons.prems(1) q c i
    have rec: "slice_loop B pc cb args path1 (slice_update cb s2) = Inr (path', s')"
      by simp
    have "progress (slice_update cb s2) = Some p2" using p2 by simp
    from Cons.IH [OF rec this] show ?thesis by (auto simp: p2_def)
  qed
qed

lemma GenerateToolPathSlice_flat:
  assumes "\<not> waterlines pc" "quiet_slices cb" "progress s \<noteq> None"
  shows "map_sum id fst (GenerateToolPathSlice B pc cutter models lg cb s) =
           map_sum id (\<lambda>rs. Some (concat (map interval_moves rs)))
             (layer_free_paths B pc cutter models lg)"
proof (cases "map_res (make_line_arg B pc cutter (slice_models pc models)) lg")
  case (Inl e)
  then show ?thesis by (simp add: GenerateToolPathSlice_def layer_free_paths_def)
next
  case (Inr args)
  have "map_sum id fst (slice_loop B pc cb args [] s) =
          map_sum id (\<lambda>rs. concat (map interval_moves rs)) (map_res (process_one_line B) args)"
    using slice_loop_flat_quiet [OF assms(1,2), of B args "[]" s] by simp
  with Inr assms show ?thesis
    by (cases "map_res (process_one_line B) args")
      (auto simp: GenerateToolPathSlice_def layer_free_paths_def split: sum.splits)
qed

lemma GenerateToolPathSlice_progress:
  assumes "GenerateToolPathSlice B pc cutter models lg cb s = Inr (r, s')" "progress s = Some p"
  shows "\<exists>p'. progress s' = Some p' \<and> max_value p' = max_value p \<and>
           current_value p \<le> current_value p' \<and> current_value p' \<le> current_value p + length lg \<and>
           (never_cancels cb \<longrightarrow> current_value p' = current_value p + length lg)"
proof -
  obtain args path where args: "map_res (make_line_arg B pc cutter (slice_models pc models)) lg = Inr args"
    and loop: "slice_loop B pc cb args [] s = Inr (path, s')"
    using assms by (auto simp: GenerateToolPathSlice_def split: sum.splits if_splits)
  from args have "length args = length lg" by (rule map_res_length)
  with slice_loop_progress [OF loop assms(2)] show ?thesis by simp
qed

lemma GenerateToolPathSlice_flat_Some:
  "\<not> waterlines pc \<Longrightarrow> GenerateToolPathSlice B pc cutter models lg cb s = Inr (r, s') \<Longrightarrow> r \<noteq> None"
  by (auto simp: GenerateToolPathSlice_def split: sum.splits if_splits)

lemma draw_never_cancels [simp]: "never_cancels cb \<Longrightarrow> snd (draw cb ev s) = False"
  by (simp add: draw_def case_prod_beta)

lemma draw_quit: "snd (draw cb ev s) = snd (call_cb cb ev (cb_state s))"
  by (simp add: draw_def case_prod_beta)

text \<open>
  Flat mode when the slices never cancel and the callback cancels at the layer
  boundaries from layer \<open>k + 1\<close> on: the layers before are computed as specified.
\<close>

lemma layers_loop_flat_upto:
  assumes "\<not> waterlines pc" "quiet_slices cb" "progress s \<noteq> None" "i \<le> k"
    and "\<And>j st. Suc i \<le> j \<Longrightarrow> j \<le> i + length grid \<Longrightarrow>
           snd (call_cb cb (CbText j n) st) = (k < j)"
  shows "map_sum id fst (layers_loop B pc cutter models cb n i grid path s) =
           map_sum id (\<lambda>rss. path @ concat (map (\<lambda>rs. concat (map interval_moves rs)) rss))
             (map_res (layer_free_paths B pc cutter models) (take (k - i) grid))"
  using assms(3-5)
proof (induction grid arbitrary: i path s)
  case Nil
  then show ?case by simp
next
  case (Cons lg grid)
  obtain s1 quit where d: "draw cb (CbText (Suc i) n) s = (s1, quit)"
    by fastforce
  have quit: "quit = (k < Suc i)"
    using d Cons.prems(3) [of "Suc i" "cb_state s"] by (simp add: draw_quit [symmetric])
  show ?case
  proof (cases "i = k")
    case True
    with d quit show ?thesis by simp
  next
    case False
    with Cons.prems(2) quit have nq: "quit = False" and ik: "Suc i \<le> k" by auto
    from d Cons.prems(1) have p1: "progress s1 \<noteq> None" by (metis fst_conv progress_draw)
    from ik have "k - i = Suc (k - Suc i)" by arith
    then have tk: "take (k - i) (lg # grid) = lg # take (k - Suc i) grid" by simp
    have sl: "map_sum id fst (GenerateToolPathSlice B pc cutter models lg cb s1) =
                map_sum id (\<lambda>rs. Some (concat (map interval_moves rs))) (layer_free_paths B pc cutter models lg)"
      by (rule GenerateToolPathSlice_flat [OF assms(1,2) p1])
    show ?thesis
    proof (cases "GenerateToolPathSlice B pc cutter models lg cb s1")
      case (Inl e)
      with sl have "layer_free_paths B pc cutter models lg = Inl e"
        by (cases "layer_free_paths B pc cutter models lg") simp_all
      with Inl d nq tk assms(1) show ?thesis by simp
    next
      case (Inr rs3)
      obtain r s3 where rs3: "rs3 = (r, s3)" by fastforce
      from sl Inr rs3 obtain rs where lf: "layer_free_paths B pc cutter models lg = Inr rs"
        and r: "r = Some (concat (map interval_moves rs))"
        by (cases "layer_free_paths B pc cutter models lg") auto
      from p1 obtain p where "progress s1 = Some p" by blast
      with GenerateToolPathSlice_progress [of B pc cutter models lg cb s1 r s3] Inr rs3
      have p3: "progress s3 \<noteq> None" by auto
      have "\<And>j st. Suc (Suc i) \<le> j \<Longrightarrow> j \<le> Suc i + length grid \<Longrightarrow>
              snd (call_cb cb (CbText j n) st) = (k < j)"
        using Cons.prems(3) by simp
      note IH = Cons.IH [OF p3 ik this, of "path @ concat (map interval_moves rs)"]
      from Inr rs3 r lf d nq tk assms(1) IH show ?thesis
        by (simp split: sum.splits)
    qed
  qed
qed

lemma layers_loop_flat:
  assumes "\<not> waterlines pc" "never_cancels cb" "progress s \<noteq> None"
  shows "map_sum id fst (layers_loop B pc cutter models cb n i grid path s) =
           map_sum id (\<lambda>rss. path @ concat (map (\<lambda>rs. concat (map interval_moves rs)) rss))
             (map_res (layer_free_paths B pc cutter models) grid)"
proof -
  have "map_sum id fst (layers_loop B pc cutter models cb n i grid path s) =
          map_sum id (\<lambda>rss. path @ concat (map (\<lambda>rs. concat (map interval_moves rs)) rss))
            (map_res (layer_free_paths B pc cutter models) (take (i + length grid - i) grid))"
    by (rule layers_loop_flat_upto [OF assms(1) never_cancels_quiet_slices [OF assms(2)] assms(3)])
      (use assms(2) in simp_all)
  then show ?thesis by simp
qed

lemma layers_loop_progress:
  assumes "layers_loop B pc cutter models cb n i grid path s = Inr (path', s')" "progress s = Some p"
  shows "\<exists>p'. progress s' = Some p' \<and> max_value p' = max_value p \<and>
           current_value p \<le> current_value p' \<and>
           current_value p' \<le> current_value p + sum_list (map length grid) \<and>
           (never_cancels cb \<longrightarrow> current_value p' = current_value p + sum_list (map length grid))"
  using assms
proof (induction grid arbitrary: i path s p)
  case Nil
  then show ?case by simp
next
  case (Cons lg grid)
  obtain s1 quit where d: "draw cb (CbText (Suc i) n) s = (s1, quit)"
    by fastforce
  from d Cons.prems(2) have p1: "progress s1 = Some p" by (metis fst_conv progress_draw)
  show ?case
  proof (cases quit)
    case True
    with Cons.prems(1) d have "s' = s1" by simp
    moreover from True d have "\<not> never_cancels cb" by (metis draw_never_cancels snd_conv)
    ultimately show ?thesis using p1 by simp
  next
    case False
    define s2 where "s2 = (if waterlines pc then pa_call B (NewDirection 0) s1 else s1)"
    have p2: "progress s2 = Some p" using p1 by (simp add: s2_def)
    from Cons.prems(1) d False obtain r s3 where
      sl: "GenerateToolPathSlice B pc cutter models lg cb s2 = Inr (r, s3)"
      by (auto simp: s2_def split: sum.splits)
    from GenerateToolPathSlice_progress [OF sl p2] obtain p3 where p3: "progress s3 = Some p3"
      and b3: "max_value p3 = max_value p" "current_value p \<le> current_value p3"
        "current_value p3 \<le> current_value p + length lg"
        "never_cancels cb \<longrightarrow> current_value p3 = current_value p + length lg"
      by blast
    define s4 where "s4 = (if waterlines pc then pa_call B Finish (pa_call B EndDirection s3) else s3)"
    have p4: "progress s4 = Some p3" using p3 by (simp add: s4_def)
    from Cons.prems(1) d False sl obtain path4 where
      rec: "layers_loop B pc cutter models cb n (Suc i) grid path4 s4 = Inr (path', s')"
      by (cases "waterlines pc") (auto simp: s2_def s4_def split: option.splits)
    from Cons.IH [OF rec p4] b3 show ?thesis by auto
  qed
qed


section \<open>Characteristic equations\<close>

lemma GenerateToolPath_layers:
  "GenerateToolPath B pc cutter models grid cb st =
     (case layers_loop B pc cutter models cb (length grid) 0 grid []
             \<lparr>cb_state = st, progress = Some (ProgressCounter (sum_list (map length grid))),
              pa = contour_new B\<rparr> of
        Inl e \<Rightarrow> Inl e
      | Inr (path, s) \<Rightarrow>
          (if waterlines pc then
             (case waterline_moves B cutter models (contour_paths B (pa s)) of
                Inl e \<Rightarrow> Inl e
              | Inr result \<Rightarrow> Inr (result, s))
           else Inr (path, s)))"
  by (simp add: GenerateToolPath_def Let_def)

lemma make_line_arg_zero_length:
  "make_line_arg B pc cutter models [p, p] =
     Inl (if cutter_radius B cutter = 0 then ZeroDivisionError else ValueError)"
  by (simp add: make_line_arg_def calc_depth_def Let_def)

lemma make_line_arg_ok:
  assumes "p1 \<noteq> p2" "0 < cutter_radius B cutter"
  shows "\<exists>a. make_line_arg B pc cutter models [p1, p2] = Inr a"
proof -
  have "0 < pdist p2 p1" using assms(1) by (simp add: pdist_pos)
  with assms(2) have "0 < accuracy * pdist p2 p1 / cutter_radius B cutter"
    by (simp add: accuracy_def)
  with assms(2) show ?thesis
    by (simp add: make_line_arg_def calc_depth_ok)
qed

lemma GenerateToolPathSlice_zero_length_line:
  "cutter_radius B cutter \<noteq> 0 \<Longrightarrow>
     GenerateToolPathSlice B pc cutter models ([p, p] # lines) cb s = Inl ValueError"
  by (simp add: GenerateToolPathSlice_def make_line_arg_zero_length)

lemma point_pairs_Nil [simp]: "point_pairs [] = []"
  and point_pairs_single [simp]: "point_pairs [x] = []"
  by (simp_all add: point_pairs_def)

lemma point_pairs_Cons_Cons [simp]:
  "point_pairs (x # y # rest) = (x, y) # point_pairs (y # rest)"
proof -
  have "length (x # y # rest) - 1 = Suc (length (y # rest) - 1)" by simp
  then show ?thesis
    by (simp only: point_pairs_def upt_Suc_shift) (simp add: comp_def)
qed

section \<open>Well-formed moves\<close>

lemma slice_loop_wf:
  "slice_loop B pc cb args path s = Inr (path', s') \<Longrightarrow> list_all move_wf path \<Longrightarrow>
     list_all move_wf path'"
proof (induction args arbitrary: path s)
  case Nil
  then show ?case by simp
next
  case (Cons a args)
  then show ?case
    by (auto simp: slice_consume_def Let_def case_prod_beta split: sum.splits if_splits)
qed

lemma waterline_path_moves_wf:
  "waterline_path_moves B cutter models pts = Inr r \<Longrightarrow> list_all move_wf r"
  by (auto simp: waterline_path_moves_def list_all_iff interval_moves_wf split: sum.splits if_splits)

lemma waterline_moves_wf:
  assumes "waterline_moves B cutter models paths = Inr r"
  shows "list_all move_wf r"
proof -
  from assms obtain rs where rs: "map_res (waterline_path_moves B cutter models) paths = Inr rs"
    and r: "r = concat rs"
    by (auto simp: waterline_moves_def split: sum.splits)
  have "list_all move_wf x" if "x \<in> set rs" for x
  proof -
    from map_res_Inr_elem [OF rs that] obtain pts
      where "waterline_path_moves B cutter models pts = Inr x" by blast
    then show ?thesis by (rule waterline_path_moves_wf)
  qed
  with r show ?thesis by (auto simp: list_all_iff)
qed

lemma layers_loop_wf:
  "layers_loop B pc cutter models cb n i grid path s = Inr (path', s') \<Longrightarrow> list_all move_wf path \<Longrightarrow>
     list_all move_wf path'"
proof (induction grid arbitrary: i path s)
  case Nil
  then show ?case by simp
next
  case (Cons lg grid)
  then show ?case
    by (auto simp: GenerateToolPathSlice_def Let_def case_prod_beta dest: slice_loop_wf
        split: sum.splits if_splits option.splits)
qed

section \<open>Concrete runs\<close>

text \<open>
  A back-end whose queries find the whole probe line free, a flat-mode cutter without
  physics, a callback that only counts its calls, and a grid of two layers (two lines,
  then one).
\<close>

definition demo_backend :: "(unit, unit, unit, pa_op list) backend" where
  "demo_backend =
     \<lparr>get_free_paths_ode = (\<lambda>ph p1 p2 depth. Inr [p1, p2]),
      get_free_paths_triangles = (\<lambda>models cutter p1 p2. Inr [p1, p2]),
      cutter_radius = (\<lambda>cutter. 1),
      contour_step = (\<lambda>trace op. trace @ [op]),
      contour_paths = (\<lambda>trace. []),
      contour_new = []\<rparr>"

definition demo_obstacle_backend :: "(nat, unit, unit, pa_op list) backend" where
  "demo_obstacle_backend =
     \<lparr>get_free_paths_ode = (\<lambda>ph p1 p2 depth. Inr [p1, p2]),
      get_free_paths_triangles =
        (\<lambda>models cutter p1 p2. if models = [1] then Inr [p1, p2] else Inl (BackendError 0)),
      cutter_radius = (\<lambda>cutter. 1),
      contour_step = (\<lambda>trace op. trace @ [op]),
      contour_paths = (\<lambda>trace. []),
      contour_new = []\<rparr>"

definition demo_flat :: "unit pushcutter" where
  "demo_flat = \<lparr>physics = None, waterlines = False\<rparr>"

definition demo_counting_cb :: "nat callback option" where
  "demo_counting_cb = Some (\<lambda>n ev. (Suc n, False))"

definition demo_grid :: "point list list list" where
  "demo_grid = [[[(0, 0, 0), (1, 0, 0)], [(0, 1, 0), (1, 1, 0)]], [[(0, 0, -1), (1, 0, -1)]]]"

lemma demo_run_exists:
  "\<exists>moves s. GenerateToolPath demo_backend demo_flat () [()] demo_grid demo_counting_cb 0 = Inr (moves, s)"
  by (simp add: GenerateToolPath_def demo_flat_def demo_counting_cb_def demo_grid_def
      GenerateToolPathSlice_def make_line_arg_def calc_depth_def pdist_def accuracy_def
      process_one_line_def demo_backend_def slice_models_def draw_def call_cb_def
      slice_consume_def slice_increment_def slice_update_def pc_increment_def pc_update_def
      ProgressCounter_def Let_def)

definition demo_grid3 :: "point list list list" where
  "demo_grid3 =
     [[[(0, 0, 0), (1, 0, 0)], [(0, 1, 0), (1, 1, 0)]],
      [[(0, 0, -1), (1, 0, -1)], [(0, 1, -1), (1, 1, -1)]],
      [[(0, 0, -2), (1, 0, -2)], [(0, 1, -2), (1, 1, -2)]]]"

definition demo_cancel_after_first_layer :: "nat callback option" where
  "demo_cancel_after_first_layer =
     Some (\<lambda>n ev. (Suc n, case ev of CbText j _ \<Rightarrow> 1 < j | _ \<Rightarrow> False))"

definition demo_one_shot_cb :: "nat callback option" where
  "demo_one_shot_cb =
     Some (\<lambda>n ev. case ev of CbPercent _ _ \<Rightarrow> (Suc n, n = 0) | _ \<Rightarrow> (n, False))"

definition demo_sticky_cb :: "bool callback option" where
  "demo_sticky_cb =
     Some (\<lambda>requested ev. case ev of CbPercent _ _ \<Rightarrow> (True, True) | _ \<Rightarrow> (requested, requested))"

section \<open>Cancellation\<close>

lemma slice_loop_flat_prefix:
  assumes "\<not> waterlines pc" "map_res (process_one_line B) args = Inr rs"
    and "slice_loop B pc cb args path s = Inr (path', s')"
  shows "\<exists>j. path' = path @ concat (map interval_moves (take j rs))"
  using assms(2,3)
proof (induction args arbitrary: rs path s)
  case Nil
  then have "path' = path @ concat (map interval_moves (take 0 rs))" by simp
  then show ?case by blast
next
  case (Cons a args)
  from Cons.prems(1) obtain points rs' where q: "process_one_line B a = Inr points"
    and rs': "map_res (process_one_line B) args = Inr rs'" and rs: "rs = points # rs'"
    by (auto split: sum.splits)
  obtain path1 s1 where c: "slice_consume B pc cb points path s = (path1, s1)"
    by fastforce
  obtain s2 quit where i: "slice_increment cb s1 = (s2, quit)"
    by fastforce
  from c assms(1) have p1: "path1 = path @ interval_moves points"
    by (metis fst_conv slice_consume_flat)
  show ?case
  proof (cases quit)
    case True
    with Cons.prems(2) q c i p1 rs have "path' = path @ concat (map interval_moves (take 1 rs))"
      by simp
    then show ?thesis by blast
  next
    case False
    with Cons.prems(2) q c i have "slice_loop B pc cb args path1 (slice_update cb s2) = Inr (path', s')"
      by simp
    from Cons.IH [OF rs' this] obtain j where "path' = path1 @ concat (map interval_moves (take j rs'))"
      by blast
    with p1 rs have "path' = path @ concat (map interval_moves (take (Suc j) rs))" by simp
    then show ?thesis by blast
  qed
qed

lemma GenerateToolPathSlice_flat_prefix:
  assumes "\<not> waterlines pc" "layer_free_paths B pc cutter models lg = Inr rs"
    and "GenerateToolPathSlice B pc cutter models lg cb s = Inr (r, s')"
  shows "\<exists>j. r = Some (concat (map interval_moves (take j rs)))"
proof -
  from assms(3) obtain args path where
    args: "map_res (make_line_arg B pc cutter (slice_models pc models)) lg = Inr args"
    and loop: "slice_loop B pc cb args [] s = Inr (path, s')" and r: "r = Some path"
    using assms(1) by (auto simp: GenerateToolPathSlice_def split: sum.splits if_splits)
  from assms(2) args have "map_res (process_one_line B) args = Inr rs"
    by (simp add: layer_free_paths_def)
  from slice_loop_flat_prefix [OF assms(1) this loop] r show ?thesis by simp
qed

lemma layers_loop_flat_prefix:
  assumes "\<not> waterlines pc" "map_res (layer_free_paths B pc cutter models) grid = Inr rss"
    and "layers_loop B pc cutter models cb n i grid path s = Inr (path', s')"
  shows "\<exists>js. length js \<le> length rss \<and>
           path' = path @ concat (map (\<lambda>(rs, j). concat (map interval_moves (take j rs))) (zip rss js))"
  using assms(2,3)
proof (induction grid arbitrary: rss i path s)
  case Nil
  then have "length [] \<le> length rss \<and>
      path' = path @ concat (map (\<lambda>(rs, j). concat (map interval_moves (take j rs))) (zip rss []))"
    by simp
  then show ?case by blast
next
  case (Cons lg grid)
  from Cons.prems(1) obtain rs rss' where lf: "layer_free_paths B pc cutter models lg = Inr rs"
    and rss': "map_res (layer_free_paths B pc cutter models) grid = Inr rss'" and rss: "rss = rs # rss'"
    by (auto split: sum.splits)
  obtain s1 quit where d: "draw cb (CbText (Suc i) n) s = (s1, quit)"
    by fastforce
  show ?case
  proof (cases quit)
    case True
    with Cons.prems(2) d have "path' = path" by simp
    then have "length [] \<le> length rss \<and>
        path' = path @ concat (map (\<lambda>(rs, j). concat (map interval_moves (take j rs))) (zip rss []))"
      by simp
    then show ?thesis by blast
  next
    case False
    from Cons.prems(2) d False assms(1) obtain r s3 where
      sl: "GenerateToolPathSlice B pc cutter models lg cb s1 = Inr (r, s3)"
      by (auto split: sum.splits)
    from GenerateToolPathSlice_flat_prefix [OF assms(1) lf sl] obtain j
      where r: "r = Some (concat (map interval_moves (take j rs)))" by blast
    from Cons.prems(2) d False assms(1) sl r
    have "layers_loop B pc cutter models cb n (Suc i) grid (path @ concat (map interval_moves (take j rs))) s3 =
            Inr (path', s')"
      by simp
    from Cons.IH [OF rss' this] obtain js where "length js \<le> length rss'"
      and "path' = (path @ concat (map interval_moves (take j rs))) @
                concat (map (\<lambda>(rs, j). concat (map interval_moves (take j rs))) (zip rss' js))"
      by blast
    with rss have "length (j # js) \<le> length rss \<and>
        path' = path @ concat (map (\<lambda>(rs, j). concat (map interval_moves (take j rs))) (zip rss (j # js)))"
      by simp
    then show ?thesis by blast
  qed
qed

section \<open>Properties of a generation run\<close>

text \<open>
  C1. Refinement of flat mode: when the callback never cancels, \<^verbatim>\<open>GenerateToolPath\<close>
  returns exactly the abstract toolpath: every line's free intervals, in input order,
  each as cut, cut, retract; and it raises exactly when the abstract computation does,
  with the same exception.
\<close>

theorem GenerateToolPath_flat_refines:
  assumes "\<not> waterlines pc" "never_cancels cb"
  shows "map_sum id fst (GenerateToolPath B pc cutter models grid cb st) =
           flat_toolpath_spec B pc cutter models grid"
proof -
  let ?s0 = "\<lparr>cb_state = st, progress = Some (ProgressCounter (sum_list (map length grid))),
              pa = contour_new B\<rparr>"
  have "map_sum id fst (layers_loop B pc cutter models cb (length grid) 0 grid [] ?s0) =
          flat_toolpath_spec B pc cutter models grid"
    using layers_loop_flat [OF assms, where s = ?s0 and B = B and cutter = cutter and models = models
        and n = "length grid" and i = 0 and grid = grid and path = "[]"]
    by (simp add: flat_toolpath_spec_def)
  with assms(1) show ?thesis
    by (auto simp: GenerateToolPath_def split: sum.splits)
qed

theorem GenerateToolPath_flat_refines_witness:
  "map_sum id fst (GenerateToolPath demo_backend demo_flat () [()] demo_grid demo_counting_cb 0) =
     Inr [(MOVE_STRAIGHT, Some (0, 0, 0)), (MOVE_STRAIGHT, Some (1, 0, 0)), (MOVE_SAFETY, None),
          (MOVE_STRAIGHT, Some (0, 1, 0)), (MOVE_STRAIGHT, Some (1, 1, 0)), (MOVE_SAFETY, None),
          (MOVE_STRAIGHT, Some (0, 0, -1)), (MOVE_STRAIGHT, Some (1, 0, -1)), (MOVE_SAFETY, None)]"
  using GenerateToolPath_flat_refines [of demo_flat demo_counting_cb demo_backend "()" "[()]" demo_grid 0]
  by (simp add: demo_flat_def demo_counting_cb_def never_cancels_def flat_toolpath_spec_def
      layer_free_paths_def demo_grid_def make_line_arg_def calc_depth_def pdist_def accuracy_def
      process_one_line_def demo_backend_def slice_models_def)

text \<open>
  C2. Invariant of the move type: every move of every toolpath a run returns, in flat
  and in waterline mode, is well formed: a straight move carries a point and a safety
  move carries none.
\<close>

theorem GenerateToolPath_moves_wf:
  assumes "GenerateToolPath B pc cutter models grid cb st = Inr (moves, s)"
  shows "list_all move_wf moves"
proof -
  let ?s0 = "\<lparr>cb_state = st, progress = Some (ProgressCounter (sum_list (map length grid))),
              pa = contour_new B\<rparr>"
  from assms obtain path where
    loop: "layers_loop B pc cutter models cb (length grid) 0 grid [] ?s0 = Inr (path, s)"
    by (auto simp: GenerateToolPath_def split: sum.splits if_splits)
  show ?thesis
  proof (cases "waterlines pc")
    case True
    with assms loop have "waterline_moves B cutter models (contour_paths B (pa s)) = Inr moves"
      by (auto simp: GenerateToolPath_def split: sum.splits)
    then show ?thesis by (rule waterline_moves_wf)
  next
    case False
    with assms loop have "moves = path"
      by (simp add: GenerateToolPath_def)
    with layers_loop_wf [OF loop] show ?thesis by simp
  qed
qed

theorem GenerateToolPath_moves_wf_witness:
  "\<exists>moves s. GenerateToolPath demo_backend demo_flat () [()] demo_grid demo_counting_cb 0 = Inr (moves, s)
     \<and> list_all move_wf moves"
proof -
  obtain moves s where r: "GenerateToolPath demo_backend demo_flat () [()] demo_grid demo_counting_cb 0 = Inr (moves, s)"
    using demo_run_exists by blast
  with GenerateToolPath_moves_wf [OF r] show ?thesis by blast
qed

text \<open>
  C3. Progress accounting: whatever the callback answers, a run that returns leaves the
  counter's total at the number of grid lines (one increment per line) and its count at
  most the total; when the callback never cancels, the count reaches the total.
\<close>

theorem GenerateToolPath_progress_complete:
  assumes "GenerateToolPath B pc cutter models grid cb st = Inr (moves, s)"
  shows "\<exists>p. progress s = Some p \<and> max_value p = sum_list (map length grid) \<and>
           current_value p \<le> max_value p \<and> (never_cancels cb \<longrightarrow> current_value p = max_value p)"
proof -
  let ?s0 = "\<lparr>cb_state = st, progress = Some (ProgressCounter (sum_list (map length grid))),
              pa = contour_new B\<rparr>"
  from assms obtain path where
    "layers_loop B pc cutter models cb (length grid) 0 grid [] ?s0 = Inr (path, s)"
    by (auto simp: GenerateToolPath_def split: sum.splits if_splits)
  from layers_loop_progress [OF this, of "ProgressCounter (sum_list (map length grid))"]
  show ?thesis by (auto simp: ProgressCounter_def)
qed

theorem GenerateToolPath_progress_complete_witness:
  "\<exists>moves s p. GenerateToolPath demo_backend demo_flat () [()] demo_grid demo_counting_cb 0 = Inr (moves, s)
     \<and> never_cancels demo_counting_cb \<and> progress s = Some p \<and> current_value p = 3 \<and> max_value p = 3"
proof -
  obtain moves s where r: "GenerateToolPath demo_backend demo_flat () [()] demo_grid demo_counting_cb 0 = Inr (moves, s)"
    using demo_run_exists by blast
  have nc: "never_cancels demo_counting_cb" by (simp add: never_cancels_def demo_counting_cb_def)
  from GenerateToolPath_progress_complete [OF r] show ?thesis
    using r nc by (auto simp: demo_grid_def)
qed

text \<open>
  C10. A zero-length probe line is an error, not an empty result: when the callback does
  not cancel and the cutter's radius is not zero, a grid whose first line is degenerate
  makes the whole run raise \<^verbatim>\<open>ValueError\<close> (\<^verbatim>\<open>math.log(0)\<close> at line 149), in
  either mode.
\<close>

theorem GenerateToolPath_zero_length_line:
  assumes "never_cancels cb" "cutter_radius B cutter \<noteq> 0"
  shows "GenerateToolPath B pc cutter models (([p, p] # lines) # grid) cb st = Inl ValueError"
proof -
  define s0 where "s0 = \<lparr>cb_state = st,
    progress = Some (ProgressCounter (sum_list (map length (([p, p] # lines) # grid)))),
    pa = contour_new B\<rparr>"
  obtain s1 quit where d: "draw cb (CbText 1 (Suc (length grid))) s0 = (s1, quit)"
    by fastforce
  from d assms(1) have q: "quit = False" by (metis draw_never_cancels snd_conv)
  define s2 where "s2 = (if waterlines pc then pa_call B (NewDirection 0) s1 else s1)"
  have "layers_loop B pc cutter models cb (Suc (length grid)) 0 (([p, p] # lines) # grid) [] s0 =
          Inl ValueError"
    using d q GenerateToolPathSlice_zero_length_line [OF assms(2), of pc models p lines cb s2]
    by (simp add: s2_def)
  then show ?thesis
    by (simp add: GenerateToolPath_layers s0_def)
qed
theorem GenerateToolPath_zero_length_line_witness:
  "GenerateToolPath demo_backend demo_flat () [()] [[[(1, 2, 3), (1, 2, 3)]]] demo_counting_cb 0 =
     Inl ValueError"
proof -
  have h1: "never_cancels demo_counting_cb" by (simp add: never_cancels_def demo_counting_cb_def)
  have h2: "cutter_radius demo_backend () \<noteq> 0" by (simp add: demo_backend_def)
  from GenerateToolPath_zero_length_line [OF h1 h2, where pc = demo_flat and models = "[()]"
      and p = "(1, 2, 3)" and lines = "[]" and grid = "[]" and st = 0]
  show ?thesis .
qed

text \<open>
  Without physics, the recursion depth computed for a line does not reach the
  collision query: \<^verbatim>\<open>_process_one_line\<close> passes it to the ODE back-end only.
\<close>

theorem process_one_line_triangles_ignore_depth:
  "la_physics a = None \<Longrightarrow> process_one_line B (a\<lparr>la_depth := depth\<rparr>) = process_one_line B a"
  by (simp add: process_one_line_def)

theorem process_one_line_triangles_ignore_depth_witness:
  "process_one_line demo_backend
     (\<lparr>la_p1 = (0, 0, 0), la_p2 = (1, 0, 0), la_depth = 5, la_models = [()], la_cutter = (),
       la_physics = None\<rparr>\<lparr>la_depth := 20\<rparr>) =
   process_one_line demo_backend
     \<lparr>la_p1 = (0, 0, 0), la_p2 = (1, 0, 0), la_depth = 5, la_models = [()], la_cutter = (),
      la_physics = None\<rparr>"
  by (rule process_one_line_triangles_ignore_depth) simp

text \<open>
  \<^verbatim>\<open>GenerateToolPathSlice\<close> called without a progress counter (its default
  \<^verbatim>\<open>progress_counter=None\<close>) raises \<^verbatim>\<open>AttributeError\<close> for every layer whose lines
  are proper segments, before any query: the guard \<^verbatim>\<open>if progress_counter\<close> at line 173
  is never reached.
\<close>

theorem GenerateToolPathSlice_without_counter:
  assumes "progress s = None" "0 < cutter_radius B cutter"
    and "\<forall>line\<in>set layer_grid. \<exists>p1 p2. line = [p1, p2] \<and> p1 \<noteq> p2"
  shows "GenerateToolPathSlice B pc cutter models layer_grid cb s = Inl AttributeError"
proof -
  have "\<exists>a. make_line_arg B pc cutter (slice_models pc models) line = Inr a"
    if "line \<in> set layer_grid" for line
  proof -
    from assms(3) that obtain p1 p2 where "line = [p1, p2]" "p1 \<noteq> p2" by blast
    with make_line_arg_ok [OF this(2) assms(2)] show ?thesis by simp
  qed
  then have "\<exists>args. map_res (make_line_arg B pc cutter (slice_models pc models)) layer_grid = Inr args"
    by (rule map_res_total)
  then obtain args
    where "map_res (make_line_arg B pc cutter (slice_models pc models)) layer_grid = Inr args"
    by blast
  with assms(1) show ?thesis
    by (simp add: GenerateToolPathSlice_def)
qed


theorem GenerateToolPathSlice_without_counter_witness:
  "GenerateToolPathSlice demo_backend demo_flat () [()] [[(0, 0, 0), (1, 0, 0)]] demo_counting_cb
     \<lparr>cb_state = 0, progress = None, pa = []\<rparr> = Inl AttributeError"
  by (rule GenerateToolPathSlice_without_counter) (simp_all add: demo_backend_def)

text \<open>
  Cancellation at a layer boundary: in flat mode, when the slices never cancel and
  the callback cancels exactly before layer \<open>k + 1\<close>, the run returns the abstract
  toolpath of the first \<open>k\<close> layers (the spec's scenario: three layers of two lines,
  cancel after the first, gives the moves of layer 1 only).
\<close>

lemma GenerateToolPath_cancel_at_layer:
  assumes "\<not> waterlines pc" "quiet_slices cb" "\<And>j n st. snd (call_cb cb (CbText j n) st) = (k < j)"
  shows "map_sum id fst (GenerateToolPath B pc cutter models grid cb st) =
           flat_toolpath_spec B pc cutter models (take k grid)"
proof -
  let ?s0 = "\<lparr>cb_state = st, progress = Some (ProgressCounter (sum_list (map length grid))),
              pa = contour_new B\<rparr>"
  have "map_sum id fst (layers_loop B pc cutter models cb (length grid) 0 grid [] ?s0) =
          flat_toolpath_spec B pc cutter models (take (k - 0) grid)"
    using layers_loop_flat_upto [OF assms(1,2), where s = ?s0 and i = 0 and k = k
        and n = "length grid" and grid = grid and path = "[]"] assms(3)
    by (simp add: flat_toolpath_spec_def)
  with assms(1) show ?thesis
    by (auto simp: GenerateToolPath_layers split: sum.splits)
qed

text \<open>
  C18. Whatever the callback does, a flat-mode run whose queries all succeed returns, for
  each of a prefix of the layers, the moves of a prefix of that layer's lines, in input
  order: nothing is reordered or invented, but a layer can end early.
\<close>

theorem GenerateToolPath_flat_layer_prefixes:
  assumes "\<not> waterlines pc" "map_res (layer_free_paths B pc cutter models) grid = Inr rss"
    and "GenerateToolPath B pc cutter models grid cb st = Inr (moves, s)"
  shows "\<exists>js. length js \<le> length grid \<and>
           moves = concat (map (\<lambda>(rs, j). concat (map interval_moves (take j rs))) (zip rss js))"
proof -
  let ?s0 = "\<lparr>cb_state = st, progress = Some (ProgressCounter (sum_list (map length grid))),
              pa = contour_new B\<rparr>"
  from assms(1,3) have "layers_loop B pc cutter models cb (length grid) 0 grid [] ?s0 = Inr (moves, s)"
    by (auto simp: GenerateToolPath_layers split: sum.splits)
  from layers_loop_flat_prefix [OF assms(1,2) this] map_res_length [OF assms(2)]
  show ?thesis by auto
qed
lemma demo_one_shot_exists:
  "\<exists>moves s. GenerateToolPath demo_backend demo_flat () [()] demo_grid demo_one_shot_cb 0 = Inr (moves, s)"
  by (simp add: demo_one_shot_cb_def GenerateToolPath_def demo_flat_def demo_grid_def
      GenerateToolPathSlice_def make_line_arg_def calc_depth_def pdist_def accuracy_def
      process_one_line_def demo_backend_def slice_models_def draw_def call_cb_def
      slice_consume_def slice_increment_def slice_update_def pc_increment_def pc_update_def
      ProgressCounter_def Let_def)

theorem GenerateToolPath_flat_layer_prefixes_witness:
  "\<exists>moves s js. GenerateToolPath demo_backend demo_flat () [()] demo_grid demo_one_shot_cb 0 = Inr (moves, s)
     \<and> length js \<le> length demo_grid
     \<and> moves = concat (map (\<lambda>(rs, j). concat (map interval_moves (take j rs)))
                  (zip [[[(0, 0, 0), (1, 0, 0)], [(0, 1, 0), (1, 1, 0)]], [[(0, 0, -1), (1, 0, -1)]]] js))"
proof -
  obtain moves s where r: "GenerateToolPath demo_backend demo_flat () [()] demo_grid demo_one_shot_cb 0 = Inr (moves, s)"
    using demo_one_shot_exists by blast
  have nf: "\<not> waterlines demo_flat" by (simp add: demo_flat_def)
  have lf: "map_res (layer_free_paths demo_backend demo_flat () [()]) demo_grid = Inr [[[(0, 0, 0), (1, 0, 0)], [(0, 1, 0), (1, 1, 0)]], [[(0, 0, -1), (1, 0, -1)]]]"
    by (simp add: layer_free_paths_def demo_grid_def make_line_arg_def calc_depth_def pdist_def
        accuracy_def process_one_line_def demo_backend_def slice_models_def demo_flat_def)
  from GenerateToolPath_flat_layer_prefixes [OF nf lf r] r show ?thesis by blast
qed

text \<open>
  A cancel answered by the progress callback skips only the rest of the current
  layer, and the moves already made in it are kept: answered once, the driver goes on
  with the next layer (the second line of layer 1 is skipped, layer 2 is computed); with
  a request that stays set, as a GUI's cancel button does, the run returns the moves of
  the partial first layer.
\<close>

lemma GenerateToolPath_counter_cancel:
  "map_sum id fst (GenerateToolPath demo_backend demo_flat () [()] demo_grid demo_one_shot_cb 0) =
     Inr [(MOVE_STRAIGHT, Some (0, 0, 0)), (MOVE_STRAIGHT, Some (1, 0, 0)), (MOVE_SAFETY, None),
          (MOVE_STRAIGHT, Some (0, 0, -1)), (MOVE_STRAIGHT, Some (1, 0, -1)), (MOVE_SAFETY, None)] \<and>
   map_sum id fst (GenerateToolPath demo_backend demo_flat () [()] demo_grid demo_sticky_cb False) =
     Inr [(MOVE_STRAIGHT, Some (0, 0, 0)), (MOVE_STRAIGHT, Some (1, 0, 0)), (MOVE_SAFETY, None)]"
  by (simp add: GenerateToolPath_def demo_flat_def demo_one_shot_cb_def demo_sticky_cb_def demo_grid_def
      GenerateToolPathSlice_def make_line_arg_def calc_depth_def pdist_def accuracy_def
      process_one_line_def demo_backend_def slice_models_def draw_def call_cb_def
      slice_consume_def slice_increment_def slice_update_def pc_increment_def pc_update_def
      ProgressCounter_def Let_def)

text \<open>
  C17. Cancellation. At a layer boundary: in flat mode, when the slices never cancel and
  the callback cancels exactly before layer \<open>k + 1\<close>, the run returns the abstract
  toolpath of the first \<open>k\<close> layers. From the progress counter: a cancel answered
  once skips only the rest of the current layer and keeps its moves made so far (the
  second line of layer 1 is skipped, layer 2 is computed); a request that stays set, as a
  GUI's cancel button does, returns the moves of the partial first layer.
\<close>

theorem GenerateToolPath_cancellation:
  "(\<not> waterlines pc \<and> quiet_slices cb \<and> (\<forall>j n st'. snd (call_cb cb (CbText j n) st') = (k < j)) \<longrightarrow>
      map_sum id fst (GenerateToolPath B pc cutter models grid cb st) =
        flat_toolpath_spec B pc cutter models (take k grid)) \<and>
   map_sum id fst (GenerateToolPath demo_backend demo_flat () [()] demo_grid demo_one_shot_cb 0) =
     Inr [(MOVE_STRAIGHT, Some (0, 0, 0)), (MOVE_STRAIGHT, Some (1, 0, 0)), (MOVE_SAFETY, None),
          (MOVE_STRAIGHT, Some (0, 0, -1)), (MOVE_STRAIGHT, Some (1, 0, -1)), (MOVE_SAFETY, None)] \<and>
   map_sum id fst (GenerateToolPath demo_backend demo_flat () [()] demo_grid demo_sticky_cb False) =
     Inr [(MOVE_STRAIGHT, Some (0, 0, 0)), (MOVE_STRAIGHT, Some (1, 0, 0)), (MOVE_SAFETY, None)]"
  using GenerateToolPath_cancel_at_layer [of pc cb k B cutter models grid st] GenerateToolPath_counter_cancel
  by blast

theorem GenerateToolPath_cancellation_witness:
  "map_sum id fst (GenerateToolPath demo_backend demo_flat () [()] demo_grid3 demo_cancel_after_first_layer 0) =
     Inr [(MOVE_STRAIGHT, Some (0, 0, 0)), (MOVE_STRAIGHT, Some (1, 0, 0)), (MOVE_SAFETY, None),
          (MOVE_STRAIGHT, Some (0, 1, 0)), (MOVE_STRAIGHT, Some (1, 1, 0)), (MOVE_SAFETY, None)]"
proof -
  have q: "quiet_slices demo_cancel_after_first_layer"
    by (simp add: quiet_slices_def demo_cancel_after_first_layer_def split: cb_event.splits)
  have t: "\<And>j n st. snd (call_cb demo_cancel_after_first_layer (CbText j n) st) = (1 < j)"
    by (simp add: call_cb_def demo_cancel_after_first_layer_def)
  have nf: "\<not> waterlines demo_flat" by (simp add: demo_flat_def)
  from GenerateToolPath_cancellation [of demo_flat demo_cancel_after_first_layer 1 demo_backend "()" "[()]"
      demo_grid3 0] nf q t
  have "map_sum id fst (GenerateToolPath demo_backend demo_flat () [()] demo_grid3 demo_cancel_after_first_layer 0) =
          flat_toolpath_spec demo_backend demo_flat () [()] (take 1 demo_grid3)" by blast
  then show ?thesis
    by (simp add: flat_toolpath_spec_def layer_free_paths_def demo_grid3_def make_line_arg_def
        calc_depth_def pdist_def accuracy_def process_one_line_def demo_backend_def
        slice_models_def demo_flat_def)
qed

end
