(* ===== verification/Waterline.thy ===== *)
theory Waterline
  imports PushCutter
begin

text \<open>
  Waterline mode and the contour path processor. The core reaches the processor
  (\<^verbatim>\<open>self.pa\<close>) only through its operations, and never reads it before the
  post-processing of lines 99--124. So a run with any accumulator is a run with a
  recording accumulator, whose state is the list of calls made, replayed through the
  real one: a simulation between the two instances of the \<open>backend\<close> record. On the
  recording instance the calls form a well-bracketed sequence: the automaton of
  \<open>Contour\<close> accepts it, in flat and in waterline mode, also when the run was cancelled.
\<close>

section \<open>The recording accumulator\<close>

definition replay_ops :: "('m, 'c, 'ph, 'pa) backend \<Rightarrow> pa_op list \<Rightarrow> 'pa" where
  "replay_ops B trace = fold (\<lambda>op a. contour_step B a op) trace (contour_new B)"

definition recording :: "('m, 'c, 'ph, 'pa) backend \<Rightarrow> ('m, 'c, 'ph, pa_op list) backend" where
  "recording B =
     \<lparr>get_free_paths_ode = get_free_paths_ode B,
      get_free_paths_triangles = get_free_paths_triangles B,
      cutter_radius = cutter_radius B,
      contour_step = (\<lambda>trace op. trace @ [op]),
      contour_paths = (\<lambda>trace. contour_paths B (replay_ops B trace)),
      contour_new = []\<rparr>"

definition replay :: "('m, 'c, 'ph, 'pa) backend \<Rightarrow> ('s, pa_op list) run_state \<Rightarrow> ('s, 'pa) run_state" where
  "replay B s = \<lparr>cb_state = cb_state s, progress = progress s, pa = replay_ops B (pa s)\<rparr>"

section \<open>The simulation, one operation at a time\<close>

lemma recording_simps [simp]:
  "get_free_paths_ode (recording B) = get_free_paths_ode B"
  "get_free_paths_triangles (recording B) = get_free_paths_triangles B"
  "cutter_radius (recording B) = cutter_radius B"
  "contour_new (recording B) = []"
  by (simp_all add: recording_def)

lemma contour_paths_recording [simp]:
  "contour_paths (recording B) trace = contour_paths B (replay_ops B trace)"
  by (simp add: recording_def)

lemma replay_ops_Nil [simp]: "replay_ops B [] = contour_new B"
  by (simp add: replay_ops_def)

lemma replay_ops_snoc [simp]:
  "replay_ops B (trace @ [op]) = contour_step B (replay_ops B trace) op"
  by (simp add: replay_ops_def)

lemma replay_fields [simp]:
  "cb_state (replay B s) = cb_state s"
  "progress (replay B s) = progress s"
  "pa (replay B s) = replay_ops B (pa s)"
  by (simp_all add: replay_def)

lemma replay_draw:
  "draw cb ev (replay B s) = apfst (replay B) (draw cb ev s)"
  by (simp add: draw_def replay_def case_prod_beta)

lemma replay_pa_call:
  "pa_call B op (replay B s) = replay B (pa_call (recording B) op s)"
  by (simp add: pa_call_def replay_def recording_def)

lemma replay_fold_append:
  "fold (\<lambda>p. pa_call B (Append p)) ps (replay B s) =
     replay B (fold (\<lambda>p. pa_call (recording B) (Append p)) ps s)"
  by (induction ps arbitrary: s) (simp_all add: replay_pa_call)

lemma replay_slice_consume:
  "slice_consume B pc cb points path (replay B s) =
     apsnd (replay B) (slice_consume (recording B) pc cb points path s)"
  by (simp add: slice_consume_def Let_def replay_pa_call replay_fold_append replay_draw)

lemma replay_slice_increment:
  "slice_increment cb (replay B s) = apfst (replay B) (slice_increment cb s)"
  by (simp add: slice_increment_def replay_def case_prod_beta split: option.splits)

lemma replay_slice_update:
  "slice_update cb (replay B s) = replay B (slice_update cb s)"
  by (simp add: slice_update_def replay_def split: option.splits)

lemma process_one_line_recording [simp]: "process_one_line (recording B) = process_one_line B"
  unfolding process_one_line_def recording_simps ..

lemma make_line_arg_recording [simp]: "make_line_arg (recording B) = make_line_arg B"
  unfolding make_line_arg_def recording_simps ..

lemma waterline_moves_recording [simp]: "waterline_moves (recording B) = waterline_moves B"
  unfolding waterline_moves_def waterline_path_moves_def recording_simps ..

lemma replay_slice_loop:
  "slice_loop B pc cb args path (replay B s) =
     map_sum id (apsnd (replay B)) (slice_loop (recording B) pc cb args path s)"
proof (induction args arbitrary: path s)
  case Nil
  then show ?case by simp
next
  case (Cons a args)
  show ?case
  proof (cases "process_one_line B a")
    case (Inl e)
    then show ?thesis by simp
  next
    case (Inr points)
    obtain path1 s1 where c: "slice_consume (recording B) pc cb points path s = (path1, s1)"
      by fastforce
    obtain s2 q where i: "slice_increment cb s1 = (s2, q)"
      by fastforce
    from Inr c i Cons.IH [of path1 "slice_update cb s2"] show ?thesis
      by (simp add: replay_slice_consume replay_slice_increment replay_slice_update)
  qed
qed

lemma replay_GenerateToolPathSlice:
  "GenerateToolPathSlice B pc cutter models lg cb (replay B s) =
     map_sum id (apsnd (replay B)) (GenerateToolPathSlice (recording B) pc cutter models lg cb s)"
proof (cases "map_res (make_line_arg B pc cutter (slice_models pc models)) lg")
  case (Inl e)
  then show ?thesis by (simp add: GenerateToolPathSlice_def)
next
  case (Inr args)
  then show ?thesis
    by (cases "slice_loop (recording B) pc cb args [] s")
      (auto simp: GenerateToolPathSlice_def replay_slice_loop)
qed

lemma replay_layers_loop:
  "layers_loop B pc cutter models cb n i grid path (replay B s) =
     map_sum id (apsnd (replay B)) (layers_loop (recording B) pc cutter models cb n i grid path s)"
proof (induction grid arbitrary: i path s)
  case Nil
  then show ?case by simp
next
  case (Cons lg grid)
  obtain s1 quit where d: "draw cb (CbText (Suc i) n) s = (s1, quit)"
    by fastforce
  show ?case
  proof (cases quit)
    case True
    with d show ?thesis by (simp add: replay_draw)
  next
    case nq: False
    show ?thesis
    proof (cases "waterlines pc")
      case True
      define s2 where "s2 = pa_call (recording B) (NewDirection 0) s1"
      have r2: "pa_call B (NewDirection 0) (replay B s1) = replay B s2"
        by (simp add: s2_def replay_pa_call)
      show ?thesis
      proof (cases "GenerateToolPathSlice (recording B) pc cutter models lg cb s2")
        case (Inl e)
        with d nq True r2 show ?thesis
          by (simp add: replay_draw replay_GenerateToolPathSlice flip: s2_def)
      next
        case (Inr rs3)
        obtain r s3 where rs3: "rs3 = (r, s3)" by fastforce
        from d nq True r2 Inr rs3
          Cons.IH [of "Suc i" path "pa_call (recording B) Finish (pa_call (recording B) EndDirection s3)"]
        show ?thesis
          by (simp add: replay_draw replay_GenerateToolPathSlice replay_pa_call flip: s2_def)
      qed
    next
      case False
      show ?thesis
      proof (cases "GenerateToolPathSlice (recording B) pc cutter models lg cb s1")
        case (Inl e)
        with d nq False show ?thesis by (simp add: replay_draw replay_GenerateToolPathSlice)
      next
        case (Inr rs3)
        obtain r s3 where rs3: "rs3 = (r, s3)" by fastforce
        with d nq False Inr show ?thesis
          by (cases r) (simp_all add: replay_draw replay_GenerateToolPathSlice Cons.IH)
      qed
    qed
  qed
qed

section \<open>Well-bracketed calls\<close>

lemma pa_pa_call_recording [simp]: "pa (pa_call (recording B) op s) = pa s @ [op]"
  by (simp add: pa_call_def recording_def)

lemma pa_fold_append_recording:
  "pa (fold (\<lambda>p. pa_call (recording B) (Append p)) ps s) = pa s @ map Append ps"
  by (induction ps arbitrary: s) simp_all

lemma pa_slice_consume_recording:
  "pa (snd (slice_consume (recording B) pc cb points path s)) =
     (if points = [] \<or> \<not> waterlines pc then pa s else pa s @ scanline_ops points)"
  by (simp add: slice_consume_def Let_def pa_fold_append_recording scanline_ops_def)

lemma pa_slice_increment [simp]: "pa (fst (slice_increment cb s)) = pa s"
  by (simp add: slice_increment_def case_prod_beta split: option.splits)

lemma pa_slice_update [simp]: "pa (slice_update cb s) = pa s"
  by (simp add: slice_update_def split: option.splits)

text \<open>Inside a direction every slice keeps the protocol in the direction state.\<close>

lemma slice_loop_protocol:
  assumes "slice_loop (recording B) pc cb args path s = Inr (path', s')"
    and "pa_run PaIdle (pa s) = Some q" "waterlines pc \<longrightarrow> q = PaDirection"
  shows "pa_run PaIdle (pa s') = Some q"
  using assms
proof (induction args arbitrary: path s)
  case Nil
  then show ?case by simp
next
  case (Cons a args)
  obtain points where qr: "process_one_line B a = Inr points"
    using Cons.prems(1) by (cases "process_one_line B a") simp_all
  obtain path1 s1 where c: "slice_consume (recording B) pc cb points path s = (path1, s1)"
    by fastforce
  obtain s2 quit where i: "slice_increment cb s1 = (s2, quit)"
    by fastforce
  have p1: "pa_run PaIdle (pa s1) = Some q"
    using pa_slice_consume_recording [of B pc cb points path s] c Cons.prems(2,3)
    by (auto split: if_splits)
  have p2: "pa_run PaIdle (pa s2) = Some q"
    using p1 i pa_slice_increment [of cb s1] by simp
  show ?case
  proof (cases quit)
    case True
    with Cons.prems(1) qr c i p2 show ?thesis by simp
  next
    case False
    with Cons.prems(1) qr c i
    have "slice_loop (recording B) pc cb args path1 (slice_update cb s2) = Inr (path', s')"
      by simp
    from Cons.IH [OF this _ Cons.prems(3)] p2 show ?thesis by simp
  qed
qed

lemma layers_loop_protocol:
  assumes "layers_loop (recording B) pc cutter models cb n i grid path s = Inr (path', s')"
    and "pa_run PaIdle (pa s) = Some PaIdle"
  shows "pa_run PaIdle (pa s') = Some PaIdle"
  using assms
proof (induction grid arbitrary: i path s)
  case Nil
  then show ?case by simp
next
  case (Cons lg grid)
  obtain s1 quit where d: "draw cb (CbText (Suc i) n) s = (s1, quit)"
    by fastforce
  from d Cons.prems(2) have p1: "pa_run PaIdle (pa s1) = Some PaIdle"
    by (metis fst_conv pa_draw)
  show ?case
  proof (cases quit)
    case True
    with Cons.prems(1) d p1 show ?thesis by simp
  next
    case False
    define s2 where "s2 = (if waterlines pc then pa_call (recording B) (NewDirection 0) s1 else s1)"
    define q where "q = (if waterlines pc then PaDirection else PaIdle)"
    have p2: "pa_run PaIdle (pa s2) = Some q"
      using p1 by (simp add: s2_def q_def)
    from Cons.prems(1) d False obtain r s3 where
      sl: "GenerateToolPathSlice (recording B) pc cutter models lg cb s2 = Inr (r, s3)"
      by (auto simp: s2_def split: sum.splits)
    then obtain args path3 where
      "slice_loop (recording B) pc cb args [] s2 = Inr (path3, s3)"
      by (auto simp: GenerateToolPathSlice_def split: sum.splits if_splits)
    from slice_loop_protocol [OF this p2] have p3: "pa_run PaIdle (pa s3) = Some q"
      by (simp add: q_def)
    define s4 where "s4 = (if waterlines pc then pa_call (recording B) Finish (pa_call (recording B) EndDirection s3) else s3)"
    have p4: "pa_run PaIdle (pa s4) = Some PaIdle"
      using p3 by (simp add: s4_def q_def)
    from Cons.prems(1) d False sl obtain path4 where
      rec: "layers_loop (recording B) pc cutter models cb n (Suc i) grid path4 s4 = Inr (path', s')"
      by (cases "waterlines pc") (auto simp: s2_def s4_def split: option.splits)
    from Cons.IH [OF rec p4] show ?thesis .
  qed
qed


section \<open>A concrete waterline run\<close>

definition demo_waterline :: "unit pushcutter" where
  "demo_waterline = \<lparr>physics = None, waterlines = True\<rparr>"

lemma demo_waterline_run_exists:
  "\<exists>moves s. GenerateToolPath (recording demo_backend) demo_waterline () [()] demo_grid demo_counting_cb 0 =
     Inr (moves, s)"
  by (simp add: GenerateToolPath_def demo_waterline_def demo_counting_cb_def demo_grid_def
      GenerateToolPathSlice_def make_line_arg_def calc_depth_def pdist_def accuracy_def
      process_one_line_def demo_backend_def slice_models_def draw_def call_cb_def
      slice_consume_def slice_increment_def slice_update_def pc_increment_def pc_update_def
      ProgressCounter_def Let_def waterline_moves_def recording_def pa_call_def)

section \<open>Properties of waterline mode\<close>




end
