(* ===== verification/PluginManager.thy ===== *)
theory PluginManager
  imports Prelude "HOL-Library.Multiset" "HOL-Library.List_Lexorder" "HOL-Library.Char_ord"
begin

text \<open>
  \<^verbatim>\<open>PluginManager\<close> of \<^verbatim>\<open>src/pycam/Plugins/__init__.py\<close> (lines 258--422). A
  plugin class is known by its \<^verbatim>\<open>DEPENDS\<close> list and by what its \<^verbatim>\<open>setup\<close> and
  \<^verbatim>\<open>teardown\<close> methods do (return a truthy or falsy value, or raise
  \<^verbatim>\<open>NotImplementedError\<close>, the default of \<^verbatim>\<open>PluginBase\<close>). The manager's state is the
  dictionary \<^verbatim>\<open>self.modules\<close>, an association list with distinct keys, and the trace of
  the calls it makes on plugins and on the core. Here \<^verbatim>\<open>import_plugins\<close> starts
  from the list of candidate classes the directory scan produces (line 294); the scan
  itself is in \<open>PluginImport\<close>.
\<close>

section \<open>Plugins and the manager state\<close>

datatype setup_outcome = SetupTruthy | SetupFalsy | SetupNotImplemented

record plugin_class =
  DEPENDS :: "string list"
  setup_does :: setup_outcome
  teardown_implemented :: bool

text \<open>A plugin instance: \<^verbatim>\<open>PluginBase.__init__\<close> sets \<^verbatim>\<open>name\<close> and \<^verbatim>\<open>enabled = True\<close>;
  \<^verbatim>\<open>dep_order\<close> is an attribute the manager adds later (\<open>None\<close>: not set yet).\<close>

record plugin =
  cls :: plugin_class
  name :: string
  enabled :: bool
  dep_order :: "nat option"

datatype plugin_call = CallSetup string | CallTeardown string | EmitEvent string

record plugin_manager =
  modules :: "(string \<times> plugin) list"
  calls :: "plugin_call list"

text \<open>\<^verbatim>\<open>(plugin, filename, name)\<close>, as appended at line 294.\<close>

type_synonym candidate = "plugin_class \<times> string \<times> string"

definition PluginManager :: plugin_manager where
  "PluginManager = \<lparr>modules = [], calls = []\<rparr>"

text \<open>\<^verbatim>\<open>key in self.modules\<close>, and the long name \<^verbatim>\<open>"%s.%s" % (name, name)\<close>.\<close>

definition has_key :: "(string \<times> 'v) list \<Rightarrow> string \<Rightarrow> bool" where
  "has_key ms k = (k \<in> set (map fst ms))"

definition long_name :: "string \<Rightarrow> string" where
  "long_name n = n @ ''.'' @ n"

definition log_call :: "plugin_call \<Rightarrow> plugin_manager \<Rightarrow> plugin_manager" where
  "log_call c m = m\<lparr>calls := calls m @ [c]\<rparr>"

section \<open>Loading\<close>

text \<open>\<^verbatim>\<open>_load_plugin\<close> (lines 344--358): an already loaded plugin of that name is torn
  down first (outside the \<^verbatim>\<open>try\<close>, so its \<^verbatim>\<open>NotImplementedError\<close> propagates); the new
  plugin is kept only when \<^verbatim>\<open>setup()\<close> returns a truthy value.\<close>

definition load_plugin ::
  "plugin_class \<Rightarrow> string \<Rightarrow> string \<Rightarrow> plugin_manager \<Rightarrow> plugin_manager result" where
  "load_plugin obj filename plugin_name m =
     (let torn = (case map_of (modules m) plugin_name of
                    None \<Rightarrow> Inr m
                  | Some old \<Rightarrow>
                      if teardown_implemented (cls old)
                      then Inr (log_call (CallTeardown plugin_name) m)
                      else Inl NotImplementedError)
      in case torn of
           Inl e \<Rightarrow> Inl e
         | Inr m1 \<Rightarrow>
             let new_plugin = \<lparr>cls = obj, name = plugin_name, enabled = True, dep_order = None\<rparr>;
                 m2 = log_call (CallSetup plugin_name) m1
             in (case setup_does obj of
                   SetupTruthy \<Rightarrow>
                     Inr (log_call (EmitEvent ''plugin-list-changed'')
                            (m2\<lparr>modules := AList.update plugin_name new_plugin (modules m2)\<rparr>))
                 | _ \<Rightarrow> Inr m2))"

text \<open>The \<^verbatim>\<open>for dep in plugin.DEPENDS ... else\<close> test of lines 301--307.\<close>

definition deps_loaded :: "(string \<times> plugin) list \<Rightarrow> string list \<Rightarrow> bool" where
  "deps_loaded ms deps = list_all (\<lambda>dep. has_key ms dep \<or> has_key ms (long_name dep)) deps"

text \<open>Lines 309--312: a plugin that is in \<^verbatim>\<open>self.modules\<close> after the load gets the next
  dependency order.\<close>

definition record_dep_order :: "string \<Rightarrow> plugin_manager \<times> nat \<Rightarrow> plugin_manager \<times> nat" where
  "record_dep_order nm md =
     (let (m, d) = md in
      if has_key (modules m) nm
      then (m\<lparr>modules := AList.map_entry nm (\<lambda>p. p\<lparr>dep_order := Some d\<rparr>) (modules m)\<rparr>, Suc d)
      else (m, d))"

text \<open>One pass of the \<^verbatim>\<open>while try_again\<close> loop (lines 298--314): the manager, the next
  dependency order, the postponed candidates and \<^verbatim>\<open>try_again\<close>.\<close>

fun import_pass ::
  "plugin_manager \<Rightarrow> nat \<Rightarrow> candidate list \<Rightarrow>
   (plugin_manager \<times> nat \<times> candidate list \<times> bool) result" where
  "import_pass m d [] = Inr (m, d, [], False)"
| "import_pass m d ((plugin, filename, nm) # ps) =
     (if deps_loaded (modules m) (DEPENDS plugin) then
        (case load_plugin plugin filename nm m of
           Inl e \<Rightarrow> Inl e
         | Inr m1 \<Rightarrow>
             (let (m2, d2) = record_dep_order nm (m1, d) in
              case import_pass m2 d2 ps of
                Inl e \<Rightarrow> Inl e
              | Inr (m3, d3, post, _) \<Rightarrow> Inr (m3, d3, post, True)))
      else
        (case import_pass m d ps of
           Inl e \<Rightarrow> Inl e
         | Inr (m3, d3, post, again) \<Rightarrow> Inr (m3, d3, (plugin, filename, nm) # post, again)))"

lemma import_pass_postponed:
  "import_pass m d ps = Inr (m', d', post, again) \<Longrightarrow>
     length post + (if again then 1 else 0) \<le> length ps"
proof (induction m d ps arbitrary: m' d' post again rule: import_pass.induct)
  case (2 m d plugin filename nm ps)
  show ?case
  proof (cases "deps_loaded (modules m) (DEPENDS plugin)")
    case True
    then obtain m1 m2 d2 x where
      l: "load_plugin plugin filename nm m = Inr m1" and r: "record_dep_order nm (m1, d) = (m2, d2)"
      and p: "import_pass m2 d2 ps = Inr (m', d', post, x)" and "again"
      using "2.prems" by (auto split: sum.splits prod.splits)
    with "2.IH"(1) [OF True l r [symmetric] refl p] show ?thesis by simp
  next
    case False
    then obtain post' where
      p: "import_pass m d ps = Inr (m', d', post', again)" and "post = (plugin, filename, nm) # post'"
      using "2.prems" by (auto split: sum.splits prod.splits)
    with "2.IH"(2) [OF False p] show ?thesis by simp
  qed
qed simp

function import_loop ::
  "plugin_manager \<Rightarrow> nat \<Rightarrow> candidate list \<Rightarrow> (plugin_manager \<times> candidate list) result" where
  "import_loop m d ps =
     (case import_pass m d ps of
        Inl e \<Rightarrow> Inl e
      | Inr (m', d', post, again) \<Rightarrow> if again then import_loop m' d' post else Inr (m', post))"
  by pat_completeness auto

termination
proof (relation "measure (\<lambda>(m, d, ps). length ps)")
  fix m d ps x m' y d' z post again
  assume "import_pass m d ps = Inr x" "(m', y) = x" "(d', z) = y" "(post, again) = z" "again"
  then have "import_pass m d ps = Inr (m', d', post, True)" by simp
  from import_pass_postponed [OF this] show "((m', d', post), m, d, ps) \<in> measure (\<lambda>(m, d, ps). length ps)"
    by simp
qed simp

declare import_loop.simps [simp del]

section \<open>Lookup and queries\<close>

text \<open>\<^verbatim>\<open>get_plugin\<close> (lines 360--367): the plain name first, then the long name.\<close>

definition get_plugin :: "plugin_manager \<Rightarrow> string \<Rightarrow> plugin result" where
  "get_plugin m n =
     (if has_key (modules m) n then Inr (the (map_of (modules m) n))
      else if has_key (modules m) (long_name n) then Inr (the (map_of (modules m) (long_name n)))
      else Inl KeyError)"

text \<open>\<^verbatim>\<open>import_plugins\<close> (lines 295--325) from the candidate list: the retry loop, then
  for every skipped plugin the dependencies \<^verbatim>\<open>get_plugin\<close> does not find (the log of
  line 324).\<close>

definition import_plugins ::
  "candidate list \<Rightarrow> plugin_manager \<Rightarrow> (plugin_manager \<times> (string \<times> string list) list) result" where
  "import_plugins plugins m0 =
     (case import_loop m0 0 plugins of
        Inl e \<Rightarrow> Inl e
      | Inr (m, skipped) \<Rightarrow>
          Inr (m, map (\<lambda>(plugin, filename, nm).
                         (nm, filter (\<lambda>depend. isl (get_plugin m depend)) (DEPENDS plugin)))
                      skipped))"

text \<open>In-place mutation of the object \<^verbatim>\<open>get_plugin\<close> returns.\<close>

definition update_plugin ::
  "string \<Rightarrow> (plugin \<Rightarrow> plugin) \<Rightarrow> plugin_manager \<Rightarrow> plugin_manager" where
  "update_plugin n f m =
     (if has_key (modules m) n then m\<lparr>modules := AList.map_entry n f (modules m)\<rparr>
      else if has_key (modules m) (long_name n)
      then m\<lparr>modules := AList.map_entry (long_name n) f (modules m)\<rparr>
      else m)"

text \<open>\<^verbatim>\<open>enable_plugin\<close> and \<^verbatim>\<open>disable_plugin\<close> (lines 369--384). Both refuse through
  \<^verbatim>\<open>self.log.debug(...)\<close>, but \<^verbatim>\<open>PluginManager\<close> has no attribute \<^verbatim>\<open>log\<close>
  (\<^verbatim>\<open>__init__\<close>, lines 260--263, sets only \<^verbatim>\<open>core\<close> and \<^verbatim>\<open>modules\<close>), so a refusal is
  an \<^verbatim>\<open>AttributeError\<close>. Enabling stores the truth value \<^verbatim>\<open>setup()\<close> returns.\<close>

definition enable_plugin :: "plugin_manager \<Rightarrow> string \<Rightarrow> plugin_manager result" where
  "enable_plugin m n =
     (case get_plugin m n of
        Inl e \<Rightarrow> Inl e
      | Inr plugin \<Rightarrow>
          if enabled plugin then Inl AttributeError
          else
            let m1 = log_call (CallSetup (name plugin)) m in
            (case setup_does (cls plugin) of
               SetupNotImplemented \<Rightarrow> Inl NotImplementedError
             | SetupTruthy \<Rightarrow> Inr (update_plugin n (\<lambda>p. p\<lparr>enabled := True\<rparr>) m1)
             | SetupFalsy \<Rightarrow> Inr (update_plugin n (\<lambda>p. p\<lparr>enabled := False\<rparr>) m1)))"

definition disable_plugin :: "plugin_manager \<Rightarrow> string \<Rightarrow> plugin_manager result" where
  "disable_plugin m n =
     (case get_plugin m n of
        Inl e \<Rightarrow> Inl e
      | Inr plugin \<Rightarrow>
          if \<not> enabled plugin then Inl AttributeError
          else if \<not> teardown_implemented (cls plugin) then Inl NotImplementedError
          else Inr (update_plugin n (\<lambda>p. p\<lparr>enabled := False\<rparr>)
                      (log_call (CallTeardown (name plugin)) m)))"

definition get_plugin_state :: "plugin_manager \<Rightarrow> string \<Rightarrow> bool result" where
  "get_plugin_state m n = map_sum id enabled (get_plugin m n)"

text \<open>\<^verbatim>\<open>get_plugins\<close> and \<^verbatim>\<open>get_plugin_names\<close> (lines 390--396). A Python 2 dict
  has no order; the model lists the values in the order of the association list.\<close>

definition get_plugins :: "plugin_manager \<Rightarrow> plugin list" where
  "get_plugins m = map snd (modules m)"

definition get_plugin_names :: "plugin_manager \<Rightarrow> string list" where
  "get_plugin_names m = sort (map fst (modules m))"

text \<open>\<^verbatim>\<open>is_plugin_required\<close> (lines 398--408); note the trailing dot of the long name
  at line 399.\<close>

definition is_plugin_required :: "plugin_manager \<Rightarrow> string \<Rightarrow> bool" where
  "is_plugin_required m n =
     (let long = n @ ''.'' @ n @ ''.'' in
      list_ex (\<lambda>plugin. enabled plugin \<and>
                         (n \<in> set (DEPENDS (cls plugin)) \<or> long \<in> set (DEPENDS (cls plugin))))
              (map snd (modules m)))"

text \<open>\<^verbatim>\<open>get_plugin_missing_dependencies\<close> (lines 410--422).\<close>

definition dep_available :: "(string \<times> plugin) list \<Rightarrow> string \<Rightarrow> bool" where
  "dep_available ms depend =
     ((has_key ms depend \<and> enabled (the (map_of ms depend))) \<or>
      (has_key ms (long_name depend) \<and> enabled (the (map_of ms (long_name depend)))))"

definition get_plugin_missing_dependencies :: "plugin_manager \<Rightarrow> string \<Rightarrow> string list result" where
  "get_plugin_missing_dependencies m n =
     (case get_plugin m n of
        Inl e \<Rightarrow> Inl e
      | Inr plugin \<Rightarrow> Inr (filter (\<lambda>depend. \<not> dep_available (modules m) depend) (DEPENDS (cls plugin))))"

text \<open>\<^verbatim>\<open>get_plugins_sorted\<close> (lines 327--341). \<^verbatim>\<open>list.sort\<close> is stable, like
  \<open>sort_key\<close>; it reads \<^verbatim>\<open>x.dep_order\<close> of every element as soon as there are two,
  so a plugin without the attribute raises \<^verbatim>\<open>AttributeError\<close> then.\<close>

definition get_plugins_sorted :: "plugin_manager \<Rightarrow> string list option \<Rightarrow> plugin list result" where
  "get_plugins_sorted m plist =
     (let plugins = (case plist of
                       None \<Rightarrow> get_plugins m
                     | Some names \<Rightarrow> [the (map_of (modules m) p). p \<leftarrow> names, has_key (modules m) p])
      in if length plugins < 2 then Inr plugins
         else if list_all (\<lambda>p. dep_order p \<noteq> None) plugins
         then Inr (sort_key (\<lambda>p. the (dep_order p)) plugins)
         else Inl AttributeError)"

section \<open>The import invariant\<close>

text \<open>A plugin of order \<open>k\<close> finds each dependency, under its plain or its long name, in a
  plugin of a smaller order; all orders are below the next one to hand out.\<close>

definition earlier :: "(string \<times> plugin) list \<Rightarrow> nat \<Rightarrow> string \<Rightarrow> bool" where
  "earlier ms k key =
     (case map_of ms key of
        None \<Rightarrow> False
      | Some q \<Rightarrow> (case dep_order q of None \<Rightarrow> False | Some j \<Rightarrow> j < k))"

definition dep_ordered :: "(string \<times> plugin) list \<Rightarrow> nat \<Rightarrow> bool" where
  "dep_ordered ms d =
     list_all (\<lambda>(n, p). case dep_order p of
                          None \<Rightarrow> False
                        | Some k \<Rightarrow> k < d \<and>
                            list_all (\<lambda>dep. earlier ms k dep \<or> earlier ms k (long_name dep))
                              (DEPENDS (cls p))) ms"

definition mgr_ok :: "(string \<times> plugin) list \<Rightarrow> nat \<Rightarrow> bool" where
  "mgr_ok ms d =
     (distinct (map fst ms) \<and> dep_ordered ms d \<and> list_all (\<lambda>(n, p). enabled p \<and> name p = n) ms)"

lemma earlier_append:
  "earlier ms k key \<Longrightarrow> earlier (ms @ bs) k key"
  by (cases "map_of ms key") (auto simp: earlier_def map_of_append_old map_of_eq_None_iff)

lemma earlier_loaded:
  assumes "dep_ordered ms d" "has_key ms key"
  shows "earlier ms d key"
proof -
  obtain p where p: "map_of ms key = Some p"
    using assms(2) by (auto simp: has_key_def dest: weak_map_of_SomeI)
  then have "(key, p) \<in> set ms" by (rule map_of_SomeD)
  with assms(1) show ?thesis
    by (auto simp: earlier_def dep_ordered_def list_all_iff p split: option.splits)
qed

lemma mgr_ok_step:
  assumes ok: "mgr_ok ms d" and fresh: "nm \<notin> set (map fst ms)"
    and deps: "deps_loaded ms (DEPENDS obj)"
  shows "mgr_ok (ms @ [(nm, \<lparr>cls = obj, name = nm, enabled = True, dep_order = Some d\<rparr>)]) (Suc d)"
proof -
  let ?p = "\<lparr>cls = obj, name = nm, enabled = True, dep_order = Some d\<rparr>"
  have do: "dep_ordered ms d" using ok by (simp add: mgr_ok_def)
  have new: "earlier (ms @ [(nm, ?p)]) d dep \<or> earlier (ms @ [(nm, ?p)]) d (long_name dep)"
    if "dep \<in> set (DEPENDS obj)" for dep
  proof -
    have "has_key ms dep \<or> has_key ms (long_name dep)"
      using deps that by (simp add: deps_loaded_def list_all_iff)
    then show ?thesis
      using earlier_loaded [OF do] earlier_append by blast
  qed
  have old: "list_all (\<lambda>(n, p). case dep_order p of None \<Rightarrow> False | Some k \<Rightarrow> k < Suc d \<and>
        list_all (\<lambda>dep. earlier (ms @ [(nm, ?p)]) k dep \<or> earlier (ms @ [(nm, ?p)]) k (long_name dep))
          (DEPENDS (cls p))) ms"
    using do by (fastforce simp: dep_ordered_def list_all_iff earlier_append split: option.splits)
  have "dep_ordered (ms @ [(nm, ?p)]) (Suc d)"
    using old new by (simp add: dep_ordered_def list_all_iff)
  with ok fresh show ?thesis by (simp add: mgr_ok_def)
qed

text \<open>Candidates whose names are distinct and not loaded yet.\<close>

definition fresh_candidates :: "(string \<times> plugin) list \<Rightarrow> candidate list \<Rightarrow> bool" where
  "fresh_candidates ms ps =
     (distinct (map (\<lambda>(c, f, n). n) ps) \<and> list_all (\<lambda>(c, f, n). \<not> has_key ms n) ps)"

lemma load_plugin_fresh:
  assumes "\<not> has_key (modules m) nm"
  shows "\<exists>m1. load_plugin obj fn nm m = Inr m1 \<and>
           modules m1 = (if setup_does obj = SetupTruthy
                         then modules m @ [(nm, \<lparr>cls = obj, name = nm, enabled = True, dep_order = None\<rparr>)]
                         else modules m)"
proof -
  have "map_of (modules m) nm = None" and "nm \<notin> set (map fst (modules m))"
    using assms by (auto simp: has_key_def map_of_eq_None_iff)
  then show ?thesis
    by (cases "setup_does obj") (simp_all add: load_plugin_def log_call_def update_new_key)
qed

lemma record_dep_order_fresh:
  assumes "\<not> has_key ms nm"
    and "modules m1 = (if t then ms @ [(nm, \<lparr>cls = obj, name = nm, enabled = True, dep_order = None\<rparr>)] else ms)"
    and "record_dep_order nm (m1, d) = (m2, d2)"
  shows "modules m2 = (if t then ms @ [(nm, \<lparr>cls = obj, name = nm, enabled = True, dep_order = Some d\<rparr>)] else ms)
         \<and> d2 = (if t then Suc d else d)"
  using assms
  by (cases t) (auto simp: record_dep_order_def has_key_def map_entry_new_key)

lemma import_pass_ok:
  "mgr_ok (modules m) d \<Longrightarrow> fresh_candidates (modules m) ps \<Longrightarrow>
   \<exists>m' d' post again. import_pass m d ps = Inr (m', d', post, again) \<and>
     mgr_ok (modules m') d' \<and> fresh_candidates (modules m') post \<and> set post \<subseteq> set ps \<and>
     set (map fst (modules m')) \<subseteq> set (map fst (modules m)) \<union> (\<lambda>(c, f, n). n) ` set ps"
proof (induction m d ps rule: import_pass.induct)
  case (1 m d)
  then show ?case by (auto simp: fresh_candidates_def)
next
  case (2 m d plugin filename nm ps)
  have fresh: "\<not> has_key (modules m) nm" and fps: "fresh_candidates (modules m) ps"
    and nm_ps: "\<forall>(c, f, n) \<in> set ps. n \<noteq> nm"
    using "2.prems"(2) by (auto simp: fresh_candidates_def) (force intro: rev_image_eqI)
  show ?case
  proof (cases "deps_loaded (modules m) (DEPENDS plugin)")
    case True
    obtain m1 where l: "load_plugin plugin filename nm m = Inr m1" and
      m1: "modules m1 = (if setup_does plugin = SetupTruthy
             then modules m @ [(nm, \<lparr>cls = plugin, name = nm, enabled = True, dep_order = None\<rparr>)]
             else modules m)"
      using load_plugin_fresh [OF fresh] by blast
    obtain m2 d2 where r: "record_dep_order nm (m1, d) = (m2, d2)" by (cases "record_dep_order nm (m1, d)")
    note m2 = record_dep_order_fresh [OF fresh m1 r]
    have ok2: "mgr_ok (modules m2) d2"
      using m2 mgr_ok_step [OF "2.prems"(1) _ True] fresh "2.prems"(1)
      by (auto simp: has_key_def split: if_splits)
    have fresh2: "fresh_candidates (modules m2) ps"
      using m2 fps nm_ps by (auto simp: fresh_candidates_def has_key_def list_all_iff split: if_splits)
    obtain m3 d3 post again where p: "import_pass m2 d2 ps = Inr (m3, d3, post, again)"
      and post: "mgr_ok (modules m3) d3" "fresh_candidates (modules m3) post" "set post \<subseteq> set ps"
      and keys: "set (map fst (modules m3)) \<subseteq> set (map fst (modules m2)) \<union> (\<lambda>(c, f, n). n) ` set ps"
      using "2.IH"(1) [OF True l r [symmetric] refl ok2 fresh2] by blast
    have "set (map fst (modules m3)) \<subseteq>
          set (map fst (modules m)) \<union> (\<lambda>(c, f, n). n) ` set ((plugin, filename, nm) # ps)"
      using keys m2 by (auto split: if_splits)
    with True l r p post show ?thesis by auto
  next
    case False
    obtain m3 d3 post again where p: "import_pass m d ps = Inr (m3, d3, post, again)"
      and post: "mgr_ok (modules m3) d3" "fresh_candidates (modules m3) post" "set post \<subseteq> set ps"
      and keys: "set (map fst (modules m3)) \<subseteq> set (map fst (modules m)) \<union> (\<lambda>(c, f, n). n) ` set ps"
      using "2.IH"(2) [OF False "2.prems"(1) fps] by blast
    have "fresh_candidates (modules m3) ((plugin, filename, nm) # post)"
      using post(2,3) keys fresh nm_ps by (auto simp: fresh_candidates_def has_key_def)
    with False p post keys show ?thesis by auto
  qed
qed

lemma import_pass_stuck:
  "import_pass m d ps = Inr (m', d', post, False) \<Longrightarrow>
     m' = m \<and> d' = d \<and> post = ps \<and> list_all (\<lambda>(c, f, n). \<not> deps_loaded (modules m) (DEPENDS c)) ps"
proof (induction m d ps arbitrary: m' d' post rule: import_pass.induct)
  case (2 m d plugin filename nm ps)
  show ?case
  proof (cases "deps_loaded (modules m) (DEPENDS plugin)")
    case True
    with "2.prems" show ?thesis by (auto split: sum.splits prod.splits)
  next
    case False
    with "2.prems" obtain post' where p: "import_pass m d ps = Inr (m', d', post', False)"
      and "post = (plugin, filename, nm) # post'"
      by (auto split: sum.splits prod.splits)
    with "2.IH"(2) [OF False p] False show ?thesis by simp
  qed
qed simp

lemma import_loop_stuck:
  "import_loop m d ps = Inr (m', post) \<Longrightarrow>
     list_all (\<lambda>(c, f, n). \<not> deps_loaded (modules m') (DEPENDS c)) post \<and> length post \<le> length ps"
proof (induction m d ps rule: import_loop.induct)
  case (1 m d ps)
  obtain m1 d1 post1 again where p: "import_pass m d ps = Inr (m1, d1, post1, again)"
    using "1.prems" by (subst (asm) import_loop.simps) (auto split: sum.splits)
  show ?case
  proof (cases again)
    case True
    with "1.prems" p have "import_loop m1 d1 post1 = Inr (m', post)"
      by (subst (asm) import_loop.simps) simp
    with "1.IH" [OF p refl refl refl True] import_pass_postponed [OF p] show ?thesis by simp
  next
    case False
    with "1.prems" p have "m' = m1" "post = post1"
      by (subst (asm) import_loop.simps; simp)+
    with import_pass_stuck p False show ?thesis by fastforce
  qed
qed

lemma import_loop_ok:
  "mgr_ok (modules m) d \<Longrightarrow> fresh_candidates (modules m) ps \<Longrightarrow>
     \<exists>m' post d'. import_loop m d ps = Inr (m', post) \<and> mgr_ok (modules m') d'"
proof (induction m d ps rule: import_loop.induct)
  case (1 m d ps)
  obtain m1 d1 post1 again where p: "import_pass m d ps = Inr (m1, d1, post1, again)"
    and ok: "mgr_ok (modules m1) d1" "fresh_candidates (modules m1) post1"
    using import_pass_ok [OF "1.prems"] by blast
  show ?case
  proof (cases again)
    case True
    then show ?thesis
      using "1.IH" [OF p refl refl refl True ok] p by (subst import_loop.simps) simp
  next
    case False
    then show ?thesis using p ok by (subst import_loop.simps) auto
  qed
qed

section \<open>Dependency order of the sorted plugin list\<close>

text \<open>Every plugin's dependencies are named, plainly or by the long name, by a plugin
  before it in the list (or in \<open>seen\<close>).\<close>

fun deps_before :: "string list \<Rightarrow> plugin list \<Rightarrow> bool" where
  "deps_before seen [] = True"
| "deps_before seen (p # ps) =
     (list_all (\<lambda>dep. dep \<in> set seen \<or> long_name dep \<in> set seen) (DEPENDS (cls p)) \<and>
      deps_before (name p # seen) ps)"

lemma deps_before_sorted:
  assumes "sorted (map f xs)"
    and "\<forall>p \<in> set xs. \<forall>dep \<in> set (DEPENDS (cls p)). dep \<in> set seen \<or> long_name dep \<in> set seen \<or>
           (\<exists>q \<in> set xs. f q < f p \<and> (name q = dep \<or> name q = long_name dep))"
  shows "deps_before seen xs"
  using assms
proof (induction xs arbitrary: seen)
  case (Cons x xs)
  have fx: "\<forall>q \<in> set (x # xs). f x \<le> f q" using Cons.prems(1) by auto
  have "dep \<in> set seen \<or> long_name dep \<in> set seen" if "dep \<in> set (DEPENDS (cls x))" for dep
  proof -
    have "dep \<in> set seen \<or> long_name dep \<in> set seen \<or>
          (\<exists>q \<in> set (x # xs). f q < f x \<and> (name q = dep \<or> name q = long_name dep))"
      using Cons.prems(2) that by simp
    then show ?thesis using fx by (meson leD)
  qed
  then have "list_all (\<lambda>dep. dep \<in> set seen \<or> long_name dep \<in> set seen) (DEPENDS (cls x))"
    by (simp add: list_all_iff)
  moreover have "deps_before (name x # seen) xs"
  proof (rule Cons.IH)
    show "sorted (map f xs)" using Cons.prems(1) by simp
    show "\<forall>p \<in> set xs. \<forall>dep \<in> set (DEPENDS (cls p)).
            dep \<in> set (name x # seen) \<or> long_name dep \<in> set (name x # seen) \<or>
            (\<exists>q \<in> set xs. f q < f p \<and> (name q = dep \<or> name q = long_name dep))"
    proof (intro ballI)
      fix p dep
      assume "p \<in> set xs" "dep \<in> set (DEPENDS (cls p))"
      then have "dep \<in> set seen \<or> long_name dep \<in> set seen \<or>
          (\<exists>q \<in> set (x # xs). f q < f p \<and> (name q = dep \<or> name q = long_name dep))"
        using Cons.prems(2) by simp
      then show "dep \<in> set (name x # seen) \<or> long_name dep \<in> set (name x # seen) \<or>
          (\<exists>q \<in> set xs. f q < f p \<and> (name q = dep \<or> name q = long_name dep))"
        by auto
    qed
  qed
  ultimately show ?case by simp
qed simp

lemma mgr_ok_earlier_plugin:
  assumes ok: "mgr_ok ms d" and e: "earlier ms k key"
  shows "\<exists>q \<in> set (map snd ms). the (dep_order q) < k \<and> name q = key"
proof -
  obtain q j where q: "map_of ms key = Some q" and j: "dep_order q = Some j" "j < k"
    using e by (auto simp: earlier_def split: option.splits)
  have "(key, q) \<in> set ms" using q by (rule map_of_SomeD)
  moreover then have "name q = key" using ok by (auto simp: mgr_ok_def list_all_iff)
  ultimately show ?thesis using j by force
qed

lemma sorted_short: "length xs < 2 \<Longrightarrow> sorted (map f xs)"
  by (cases xs) (auto simp: Suc_less_eq2)

lemma get_plugins_sorted_dep_order:
  assumes ok: "mgr_ok (modules m) d"
  shows "\<exists>ps'. get_plugins_sorted m None = Inr ps' \<and> mset ps' = mset (get_plugins m) \<and>
           deps_before [] ps'"
proof -
  let ?f = "\<lambda>p. the (dep_order p)"
  let ?ps = "get_plugins m"
  have some: "list_all (\<lambda>p. dep_order p \<noteq> None) ?ps"
    using ok by (auto simp: mgr_ok_def dep_ordered_def get_plugins_def list_all_iff split: option.splits)
  have deps: "\<forall>p \<in> set ?ps. \<forall>dep \<in> set (DEPENDS (cls p)).
      \<exists>q \<in> set ?ps. ?f q < ?f p \<and> (name q = dep \<or> name q = long_name dep)"
  proof (intro ballI)
    fix p dep
    assume p: "p \<in> set ?ps" and dep: "dep \<in> set (DEPENDS (cls p))"
    obtain n where "(n, p) \<in> set (modules m)" using p by (auto simp: get_plugins_def)
    then obtain k where k: "dep_order p = Some k"
      and e: "earlier (modules m) k dep \<or> earlier (modules m) k (long_name dep)"
      using ok dep by (fastforce simp: mgr_ok_def dep_ordered_def list_all_iff split: option.splits)
    from e show "\<exists>q \<in> set ?ps. ?f q < ?f p \<and> (name q = dep \<or> name q = long_name dep)"
      using mgr_ok_earlier_plugin [OF ok] k by (fastforce simp: get_plugins_def)
  qed
  define ps' where "ps' = (if length ?ps < 2 then ?ps else sort_key ?f ?ps)"
  have "sorted (map ?f ps')"
    by (simp add: ps'_def sorted_short sorted_sort_key)
  moreover have ms: "mset ps' = mset ?ps" by (simp add: ps'_def mset_sort)
  then have "set ps' = set ?ps" by (metis set_mset_mset)
  ultimately have "deps_before [] ps'"
    using deps by (intro deps_before_sorted) auto
  moreover have "get_plugins_sorted m None = Inr ps'"
    using some by (simp add: get_plugins_sorted_def ps'_def)
  ultimately show ?thesis using ms by blast
qed

section \<open>Lookup and mutation lemmas\<close>

lemma get_plugin_Inl:
  "get_plugin m n = Inl e \<longleftrightarrow>
     e = KeyError \<and> \<not> has_key (modules m) n \<and> \<not> has_key (modules m) (long_name n)"
  by (auto simp: get_plugin_def)

lemma get_plugin_log_call [simp]: "get_plugin (log_call c m) n = get_plugin m n"
  by (simp add: get_plugin_def log_call_def)

lemma keys_map_entry [simp]: "map fst (AList.map_entry k f ms) = map fst ms"
  by (induction ms) auto

lemma has_key_map_entry [simp]: "has_key (AList.map_entry k f ms) n = has_key ms n"
  by (simp add: has_key_def)

lemma has_key_map_of: "has_key ms k \<Longrightarrow> \<exists>v. map_of ms k = Some v"
  by (auto simp: has_key_def dest: weak_map_of_SomeI)

lemma get_plugin_update_plugin:
  "get_plugin (update_plugin n f m) n = map_sum id f (get_plugin m n)"
  using has_key_map_of [of "modules m" n] has_key_map_of [of "modules m" "long_name n"]
  by (auto simp: get_plugin_def update_plugin_def map_of_map_entry)

lemma update_plugin_log_call:
  "update_plugin n f (log_call c m) = log_call c (update_plugin n f m)"
  by (simp add: update_plugin_def log_call_def)

lemma calls_update_plugin [simp]: "calls (update_plugin n f m) = calls (m)"
  by (simp add: update_plugin_def)

lemma map_entry_fixed:
  "map_of ms k = Some v \<Longrightarrow> f v = v \<Longrightarrow> AList.map_entry k f ms = ms"
  by (induction ms) (auto split: if_splits)

lemma map_entry_map_entry:
  "AList.map_entry k g (AList.map_entry k f ms) = AList.map_entry k (g \<circ> f) ms"
  by (induction ms) auto

section \<open>Demonstration plugins\<close>

definition demo_models :: plugin_class where
  "demo_models = \<lparr>DEPENDS = [], setup_does = SetupTruthy, teardown_implemented = True\<rparr>"

definition demo_tasks :: plugin_class where
  "demo_tasks = \<lparr>DEPENDS = [''Models''], setup_does = SetupTruthy, teardown_implemented = True\<rparr>"

definition demo_export :: plugin_class where
  "demo_export = \<lparr>DEPENDS = [''Missing''], setup_does = SetupTruthy, teardown_implemented = True\<rparr>"

definition demo_candidates :: "candidate list" where
  "demo_candidates =
     [(demo_tasks, ''Tasks.py'', ''Tasks''), (demo_models, ''Models.py'', ''Models''),
      (demo_export, ''Export.py'', ''Export'')]"

definition demo_loaded :: plugin_manager where
  "demo_loaded =
     \<lparr>modules = [(''Models'', \<lparr>cls = demo_models, name = ''Models'', enabled = True, dep_order = Some 0\<rparr>),
                 (''Tasks'', \<lparr>cls = demo_tasks, name = ''Tasks'', enabled = True, dep_order = Some 1\<rparr>)],
      calls = [CallSetup ''Models'', EmitEvent ''plugin-list-changed'',
               CallSetup ''Tasks'', EmitEvent ''plugin-list-changed'']\<rparr>"

definition demo_base :: plugin_class where
  "demo_base = \<lparr>DEPENDS = [], setup_does = SetupTruthy, teardown_implemented = False\<rparr>"

definition demo_long :: plugin_manager where
  "demo_long =
     \<lparr>modules = [(''Models.Models'', \<lparr>cls = demo_models, name = ''Models.Models'', enabled = True,
                                      dep_order = Some 0\<rparr>),
                 (''Tasks'', \<lparr>cls = demo_tasks\<lparr>DEPENDS := [''Models.Models'']\<rparr>, name = ''Tasks'',
                              enabled = True, dep_order = Some 1\<rparr>)],
      calls = []\<rparr>"

lemma demo_import:
  "import_plugins demo_candidates PluginManager = Inr (demo_loaded, [(''Export'', [''Missing''])])"
  by (simp add: import_plugins_def demo_candidates_def import_loop.simps PluginManager_def demo_loaded_def
      deps_loaded_def has_key_def long_name_def load_plugin_def log_call_def record_dep_order_def
      demo_models_def demo_tasks_def demo_export_def get_plugin_def)

section \<open>Properties\<close>

lemma mgr_ok_Nil: "mgr_ok [] 0"
  by (simp add: mgr_ok_def dep_ordered_def)

lemma import_plugins_mgr_ok:
  assumes "fresh_candidates [] ps" "import_plugins ps PluginManager = Inr (m, report)"
  shows "\<exists>d. mgr_ok (modules m) d"
proof -
  obtain m' post d where "import_loop PluginManager 0 ps = Inr (m', post)" "mgr_ok (modules m') d"
    using import_loop_ok [of PluginManager 0 ps] assms(1) mgr_ok_Nil
    by (auto simp: PluginManager_def)
  with assms(2) show ?thesis by (auto simp: import_plugins_def)
qed

lemma earlier_available:
  assumes "mgr_ok ms d" "earlier ms k key"
  shows "has_key ms key \<and> enabled (the (map_of ms key))"
proof -
  obtain q where q: "map_of ms key = Some q"
    using assms(2) by (auto simp: earlier_def split: option.splits)
  then have "(key, q) \<in> set ms" by (rule map_of_SomeD)
  with assms(1) q show ?thesis
    by (auto simp: mgr_ok_def list_all_iff has_key_def intro: rev_image_eqI)
qed

lemma get_plugin_has_key:
  "has_key (modules m) n \<Longrightarrow> \<exists>p. get_plugin m n = Inr p \<and> (n, p) \<in> set (modules m)"
  using has_key_map_of [of "modules m" n] by (auto simp: get_plugin_def dest: map_of_SomeD)

text \<open>C23: when the import returns, every candidate it leaves out is reported with at least
  one dependency that is still unavailable, so the retry loop stopped at its fixpoint; no
  more plugins are reported than were found.\<close>

theorem import_plugins_reports_missing:
  assumes "import_plugins ps m0 = Inr (m, report)"
  shows "list_all (\<lambda>(nm, missing). missing \<noteq> []) report \<and> length report \<le> length ps"
proof -
  obtain skipped where l: "import_loop m0 0 ps = Inr (m, skipped)"
    and r: "report = map (\<lambda>(plugin, filename, nm).
              (nm, filter (\<lambda>depend. isl (get_plugin m depend)) (DEPENDS plugin))) skipped"
    using assms by (auto simp: import_plugins_def split: sum.splits)
  have "filter (\<lambda>depend. isl (get_plugin m depend)) (DEPENDS c) \<noteq> []"
    if "\<not> deps_loaded (modules m) (DEPENDS c)" for c
    using that by (auto simp: deps_loaded_def list_all_iff filter_empty_conv get_plugin_def)
  with import_loop_stuck [OF l] r show ?thesis by (auto simp: list_all_iff)
qed

lemma import_plugins_reports_missing_witness:
  "import_plugins demo_candidates PluginManager = Inr (demo_loaded, [(''Export'', [''Missing''])]) \<and>
   list_all (\<lambda>(nm, missing). missing \<noteq> []) [(''Export'', [''Missing''])] \<and>
   length [(''Export'', [''Missing''])] \<le> length demo_candidates"
  using import_plugins_reports_missing [OF demo_import] by (simp add: demo_import)

text \<open>Right after an import every loaded plugin is enabled and misses no dependency.\<close>

lemma import_plugins_loaded_plugin:
  assumes "fresh_candidates [] ps" "import_plugins ps PluginManager = Inr (m, report)"
    and "has_key (modules m) n"
  shows "enable_plugin m n = Inl AttributeError \<and> get_plugin_missing_dependencies m n = Inr []"
proof -
  obtain d where ok: "mgr_ok (modules m) d" using import_plugins_mgr_ok [OF assms(1,2)] ..
  obtain p where g: "get_plugin m n = Inr p" and p: "(n, p) \<in> set (modules m)"
    using get_plugin_has_key [OF assms(3)] by blast
  have refused: "enable_plugin m n = Inl AttributeError"
    using g p ok by (auto simp: enable_plugin_def mgr_ok_def list_all_iff)
  obtain k where "dep_order p = Some k" and
    deps: "list_all (\<lambda>dep. earlier (modules m) k dep \<or> earlier (modules m) k (long_name dep)) (DEPENDS (cls p))"
    using ok p by (auto simp: mgr_ok_def dep_ordered_def list_all_iff split: option.splits)
  have "dep_available (modules m) dep" if "dep \<in> set (DEPENDS (cls p))" for dep
    using deps that earlier_available [OF ok] by (auto simp: dep_available_def list_all_iff)
  with g refused show ?thesis by (simp add: get_plugin_missing_dependencies_def filter_empty_conv)
qed

lemma demo_candidates_fresh: "fresh_candidates [] demo_candidates"
  by (simp add: fresh_candidates_def demo_candidates_def has_key_def)



lemma update_plugin_twice:
  "update_plugin n g (update_plugin n f m) = update_plugin n (g \<circ> f) m"
  by (simp add: update_plugin_def map_entry_map_entry)

lemma modules_update_plugin_fixed:
  "get_plugin m n = Inr p \<Longrightarrow> f p = p \<Longrightarrow> modules (update_plugin n f m) = modules m"
  using has_key_map_of [of "modules m" n] has_key_map_of [of "modules m" "long_name n"]
  by (auto simp: get_plugin_def update_plugin_def map_entry_fixed split: if_splits)


text \<open>C28: disabling an enabled plugin and enabling it again (its \<^verbatim>\<open>teardown\<close> and
  \<^verbatim>\<open>setup\<close> implemented, \<^verbatim>\<open>setup\<close> truthy) reports it disabled in between and restores
  every plugin's state, having called its \<^verbatim>\<open>teardown\<close> and then its \<^verbatim>\<open>setup\<close>.\<close>

theorem disable_enable_roundtrip:
  assumes g: "get_plugin m n = Inr p" and en: "enabled p"
    and td: "teardown_implemented (cls p)" and su: "setup_does (cls p) = SetupTruthy"
  shows "\<exists>m1 m2. disable_plugin m n = Inr m1 \<and> get_plugin_state m1 n = Inr False \<and>
           enable_plugin m1 n = Inr m2 \<and> modules m2 = modules m \<and>
           calls m2 = calls m @ [CallTeardown (name p), CallSetup (name p)]"
proof -
  let ?off = "\<lambda>q. q\<lparr>enabled := False\<rparr>" and ?on = "\<lambda>q. q\<lparr>enabled := True\<rparr>"
  define m1 where "m1 = update_plugin n ?off (log_call (CallTeardown (name p)) m)"
  have d: "disable_plugin m n = Inr m1" using g en td by (simp add: disable_plugin_def m1_def)
  have g1: "get_plugin m1 n = Inr (?off p)"
    using g by (simp add: m1_def get_plugin_update_plugin)
  define m2 where "m2 = update_plugin n ?on (log_call (CallSetup (name p)) m1)"
  have e: "enable_plugin m1 n = Inr m2" using g1 su by (simp add: enable_plugin_def m2_def)
  have "m2 = log_call (CallSetup (name p)) (log_call (CallTeardown (name p))
               (update_plugin n (?on \<circ> ?off) m))"
    by (simp add: m2_def m1_def update_plugin_log_call update_plugin_twice)
  moreover have "modules (update_plugin n (?on \<circ> ?off) m) = modules m"
    using en by (intro modules_update_plugin_fixed [OF g]) simp
  ultimately have "modules m2 = modules m" "calls m2 = calls m @ [CallTeardown (name p), CallSetup (name p)]"
    by (simp_all add: log_call_def)
  moreover have "get_plugin_state m1 n = Inr False"
    using g1 by (simp add: get_plugin_state_def)
  ultimately show ?thesis using d e by blast
qed

lemma disable_enable_roundtrip_witness:
  "\<exists>m1 m2. disable_plugin demo_loaded ''Models'' = Inr m1 \<and> get_plugin_state m1 ''Models'' = Inr False \<and>
     enable_plugin m1 ''Models'' = Inr m2 \<and> modules m2 = modules demo_loaded \<and>
     calls m2 = calls demo_loaded @ [CallTeardown ''Models'', CallSetup ''Models'']"
  using disable_enable_roundtrip [of demo_loaded "''Models''"
      "\<lparr>cls = demo_models, name = ''Models'', enabled = True, dep_order = Some 0\<rparr>"]
  by (simp add: demo_loaded_def get_plugin_def has_key_def demo_models_def)

text \<open>C29: unless some dependency name ends in a dot, \<^verbatim>\<open>is_plugin_required(name)\<close> only
  finds enabled plugins that list the plain name: its long name \<^verbatim>\<open>"%s.%s."\<close> carries a
  trailing dot, so the long-name branch never matches.\<close>

theorem is_plugin_required_plain_only:
  assumes "list_all (\<lambda>p. list_all (\<lambda>dep. dep = [] \<or> last dep \<noteq> CHR ''.'') (DEPENDS (cls p)))
             (get_plugins m)"
  shows "is_plugin_required m n = list_ex (\<lambda>p. enabled p \<and> n \<in> set (DEPENDS (cls p))) (get_plugins m)"
proof -
  have "n @ ''.'' @ n @ ''.'' \<notin> set (DEPENDS (cls p))" if "p \<in> set (get_plugins m)" for p
    using assms that by (force simp: list_all_iff)
  then show ?thesis
    by (auto simp: is_plugin_required_def list_ex_iff get_plugins_def)
qed

lemma is_plugin_required_plain_only_witness:
  "is_plugin_required demo_loaded ''Models'' = True"
  using is_plugin_required_plain_only [of demo_loaded "''Models''"]
  by (simp add: demo_loaded_def get_plugins_def demo_models_def demo_tasks_def)

text \<open>With a plugin registered under the long name \<^verbatim>\<open>Models.Models\<close> and an enabled
  plugin depending on that name, \<^verbatim>\<open>get_plugin("Models")\<close> finds the plugin but
  \<^verbatim>\<open>is_plugin_required("Models")\<close> answers no, and disabling it leaves the dependent
  with a missing dependency.\<close>

theorem is_plugin_required_misses_long_name:
  "get_plugin demo_long ''Models'' = Inr (snd (hd (modules demo_long))) \<and>
   \<not> is_plugin_required demo_long ''Models'' \<and>
   (\<exists>m'. disable_plugin demo_long ''Models'' = Inr m' \<and>
         get_plugin_missing_dependencies m' ''Tasks'' = Inr [''Models.Models''])"
  by (simp add: demo_long_def get_plugin_def has_key_def long_name_def is_plugin_required_def
      disable_plugin_def update_plugin_def log_call_def get_plugin_missing_dependencies_def
      dep_available_def demo_models_def demo_tasks_def)

end
