(* ===== verification/PluginImport.thy ===== *)
theory PluginImport
  imports PluginManager "HOL-Library.Sublist"
begin

text \<open>
  The beginning of \<^verbatim>\<open>PluginManager.import_plugins\<close> (lines 265--294 of
  \<^verbatim>\<open>src/pycam/Plugins/__init__.py\<close>): the scan of the plugin directory for candidate
  classes, composed with the retry loop of \<open>PluginManager\<close>; and the progress of that
  loop: when the candidates' dependencies are acyclic and all present, every candidate
  is loaded.
\<close>

section \<open>The directory scan\<close>

text \<open>An attribute of a loaded module, as line 291 sees it: a class with a \<^verbatim>\<open>setup\<close>
  attribute (every subclass of \<^verbatim>\<open>PluginBase\<close>, \<^verbatim>\<open>PluginBase\<close> itself included), or
  anything else.\<close>

datatype mod_attr = PluginClass plugin_class | OtherAttr

text \<open>The file system and the module loader as the scan uses them: \<^verbatim>\<open>os.listdir\<close>
  (\<open>None\<close>: \<^verbatim>\<open>OSError\<close>), \<^verbatim>\<open>os.path.isfile\<close>, and \<^verbatim>\<open>imp.find_module\<close> followed by
  \<^verbatim>\<open>imp.load_module\<close> for a module name in a directory: the module's file name and its
  namespace, or \<open>None\<close> for \<^verbatim>\<open>ImportError\<close>. \<open>plugin_dir\<close> is
  \<^verbatim>\<open>os.path.dirname(__file__)\<close>.\<close>

record plugin_fs =
  listdir :: "string \<Rightarrow> string list option"
  isfile :: "string \<Rightarrow> bool"
  load_module :: "string \<Rightarrow> string \<Rightarrow> (string \<times> (string \<times> mod_attr) list) option"
  plugin_dir :: string

text \<open>\<^verbatim>\<open>str.lower\<close> on ASCII (Python 2 \<^verbatim>\<open>str\<close> in the C locale).\<close>

definition lower_char :: "char \<Rightarrow> char" where
  "lower_char c = (if CHR ''A'' \<le> c \<and> c \<le> CHR ''Z'' then char_of (of_char c + (32::nat)) else c)"

definition py_lower :: "string \<Rightarrow> string" where
  "py_lower s = map lower_char s"

text \<open>\<^verbatim>\<open>os.path.join(a, b)\<close> on POSIX: \<open>b\<close> when it is absolute, else \<open>a\<close> and \<open>b\<close>
  with one separator between them.\<close>

definition path_join :: "string \<Rightarrow> string \<Rightarrow> string" where
  "path_join a b =
     (if b \<noteq> [] \<and> hd b = CHR ''/'' then b
      else if a = [] \<or> last a = CHR ''/'' then a @ b
      else a @ ''/'' @ b)"

text \<open>Lines 289--294 for one loaded module: \<^verbatim>\<open>dir(mod)\<close> lists the namespace's names
  sorted; every class with \<^verbatim>\<open>setup\<close> becomes \<^verbatim>\<open>(item, mod_filename, attr)\<close>.\<close>

definition module_candidates :: "string \<Rightarrow> (string \<times> mod_attr) list \<Rightarrow> candidate list" where
  "module_candidates mod_filename attrs =
     concat (map (\<lambda>attr. case map_of attrs attr of
                           Some (PluginClass item) \<Rightarrow> [(item, mod_filename, attr)]
                         | _ \<Rightarrow> []) (sort (remdups (map fst attrs))))"

text \<open>Lines 274--294 for one file name of the listing.\<close>

definition scan_file :: "plugin_fs \<Rightarrow> string \<Rightarrow> string \<Rightarrow> candidate list" where
  "scan_file fs directory filename =
     (if suffix ''.py'' filename \<and> py_lower filename \<noteq> ''__init__.py'' \<and>
         isfile fs (path_join directory filename)
      then (let mod_name = take (length filename - length ''.py'') filename in
            case load_module fs directory mod_name of
              None \<Rightarrow> []
            | Some (mod_filename, attrs) \<Rightarrow> module_candidates mod_filename attrs)
      else [])"

definition scan_plugins :: "plugin_fs \<Rightarrow> string \<Rightarrow> string list \<Rightarrow> candidate list" where
  "scan_plugins fs directory files = concat (map (scan_file fs directory) files)"

text \<open>The whole of \<^verbatim>\<open>import_plugins(directory)\<close>: \<open>None\<close> is the early
  \<^verbatim>\<open>return\<close> of line 271 when the directory cannot be listed.\<close>

definition import_plugins_dir ::
  "plugin_fs \<Rightarrow> string option \<Rightarrow> plugin_manager \<Rightarrow>
   (plugin_manager \<times> (string \<times> string list) list option) result" where
  "import_plugins_dir fs directory m =
     (let dir = (case directory of None \<Rightarrow> plugin_dir fs | Some d \<Rightarrow> d) in
      case listdir fs dir of
        None \<Rightarrow> Inr (m, None)
      | Some files \<Rightarrow> map_sum id (\<lambda>(m', report). (m', Some report))
                        (import_plugins (scan_plugins fs dir files) m))"

section \<open>Coverage of a pass and ranked dependencies\<close>

text \<open>A pass only adds keys; every candidate it does not postpone was loaded, and is
  in the manager when its \<^verbatim>\<open>setup\<close> succeeds.\<close>

definition pass_covers :: "plugin_manager \<Rightarrow> candidate list \<Rightarrow> candidate list \<Rightarrow> plugin_manager \<Rightarrow> bool" where
  "pass_covers m ps post m' =
     (set (map fst (modules m)) \<subseteq> set (map fst (modules m')) \<and> set post \<subseteq> set ps \<and>
      list_all (\<lambda>(c, f, n). (c, f, n) \<in> set post \<or> (setup_does c = SetupTruthy \<longrightarrow> has_key (modules m') n)) ps)"

text \<open>Dependencies ranked below their plugin: every dependency of a candidate is the
  name of a candidate of smaller rank (so the dependency graph is acyclic and closed).\<close>

definition deps_ranked :: "(string \<Rightarrow> nat) \<Rightarrow> candidate list \<Rightarrow> bool" where
  "deps_ranked rank ps =
     list_all (\<lambda>(c, f, n). list_all (\<lambda>dep. list_ex (\<lambda>(c', f', n'). n' = dep \<and> rank n' < rank n) ps)
                                     (DEPENDS c)) ps"

section \<open>Fixtures\<close>

text \<open>\<^verbatim>\<open>PluginBase\<close> as a candidate: no dependencies, and its \<^verbatim>\<open>setup\<close> and
  \<^verbatim>\<open>teardown\<close> raise \<^verbatim>\<open>NotImplementedError\<close> (lines 178--184). A plugin directory
  with the two plugins of \<open>PluginManager\<close>, each module importing \<^verbatim>\<open>PluginBase\<close> (as
  every plugin module of PyCAM does, \<^verbatim>\<open>import pycam.Plugins\<close> aside), the package's
  \<^verbatim>\<open>__init__.py\<close> and a file that is not Python.\<close>

definition base_class :: plugin_class where
  "base_class = \<lparr>DEPENDS = [], setup_does = SetupNotImplemented, teardown_implemented = False\<rparr>"

definition demo_fs :: plugin_fs where
  "demo_fs = \<lparr>listdir = (\<lambda>d. if d = ''plugins'' then Some [''Models.py'', ''Tasks.py'', ''__init__.py'', ''README''] else None),
              isfile = (\<lambda>p. True),
              load_module = (\<lambda>d mn. if mn = ''Models'' then Some (''plugins/Models.py'',
                                        [(''Models'', PluginClass demo_models), (''PluginBase'', PluginClass base_class), (''os'', OtherAttr)])
                                   else if mn = ''Tasks'' then Some (''plugins/Tasks.py'',
                                        [(''PluginBase'', PluginClass base_class), (''Tasks'', PluginClass demo_tasks)])
                                   else None),
              plugin_dir = ''plugins''\<rparr>"

definition demo_ordered :: "candidate list" where
  "demo_ordered = [(demo_tasks, ''Tasks.py'', ''Tasks''), (demo_models, ''Models.py'', ''Models'')]"

section \<open>The retry loop makes progress\<close>

lemma keys_update: "fst ` set (AList.update k v al) = insert k (fst ` set al)"
  by (simp add: dom_update)

lemma load_plugin_keys:
  assumes "load_plugin obj fn nm m = Inr m1"
  shows "set (map fst (modules m)) \<subseteq> set (map fst (modules m1)) \<and>
         (setup_does obj = SetupTruthy \<longrightarrow> has_key (modules m1) nm)"
  using assms
  by (cases "map_of (modules m) nm"; cases "setup_does obj")
     (force simp: load_plugin_def log_call_def has_key_def keys_update split: if_splits)+

lemma record_dep_order_keys:
  "record_dep_order nm (m, d) = (m', d') \<Longrightarrow> map fst (modules m') = map fst (modules m)"
  by (auto simp: record_dep_order_def split: if_splits)

lemma pass_covers_Cons_loaded:
  assumes "pass_covers m2 ps post m3" "set (map fst (modules m)) \<subseteq> set (map fst (modules m2))"
    and "setup_does c = SetupTruthy \<longrightarrow> has_key (modules m2) n"
  shows "pass_covers m ((c, f, n) # ps) post m3"
  using assms by (auto simp: pass_covers_def has_key_def)

lemma pass_covers_Cons_postponed:
  "pass_covers m ps post m3 \<Longrightarrow> pass_covers m ((c, f, n) # ps) ((c, f, n) # post) m3"
  by (auto simp: pass_covers_def list_all_iff)

lemma pass_covers_trans:
  assumes "pass_covers m ps post1 m1" "pass_covers m1 post1 post m'"
  shows "pass_covers m ps post m'"
proof -
  note c1 = assms(1) [unfolded pass_covers_def list_all_iff]
  note c2 = assms(2) [unfolded pass_covers_def list_all_iff]
  have each: "(c, f, n) \<in> set post \<or> (setup_does c = SetupTruthy \<longrightarrow> has_key (modules m') n)"
    if "(c, f, n) \<in> set ps" for c f n
  proof (cases "(c, f, n) \<in> set post1")
    case True
    then show ?thesis using bspec [OF c2 [THEN conjunct2, THEN conjunct2] True] by simp
  next
    case False
    then have "setup_does c = SetupTruthy \<longrightarrow> has_key (modules m1) n"
      using bspec [OF c1 [THEN conjunct2, THEN conjunct2] that] by simp
    then show ?thesis using c2 by (auto simp: has_key_def)
  qed
  have "set (map fst (modules m)) \<subseteq> set (map fst (modules m'))" "set post \<subseteq> set ps"
    using c1 c2 by blast+
  with each show ?thesis by (auto simp: pass_covers_def list_all_iff)
qed

lemma import_pass_covers:
  "import_pass m d ps = Inr (m', d', post, again) \<Longrightarrow> pass_covers m ps post m'"
proof (induction m d ps arbitrary: m' d' post again rule: import_pass.induct)
  case (1 m d)
  then show ?case by (simp add: pass_covers_def)
next
  case (2 m d plugin filename nm ps)
  show ?case
  proof (cases "deps_loaded (modules m) (DEPENDS plugin)")
    case True
    then obtain m1 m2 d2 x where
      l: "load_plugin plugin filename nm m = Inr m1" and r: "record_dep_order nm (m1, d) = (m2, d2)"
      and p: "import_pass m2 d2 ps = Inr (m', d', post, x)"
      using "2.prems" by (auto split: sum.splits prod.splits)
    have c: "pass_covers m2 ps post m'" using "2.IH"(1) [OF True l r [symmetric] refl p] .
    have k: "set (map fst (modules m)) \<subseteq> set (map fst (modules m2))"
      "setup_does plugin = SetupTruthy \<longrightarrow> has_key (modules m2) nm"
      using load_plugin_keys [OF l] record_dep_order_keys [OF r] by (simp_all add: has_key_def)
    from pass_covers_Cons_loaded [OF c k] show ?thesis .
  next
    case False
    then obtain post' where
      p: "import_pass m d ps = Inr (m', d', post', again)" and "post = (plugin, filename, nm) # post'"
      using "2.prems" by (auto split: sum.splits prod.splits)
    with "2.IH"(2) [OF False p] show ?thesis by (simp add: pass_covers_Cons_postponed)
  qed
qed

lemma import_loop_covers:
  "import_loop m d ps = Inr (m', post) \<Longrightarrow> pass_covers m ps post m'"
proof (induction m d ps rule: import_loop.induct)
  case (1 m d ps)
  obtain m1 d1 post1 again where p: "import_pass m d ps = Inr (m1, d1, post1, again)"
    using "1.prems" by (subst (asm) import_loop.simps) (auto split: sum.splits)
  show ?case
  proof (cases again)
    case True
    with "1.prems" p have "import_loop m1 d1 post1 = Inr (m', post)"
      by (subst (asm) import_loop.simps) simp
    with "1.IH" [OF p refl refl refl True] import_pass_covers [OF p] show ?thesis
      by (blast intro: pass_covers_trans)
  next
    case False
    with "1.prems" p have "m' = m1" "post = post1"
      by (subst (asm) import_loop.simps; simp)+
    with import_pass_covers [OF p] show ?thesis by simp
  qed
qed

lemma deps_ranked_dep:
  assumes "deps_ranked rank ps" "(c, f, n) \<in> set ps" "dep \<in> set (DEPENDS c)"
  shows "\<exists>c' f'. (c', f', dep) \<in> set ps \<and> rank dep < rank n"
proof -
  have "list_all (\<lambda>dep. list_ex (\<lambda>(c', f', n'). n' = dep \<and> rank n' < rank n) ps) (DEPENDS c)"
    using bspec [OF assms(1) [unfolded deps_ranked_def list_all_iff] assms(2)] by (simp add: list_all_iff)
  then have "list_ex (\<lambda>(c', f', n'). n' = dep \<and> rank n' < rank n) ps"
    using assms(3) by (simp add: list_all_iff)
  then show ?thesis by (auto simp: list_ex_iff)
qed

text \<open>C4. Liveness of the retry loop of \<^verbatim>\<open>import_plugins\<close>: when the candidates have distinct names, every
  \<^verbatim>\<open>setup\<close> succeeds and every dependency is a candidate of smaller rank, every
  candidate is eventually loaded, and none is reported as skipped.\<close>

theorem import_plugins_loads_all:
  assumes fresh: "fresh_candidates [] ps" and ranked: "deps_ranked rank ps"
    and truthy: "list_all (\<lambda>(c, f, n). setup_does c = SetupTruthy) ps"
  shows "\<exists>m. import_plugins ps PluginManager = Inr (m, []) \<and>
           list_all (\<lambda>(c, f, n). has_key (modules m) n) ps"
proof -
  obtain m post where l: "import_loop PluginManager 0 ps = Inr (m, post)"
    using import_loop_ok [of PluginManager 0 ps] fresh mgr_ok_Nil by (auto simp: PluginManager_def)
  have cov: "pass_covers PluginManager ps post m" by (rule import_loop_covers [OF l])
  have stuck: "\<not> deps_loaded (modules m) (DEPENDS c)" if "(c, f, n) \<in> set post" for c f n
    using import_loop_stuck [OF l] that by (auto simp: list_all_iff)
  have covered: "(c, f, n) \<in> set post \<or> has_key (modules m) n" if "(c, f, n) \<in> set ps" for c f n
  proof -
    have "(c, f, n) \<in> set post \<or> (setup_does c = SetupTruthy \<longrightarrow> has_key (modules m) n)"
      using bspec [OF cov [unfolded pass_covers_def list_all_iff, THEN conjunct2, THEN conjunct2] that]
      by simp
    moreover have "setup_does c = SetupTruthy"
      using bspec [OF truthy [unfolded list_all_iff] that] by simp
    ultimately show ?thesis by blast
  qed
  have loaded: "has_key (modules m) n" if "(c, f, n) \<in> set ps" for c f n
    using that
  proof (induction "rank n" arbitrary: c f n rule: less_induct)
    case less
    have "deps_loaded (modules m) (DEPENDS c)"
      unfolding deps_loaded_def list_all_iff
    proof
      fix dep
      assume "dep \<in> set (DEPENDS c)"
      then obtain c' f' where "(c', f', dep) \<in> set ps" "rank dep < rank n"
        using deps_ranked_dep [OF ranked less.prems] by blast
      then show "has_key (modules m) dep \<or> has_key (modules m) (long_name dep)"
        using less.hyps by blast
    qed
    then have "(c, f, n) \<notin> set post" using stuck by blast
    then show ?case using covered [OF less.prems] by blast
  qed
  have "post = []"
  proof (rule ccontr)
    assume "post \<noteq> []"
    then obtain x where "x \<in> set post" by (cases post) auto
    moreover obtain c f n where x: "x = (c, f, n)" by (cases x)
    ultimately have p: "(c, f, n) \<in> set post" by simp
    then have "(c, f, n) \<in> set ps" using cov by (auto simp: pass_covers_def)
    have "deps_loaded (modules m) (DEPENDS c)"
      unfolding deps_loaded_def list_all_iff
    proof
      fix dep
      assume "dep \<in> set (DEPENDS c)"
      then obtain c' f' where "(c', f', dep) \<in> set ps"
        using deps_ranked_dep [OF ranked \<open>(c, f, n) \<in> set ps\<close>] by blast
      then show "has_key (modules m) dep \<or> has_key (modules m) (long_name dep)"
        using loaded by blast
    qed
    with stuck [OF p] show False by blast
  qed
  moreover have "list_all (\<lambda>(c, f, n). has_key (modules m) n) ps"
    using loaded by (auto simp: list_all_iff)
  ultimately show ?thesis using l by (simp add: import_plugins_def)
qed

theorem import_plugins_loads_all_witness:
  "\<exists>m. import_plugins demo_ordered PluginManager = Inr (m, []) \<and>
     has_key (modules m) ''Tasks'' \<and> has_key (modules m) ''Models''"
proof -
  have f: "fresh_candidates [] demo_ordered"
    by (simp add: demo_ordered_def fresh_candidates_def has_key_def)
  have r: "deps_ranked (\<lambda>n. if n = ''Models'' then 0 else 1) demo_ordered"
    by (simp add: demo_ordered_def deps_ranked_def demo_tasks_def demo_models_def)
  have t: "list_all (\<lambda>(c, f, n). setup_does c = SetupTruthy) demo_ordered"
    by (simp add: demo_ordered_def demo_tasks_def demo_models_def)
  obtain m where i: "import_plugins demo_ordered PluginManager = Inr (m, [])"
    and a: "list_all (\<lambda>(c, f, n). has_key (modules m) n) demo_ordered"
    using import_plugins_loads_all [OF f r t] by blast
  from a have "has_key (modules m) ''Tasks'' \<and> has_key (modules m) ''Models''"
    by (simp add: demo_ordered_def)
  with i show ?thesis by blast
qed

section \<open>The scan\<close>

lemma scan_demo:
  "scan_plugins demo_fs ''plugins'' [''Models.py'', ''Tasks.py'', ''__init__.py'', ''README''] =
     [(demo_models, ''plugins/Models.py'', ''Models''), (base_class, ''plugins/Models.py'', ''PluginBase''),
      (base_class, ''plugins/Tasks.py'', ''PluginBase''), (demo_tasks, ''plugins/Tasks.py'', ''Tasks'')]"
  by (simp add: scan_plugins_def scan_file_def demo_fs_def module_candidates_def py_lower_def lower_char_def
      path_join_def suffix_def)




end
