(* ===== verification/OpenGL.thy ===== *)
theory OpenGL
  imports Prelude
begin

text \<open>
  \<^verbatim>\<open>src/pycam/Gui/OpenGLTools.py\<close>: the matrix-preserving decorators \<^verbatim>\<open>keep_gl_mode\<close>
  and \<^verbatim>\<open>keep_matrix\<close>, \<^verbatim>\<open>draw_direction_cone\<close> and \<^verbatim>\<open>draw_complete_model_view\<close>. The
  vector helpers of \<^verbatim>\<open>pycam.Geometry.PointUtils\<close> are not under \<^verbatim>\<open>src/\<close> and are
  modelled by their usual meaning. OpenGL is modelled from its specification as a state
  (current matrix mode, one matrix stack per mode, the cones drawn) changed by a list of
  calls, in the manner of a stack machine: a matrix is an affine map on points,
  \<^verbatim>\<open>glTranslatef\<close> and \<^verbatim>\<open>glRotatef\<close> multiply the top of the current stack on the
  right, \<^verbatim>\<open>glRotatef(angle, x, y, z)\<close> turns by \<^verbatim>\<open>angle\<close> degrees about the normalised
  axis, and \<^verbatim>\<open>glutSolidCone(base, height, ...)\<close> draws a cone with its base in the plane
  \<open>z = 0\<close> and its apex at \<open>z = height\<close>, through the model-view matrix.
\<close>

section \<open>Vector helpers\<close>

definition padd :: "point \<Rightarrow> point \<Rightarrow> point" where
  "padd a b = (case a of (a1, a2, a3) \<Rightarrow> case b of (b1, b2, b3) \<Rightarrow> (a1 + b1, a2 + b2, a3 + b3))"

definition psub :: "point \<Rightarrow> point \<Rightarrow> point" where
  "psub a b = (case a of (a1, a2, a3) \<Rightarrow> case b of (b1, b2, b3) \<Rightarrow> (a1 - b1, a2 - b2, a3 - b3))"

definition pmul :: "point \<Rightarrow> real \<Rightarrow> point" where
  "pmul a c = (case a of (a1, a2, a3) \<Rightarrow> (a1 * c, a2 * c, a3 * c))"

definition pdot :: "point \<Rightarrow> point \<Rightarrow> real" where
  "pdot a b = (case a of (a1, a2, a3) \<Rightarrow> case b of (b1, b2, b3) \<Rightarrow> a1 * b1 + a2 * b2 + a3 * b3)"

definition pcross :: "point \<Rightarrow> point \<Rightarrow> point" where
  "pcross a b = (case a of (a1, a2, a3) \<Rightarrow> case b of (b1, b2, b3) \<Rightarrow>
                   (a2 * b3 - a3 * b2, a3 * b1 - a1 * b3, a1 * b2 - a2 * b1))"

definition pnorm :: "point \<Rightarrow> real" where
  "pnorm a = sqrt (pdot a a)"

text \<open>\<^verbatim>\<open>pnormalized\<close> returns \<^verbatim>\<open>None\<close> for the zero vector.\<close>

definition pnormalized :: "point \<Rightarrow> point option" where
  "pnormalized a = (let n = pnorm a in if n = 0 then None else Some (pmul a (1 / n)))"

section \<open>OpenGL\<close>

type_synonym transform = "point \<Rightarrow> point"

definition GL_MODELVIEW :: nat where "GL_MODELVIEW = 5888"
definition GL_PROJECTION :: nat where "GL_PROJECTION = 5889"

datatype gl_call =
    glMatrixMode nat
  | glPushMatrix
  | glPopMatrix
  | glLoadIdentity
  | glTranslatef real real real
  | glRotatef real real real real
  | glColor4f real real real real
  | glFinish
  | glutSolidCone real real nat nat

record gl_state =
  matrix_mode :: nat
  stacks :: "nat \<Rightarrow> transform list"
  cones :: "(transform \<times> real \<times> real) list"

text \<open>The rotation of \<open>glRotatef\<close>: Rodrigues' formula about the unit axis \<open>u\<close>.\<close>

definition rotation :: "real \<Rightarrow> point \<Rightarrow> transform" where
  "rotation angle axis =
     (let n = pnorm axis; u = pmul axis (1 / n); t = angle * pi / 180
      in if n = 0 then id
         else (\<lambda>v. padd (padd (pmul v (cos t)) (pmul (pcross u v) (sin t)))
                        (pmul u (pdot u v * (1 - cos t)))))"

definition translation :: "real \<Rightarrow> real \<Rightarrow> real \<Rightarrow> transform" where
  "translation x y z = (\<lambda>v. padd v (x, y, z))"

definition top_matrix :: "gl_state \<Rightarrow> nat \<Rightarrow> transform" where
  "top_matrix st m = (case stacks st m of [] \<Rightarrow> id | t # _ \<Rightarrow> t)"

text \<open>Replacing the top of the current stack; pushing duplicates it; popping the last
  matrix is a stack underflow, which GL ignores.\<close>

definition set_top :: "transform \<Rightarrow> gl_state \<Rightarrow> gl_state" where
  "set_top t st =
     (let m = matrix_mode st in
      case stacks st m of [] \<Rightarrow> st | _ # rest \<Rightarrow> st\<lparr>stacks := (stacks st)(m := t # rest)\<rparr>)"

fun gl_exec1 :: "gl_call \<Rightarrow> gl_state \<Rightarrow> gl_state" where
  "gl_exec1 (glMatrixMode m) st = st\<lparr>matrix_mode := m\<rparr>"
| "gl_exec1 glPushMatrix st =
     (let m = matrix_mode st in
      case stacks st m of [] \<Rightarrow> st | t # rest \<Rightarrow> st\<lparr>stacks := (stacks st)(m := t # t # rest)\<rparr>)"
| "gl_exec1 glPopMatrix st =
     (let m = matrix_mode st in
      case stacks st m of
        t # t' # rest \<Rightarrow> st\<lparr>stacks := (stacks st)(m := t' # rest)\<rparr>
      | _ \<Rightarrow> st)"
| "gl_exec1 glLoadIdentity st = set_top id st"
| "gl_exec1 (glTranslatef x y z) st =
     set_top (top_matrix st (matrix_mode st) \<circ> translation x y z) st"
| "gl_exec1 (glRotatef a x y z) st =
     set_top (top_matrix st (matrix_mode st) \<circ> rotation a (x, y, z)) st"
| "gl_exec1 (glColor4f r g b a) st = st"
| "gl_exec1 glFinish st = st"
| "gl_exec1 (glutSolidCone base height slices stacks') st =
     st\<lparr>cones := cones st @ [(top_matrix st GL_MODELVIEW, base, height)]\<rparr>"

fun gl_exec :: "gl_call list \<Rightarrow> gl_state \<Rightarrow> gl_state" where
  "gl_exec [] st = st"
| "gl_exec (c # cs) st = gl_exec cs (gl_exec1 c st)"

section \<open>The decorators\<close>

text \<open>\<^verbatim>\<open>keep_gl_mode\<close> (lines 36--42) and \<^verbatim>\<open>keep_matrix\<close> (lines 44--54) around a
  drawing function.\<close>

definition keep_gl_mode :: "(gl_state \<Rightarrow> gl_state) \<Rightarrow> gl_state \<Rightarrow> gl_state" where
  "keep_gl_mode func st =
     (let prev_mode = matrix_mode st; st1 = func st in gl_exec1 (glMatrixMode prev_mode) st1)"

definition keep_matrix :: "(gl_state \<Rightarrow> gl_state) \<Rightarrow> gl_state \<Rightarrow> gl_state" where
  "keep_matrix func st =
     (let pushed_matrix_mode = matrix_mode st;
          st1 = gl_exec1 glPushMatrix st;
          st2 = func st1;
          final_matrix_mode = matrix_mode st2
      in gl_exec [glMatrixMode pushed_matrix_mode, glPopMatrix, glMatrixMode final_matrix_mode] st2)"

section \<open>The direction cone\<close>

text \<open>The calls of the body of \<^verbatim>\<open>draw_direction_cone\<close> (lines 57--93). A zero-length
  line returns at once; \<^verbatim>\<open>math.asin\<close> outside \<open>[-1, 1]\<close> raises \<^verbatim>\<open>ValueError\<close>, which
  the body catches and returns after the first translation.\<close>

definition direction_cone_calls :: "point \<Rightarrow> point \<Rightarrow> real \<Rightarrow> nat \<Rightarrow> real \<Rightarrow> gl_call list" where
  "direction_cone_calls p1 p2 position precision size' =
     (let distance = psub p2 p1;
          length = pnorm distance
      in case pnormalized distance of
           None \<Rightarrow> []
         | Some direction \<Rightarrow>
             let cone_length = length * size';
                 cone_radius = cone_length / 3;
                 move = (case p1 of (x1, y1, z1) \<Rightarrow> case p2 of (x2, y2, z2) \<Rightarrow>
                           glTranslatef ((x1 + x2) * position) ((y1 + y2) * position) ((z1 + z2) * position));
                 cross = pcross direction (0, 0, -1);
                 finish = [glTranslatef 0 0 (- cone_length * position),
                           glutSolidCone cone_radius cone_length precision 1]
             in case direction of (dx, dy, dz) \<Rightarrow>
                  if pnorm cross \<noteq> 0 then
                    (let s = sqrt (dx ^ 2 + dy ^ 2) in
                     if \<not> (-1 \<le> s \<and> s \<le> 1) then [move]
                     else
                       let angle = arcsin s / pi * 180;
                           angle = (if dz < 0 then 180 - angle else angle)
                       in case cross of (cx, cy, cz) \<Rightarrow> move # glRotatef angle cx cy cz # finish)
                  else if dz = -1 then move # glRotatef 180 1 0 0 # finish
                  else move # finish)"

definition draw_direction_cone :: "point \<Rightarrow> point \<Rightarrow> real \<Rightarrow> nat \<Rightarrow> real \<Rightarrow> gl_state \<Rightarrow> gl_state" where
  "draw_direction_cone p1 p2 position precision size' =
     keep_matrix (gl_exec (direction_cone_calls p1 p2 position precision size'))"

section \<open>The complete model view\<close>

text \<open>The settings \<^verbatim>\<open>draw_complete_model_view\<close> reads (lines 97--121): the cutter is
  given by the calls its \<^verbatim>\<open>to_OpenGL()\<close> makes, the toolpath in progress by the points
  of its paths (\<^verbatim>\<open>None\<close> or empty: falsy), and \<^verbatim>\<open>draw_toolpath\<close>, defined elsewhere, by
  the calls it makes for a list of moves.\<close>

record view_settings =
  show_drill :: bool
  cutter :: "gl_call list option"
  color_cutter :: "real \<times> real \<times> real \<times> real"
  show_drill_progress :: bool
  toolpath_in_progress :: "point list list option"

definition model_view_calls ::
  "((point \<times> bool) list \<Rightarrow> gl_call list) \<Rightarrow> view_settings \<Rightarrow> gl_call list" where
  "model_view_calls draw_toolpath settings =
     [glMatrixMode GL_MODELVIEW, glLoadIdentity] @
     (if show_drill settings then
        (case cutter settings of
           None \<Rightarrow> []
         | Some cutter_calls \<Rightarrow>
             (case color_cutter settings of (r, g, b, a) \<Rightarrow> [glColor4f r g b a, glFinish]) @ cutter_calls)
      else []) @
     (case toolpath_in_progress settings of
        None \<Rightarrow> []
      | Some paths \<Rightarrow>
          if show_drill_progress settings \<and> paths \<noteq> []
          then draw_toolpath (concat (map (\<lambda>points. map (\<lambda>point. (point, False)) points) paths))
          else [])"

definition draw_complete_model_view ::
  "((point \<times> bool) list \<Rightarrow> gl_call list) \<Rightarrow> view_settings \<Rightarrow> gl_state \<Rightarrow> gl_state" where
  "draw_complete_model_view draw_toolpath settings =
     keep_gl_mode (keep_matrix (gl_exec (model_view_calls draw_toolpath settings)))"

section \<open>Calls that keep the stacks\<close>

text \<open>Calls other than mode changes, pushes and pops change only the top of the current
  stack and the cones drawn.\<close>

fun flat_call :: "gl_call \<Rightarrow> bool" where
  "flat_call (glMatrixMode _) = False"
| "flat_call glPushMatrix = False"
| "flat_call glPopMatrix = False"
| "flat_call _ = True"

section \<open>Fixtures\<close>

text \<open>The state GL starts in: model-view mode, every stack holding the identity, nothing
  drawn; and settings that draw neither the drill nor a toolpath in progress.\<close>

definition gl_init :: gl_state where
  "gl_init = \<lparr>matrix_mode = GL_MODELVIEW, stacks = (\<lambda>_. [id]), cones = []\<rparr>"

definition plain_settings :: view_settings where
  "plain_settings = \<lparr>show_drill = False, cutter = None, color_cutter = (1, 1, 1, 1),
                      show_drill_progress = False, toolpath_in_progress = None\<rparr>"

section \<open>Lemmas\<close>

lemma gl_exec_append [simp]: "gl_exec (cs @ ds) st = gl_exec ds (gl_exec cs st)"
  by (induction cs arbitrary: st) auto

lemma set_top_stack:
  "stacks st (matrix_mode st) = t # rest \<Longrightarrow>
     matrix_mode (set_top t' st) = matrix_mode st \<and>
     stacks (set_top t' st) = (stacks st)(matrix_mode st := t' # rest) \<and> cones (set_top t' st) = cones st"
  by (simp add: set_top_def)

lemma flat_exec1:
  assumes "flat_call c" "stacks st (matrix_mode st) = t # rest"
  shows "\<exists>t'. matrix_mode (gl_exec1 c st) = matrix_mode st \<and>
           stacks (gl_exec1 c st) = (stacks st)(matrix_mode st := t' # rest)"
  using assms
proof (cases c)
  case (glutSolidCone base height sl st')
  then show ?thesis using assms(2) by (intro exI [of _ t]) auto
qed (use set_top_stack in fastforce)+

lemma flat_exec:
  assumes "list_all flat_call cs" "stacks st (matrix_mode st) = t # rest"
  shows "\<exists>t'. matrix_mode (gl_exec cs st) = matrix_mode st \<and>
           stacks (gl_exec cs st) = (stacks st)(matrix_mode st := t' # rest)"
  using assms
proof (induction cs arbitrary: st t)
  case (Cons c cs)
  obtain t1 where m1: "matrix_mode (gl_exec1 c st) = matrix_mode st"
    and s1: "stacks (gl_exec1 c st) = (stacks st)(matrix_mode st := t1 # rest)"
    using flat_exec1 Cons.prems by fastforce
  then have top1: "stacks (gl_exec1 c st) (matrix_mode (gl_exec1 c st)) = t1 # rest" by simp
  have "list_all flat_call cs" using Cons.prems(1) by simp
  from Cons.IH [OF this top1] obtain t' where
    "matrix_mode (gl_exec cs (gl_exec1 c st)) = matrix_mode (gl_exec1 c st)"
    "stacks (gl_exec cs (gl_exec1 c st)) = (stacks (gl_exec1 c st))(matrix_mode (gl_exec1 c st) := t' # rest)"
    by blast
  then show ?case using m1 s1 by (intro exI [of _ t']) simp
next
  case Nil
  then show ?case by (intro exI [of _ t]) (simp add: fun_upd_idem)
qed

text \<open>Around a body of such calls, \<^verbatim>\<open>keep_matrix\<close> restores the mode and every stack.\<close>

lemma keep_matrix_flat:
  assumes "list_all flat_call cs" "stacks st (matrix_mode st) \<noteq> []"
  shows "matrix_mode (keep_matrix (gl_exec cs) st) = matrix_mode st \<and>
         stacks (keep_matrix (gl_exec cs) st) = stacks st \<and>
         cones (keep_matrix (gl_exec cs) st) = cones (gl_exec cs (gl_exec1 glPushMatrix st))"
proof -
  obtain t rest where s: "stacks st (matrix_mode st) = t # rest" using assms(2) by (cases "stacks st (matrix_mode st)") auto
  let ?st1 = "gl_exec1 glPushMatrix st"
  have s1: "matrix_mode ?st1 = matrix_mode st" "stacks ?st1 (matrix_mode ?st1) = t # t # rest"
    "stacks ?st1 = (stacks st)(matrix_mode st := t # t # rest)"
    using s by (simp_all add: Let_def)
  obtain t' where "matrix_mode (gl_exec cs ?st1) = matrix_mode st"
    "stacks (gl_exec cs ?st1) = (stacks st)(matrix_mode st := t' # t # rest)"
    using flat_exec [OF assms(1) s1(2)] s1 by auto
  then show ?thesis using s by (simp add: keep_matrix_def Let_def fun_upd_idem)
qed


lemma pnormalized_unit:
  assumes "pnormalized v = Some d"
  shows "pdot d d = 1 \<and> d = pmul v (1 / pnorm v) \<and> 0 < pnorm v"
proof -
  obtain a b c where v: "v = (a, b, c)" by (cases v) auto
  have n: "pnorm v \<noteq> 0" and d: "d = pmul v (1 / pnorm v)"
    using assms by (auto simp: pnormalized_def Let_def split: if_splits)
  have sq: "(pnorm v)\<^sup>2 = a\<^sup>2 + b\<^sup>2 + c\<^sup>2"
    by (simp add: pnorm_def pdot_def v power2_eq_square add_nonneg_nonneg)
  have "0 \<le> pnorm v" by (simp add: pnorm_def pdot_def v add_nonneg_nonneg)
  then have pos: "0 < pnorm v" using n by simp
  have pd: "pdot d d = (a\<^sup>2 + b\<^sup>2 + c\<^sup>2) / (pnorm v)\<^sup>2"
    by (simp add: d v pmul_def pdot_def power2_eq_square add_divide_distrib)
  have nz: "a\<^sup>2 + b\<^sup>2 + c\<^sup>2 \<noteq> 0" using sq n by (metis zero_eq_power2)
  have "pdot d d = 1" using pd sq nz by simp
  with d pos show ?thesis by simp
qed

text \<open>The rotation the body builds turns the cone's axis onto the line direction.\<close>

lemma rotation_cross_axis:
  assumes unit: "dx\<^sup>2 + dy\<^sup>2 + dz\<^sup>2 = 1" and r: "0 < sqrt (dx\<^sup>2 + dy\<^sup>2)"
  shows "rotation (if dz < 0 then 180 - arcsin (sqrt (dx\<^sup>2 + dy\<^sup>2)) / pi * 180
                   else arcsin (sqrt (dx\<^sup>2 + dy\<^sup>2)) / pi * 180)
           (- dy, dx, 0) (0, 0, s) = (dx * s, dy * s, dz * s)"
proof -
  let ?r = "sqrt (dx\<^sup>2 + dy\<^sup>2)"
  let ?a = "if dz < 0 then 180 - arcsin ?r / pi * 180 else arcsin ?r / pi * 180"
  let ?t = "?a * pi / 180"
  have c: "pcross (dx, dy, dz) (0, 0, -1) = (- dy, dx, 0)" by (simp add: pcross_def)
  have n: "pnorm (- dy, dx, 0) = ?r" by (simp add: pnorm_def pdot_def power2_eq_square add.commute)
  have r2: "?r\<^sup>2 = dx\<^sup>2 + dy\<^sup>2" by simp
  have "dx\<^sup>2 + dy\<^sup>2 \<le> 1" using unit by (metis le_add_same_cancel1 zero_le_power2)
  then have r1: "?r \<le> 1" by simp
  have m1: "- 1 \<le> ?r" using r by linarith
  have "cos (arcsin ?r) = sqrt (1 - ?r\<^sup>2)" using cos_arcsin [OF m1 r1] .
  also have "1 - ?r\<^sup>2 = dz\<^sup>2" using unit r2 by simp
  finally have cosa: "cos (arcsin ?r) = \<bar>dz\<bar>" by simp
  have nz: "\<not> (dx = 0 \<and> dy = 0)" using r by auto
  define \<theta> where "\<theta> = (if dz < 0 then pi - arcsin ?r else arcsin ?r)"
  have tv: "?a * pi / 180 = \<theta>" by (simp add: \<theta>_def field_simps)
  have sc: "sin \<theta> = ?r \<and> cos \<theta> = dz"
    using cosa m1 r1 by (auto simp: \<theta>_def)
  have "rotation ?a (- dy, dx, 0) (0, 0, s) = (dx * s * sin \<theta> / ?r, dy * s * sin \<theta> / ?r, s * cos \<theta>)"
    using r n nz unfolding rotation_def Let_def tv
    by (simp add: padd_def pmul_def pcross_def pdot_def field_simps) (use nz in blast)
  also have "\<dots> = (dx * s, dy * s, dz * s)" using sc r by simp
  finally show ?thesis using c by simp
qed

text \<open>The calls of a cone drawn after a translation, with and without a rotation.\<close>

lemma exec_cone_rotated:
  assumes "matrix_mode st = GL_MODELVIEW" "stacks st GL_MODELVIEW = T # rest"
  shows "cones (gl_exec [glTranslatef a b c, glRotatef ang x y z, glTranslatef 0 0 e, glutSolidCone r h sl sk] st) =
           cones st @ [(T \<circ> translation a b c \<circ> rotation ang (x, y, z) \<circ> translation 0 0 e, r, h)]"
  using assms by (simp add: set_top_def top_matrix_def comp_assoc)

lemma exec_cone_straight:
  assumes "matrix_mode st = GL_MODELVIEW" "stacks st GL_MODELVIEW = T # rest"
  shows "cones (gl_exec [glTranslatef a b c, glTranslatef 0 0 e, glutSolidCone r h sl sk] st) =
           cones st @ [(T \<circ> translation a b c \<circ> translation 0 0 e, r, h)]"
  using assms by (simp add: set_top_def top_matrix_def comp_assoc)

lemma pnorm_zero_iff: "pnorm v = 0 \<longleftrightarrow> v = (0, 0, 0)"
  by (cases v) (simp add: pnorm_def pdot_def add_nonneg_eq_0_iff)

lemma rotation_180_x: "rotation 180 (1, 0, 0) (0, 0, u) = (0, 0, - u)"
  by (simp add: rotation_def pnorm_def pdot_def pmul_def padd_def pcross_def)

lemma pcross_down: "pcross (dx, dy, dz) (0, 0, -1) = (- dy, dx, 0)"
  by (simp add: pcross_def)

lemma pnorm_cross_down: "pnorm (- dy, dx, 0) = sqrt (dx\<^sup>2 + dy\<^sup>2)"
  by (simp add: pnorm_def pdot_def power2_eq_square add.commute)

text \<open>For a unit direction, the calls of the body after the first translation place
  the cone's z axis along the direction: one of the three branches of the body applies.\<close>

lemma direction_cone_cones:
  assumes pn: "pnormalized (psub p2 p1) = Some (dx, dy, dz)"
    and m: "matrix_mode st = GL_MODELVIEW" and s: "stacks st GL_MODELVIEW = T # rest"
  shows "\<exists>R. (\<forall>u. R (0, 0, u) = (dx * u, dy * u, dz * u)) \<and>
           cones (gl_exec (direction_cone_calls p1 p2 position precision size') st) =
             cones st @ [(T \<circ> (\<lambda>v. padd v (pmul (padd p1 p2) position)) \<circ> R \<circ>
                          translation 0 0 (- (pnorm (psub p2 p1) * size') * position),
                          pnorm (psub p2 p1) * size' / 3, pnorm (psub p2 p1) * size')]"
proof -
  obtain x1 y1 z1 x2 y2 z2 where p: "p1 = (x1, y1, z1)" "p2 = (x2, y2, z2)"
    by (cases p1, cases p2) auto
  let ?L = "pnorm (psub p2 p1)"
  have "pdot (dx, dy, dz) (dx, dy, dz) = 1" using pnormalized_unit [OF pn] by blast
  then have unit: "dx\<^sup>2 + dy\<^sup>2 + dz\<^sup>2 = 1" by (simp add: pdot_def power2_eq_square)
  have mv: "translation ((x1 + x2) * position) ((y1 + y2) * position) ((z1 + z2) * position) =
              (\<lambda>v. padd v (pmul (padd p1 p2) position))"
    by (simp add: translation_def pmul_def padd_def p)
  consider (rot) "0 < sqrt (dx\<^sup>2 + dy\<^sup>2)" | (down) "dx = 0" "dy = 0" "dz = -1"
    | (up) "dx = 0" "dy = 0" "dz \<noteq> -1"
  proof (cases "dx\<^sup>2 + dy\<^sup>2 = 0")
    case True
    then have "dx = 0" "dy = 0" by (simp_all add: sum_power2_eq_zero_iff)
    then show ?thesis using that(2,3) by blast
  next
    case False
    then have "0 < dx\<^sup>2 + dy\<^sup>2" by (simp add: add_pos_nonneg less_le)
    then show ?thesis using that(1) by simp
  qed
  then show ?thesis
  proof cases
    case rot
    let ?r = "sqrt (dx\<^sup>2 + dy\<^sup>2)"
    let ?a = "if dz < 0 then 180 - arcsin ?r / pi * 180 else arcsin ?r / pi * 180"
    have "dx\<^sup>2 + dy\<^sup>2 \<le> 1" using unit by (metis le_add_same_cancel1 zero_le_power2)
    then have r1: "?r \<le> 1" by simp
    have m1: "- 1 \<le> ?r" using rot by linarith
    have nz: "\<not> (dx = 0 \<and> dy = 0)" using rot by auto
    have calls: "direction_cone_calls p1 p2 position precision size' =
        [glTranslatef ((x1 + x2) * position) ((y1 + y2) * position) ((z1 + z2) * position),
         glRotatef ?a (- dy) dx 0, glTranslatef 0 0 (- (?L * size') * position),
         glutSolidCone (?L * size' / 3) (?L * size') precision 1]"
      using rot r1 m1 nz pn pnorm_cross_down [of dy dx] unfolding direction_cone_calls_def p
      by (simp add: Let_def pcross_down)
    show ?thesis
      unfolding calls exec_cone_rotated [OF m s] mv
      by (intro exI [of _ "rotation ?a (- dy, dx, 0)"] conjI allI rotation_cross_axis [OF unit rot]) simp
  next
    case down
    have calls: "direction_cone_calls p1 p2 position precision size' =
        [glTranslatef ((x1 + x2) * position) ((y1 + y2) * position) ((z1 + z2) * position),
         glRotatef 180 1 0 0, glTranslatef 0 0 (- (?L * size') * position),
         glutSolidCone (?L * size' / 3) (?L * size') precision 1]"
      using down pn unfolding direction_cone_calls_def p
      by (simp add: Let_def pcross_def pnorm_def pdot_def)
    show ?thesis
      unfolding calls exec_cone_rotated [OF m s] mv
      using rotation_180_x down by (intro exI [of _ "rotation 180 (1, 0, 0)"]) simp
  next
    case up
    then have "dz = 1" using unit by (simp add: power2_eq_1_iff)
    have calls: "direction_cone_calls p1 p2 position precision size' =
        [glTranslatef ((x1 + x2) * position) ((y1 + y2) * position) ((z1 + z2) * position),
         glTranslatef 0 0 (- (?L * size') * position),
         glutSolidCone (?L * size' / 3) (?L * size') precision 1]"
      using up \<open>dz = 1\<close> pn unfolding direction_cone_calls_def p
      by (simp add: Let_def pcross_def pnorm_def pdot_def)
    show ?thesis
      unfolding calls exec_cone_straight [OF m s] mv
      using \<open>dz = 1\<close> up by (intro exI [of _ id]) simp
  qed
qed

lemma direction_cone_flat: "list_all flat_call (direction_cone_calls p1 p2 position precision size')"
  by (simp add: direction_cone_calls_def Let_def split: option.split prod.split)

lemma push_mode [simp]: "matrix_mode (gl_exec1 glPushMatrix st) = matrix_mode st"
  by (simp add: Let_def split: list.split)

lemma keep_matrix_mode_noop:
  assumes "matrix_mode st = m"
  shows "keep_matrix (gl_exec (glMatrixMode m # cs)) st = keep_matrix (gl_exec cs) st"
proof -
  have "gl_exec1 (glMatrixMode m) (gl_exec1 glPushMatrix st) = gl_exec1 glPushMatrix st"
    using push_mode [of st] assms by (simp only: gl_exec1.simps(1)) simp
  then show ?thesis by (simp only: keep_matrix_def gl_exec.simps(2) Let_def)
qed

lemma model_view_calls_head:
  "model_view_calls draw_toolpath settings =
     glMatrixMode GL_MODELVIEW # drop 1 (model_view_calls draw_toolpath settings)"
  by (simp add: model_view_calls_def)

section \<open>Properties of the direction cone\<close>

text \<open>C9. For two distinct points, drawn in model-view mode with current matrix \<open>T\<close>,
  \<^verbatim>\<open>draw_direction_cone\<close> draws exactly one cone, of height \<open>size * length\<close> and base
  radius a third of that, whose axis is the line through \<open>(p1 + p2) * position\<close> in the
  direction \<open>p2 - p1\<close>, the cone's base lying \<open>size * length * position\<close> behind that
  point: the point \<open>(0, 0, t)\<close> of the cone is drawn at
  \<open>T ((p1 + p2) * position + (t - size * length * position) / length * (p2 - p1))\<close>.\<close>

theorem draw_direction_cone_axis:
  assumes "p1 \<noteq> p2" "matrix_mode st = GL_MODELVIEW" "stacks st GL_MODELVIEW = T # rest"
  shows "\<exists>C. cones (draw_direction_cone p1 p2 position precision size' st) =
              cones st @ [(C, pnorm (psub p2 p1) * size' / 3, pnorm (psub p2 p1) * size')] \<and>
            (\<forall>t. C (0, 0, t) = T (padd (pmul (padd p1 p2) position)
                   (pmul (psub p2 p1) ((t - pnorm (psub p2 p1) * size' * position) / pnorm (psub p2 p1)))))"
proof -
  let ?L = "pnorm (psub p2 p1)"
  obtain x1 y1 z1 x2 y2 z2 where p: "p1 = (x1, y1, z1)" "p2 = (x2, y2, z2)"
    by (cases p1, cases p2) auto
  have "psub p2 p1 \<noteq> (0, 0, 0)" using assms(1) by (auto simp: p psub_def)
  then obtain dx dy dz where pn: "pnormalized (psub p2 p1) = Some (dx, dy, dz)"
    by (cases "pmul (psub p2 p1) (1 / pnorm (psub p2 p1))") (auto simp: pnormalized_def pnorm_zero_iff)
  have d: "(dx, dy, dz) = pmul (psub p2 p1) (1 / ?L)" and pos: "0 < ?L"
    using pnormalized_unit [OF pn] by auto
  let ?st1 = "gl_exec1 glPushMatrix st"
  have m1: "matrix_mode ?st1 = GL_MODELVIEW" and s1: "stacks ?st1 GL_MODELVIEW = T # T # rest"
    and c1: "cones ?st1 = cones st"
    using assms(2,3) by (simp_all add: Let_def)
  obtain R where R: "\<forall>u. R (0, 0, u) = (dx * u, dy * u, dz * u)"
    and c: "cones (gl_exec (direction_cone_calls p1 p2 position precision size') ?st1) =
              cones ?st1 @ [(T \<circ> (\<lambda>v. padd v (pmul (padd p1 p2) position)) \<circ> R \<circ>
                             translation 0 0 (- (?L * size') * position), ?L * size' / 3, ?L * size')]"
    using direction_cone_cones [OF pn m1 s1] by blast
  have k: "cones (draw_direction_cone p1 p2 position precision size' st) =
             cones (gl_exec (direction_cone_calls p1 p2 position precision size') ?st1)"
    using keep_matrix_flat [OF direction_cone_flat] assms(2,3) by (simp add: draw_direction_cone_def)
  let ?C = "T \<circ> (\<lambda>v. padd v (pmul (padd p1 p2) position)) \<circ> R \<circ>
               translation 0 0 (- (?L * size') * position)"
  have ax: "?C (0, 0, t) =
             T (padd (pmul (padd p1 p2) position)
                 (pmul (psub p2 p1) ((t - ?L * size' * position) / ?L)))" for t
    using R d pos by (simp add: translation_def p padd_def pmul_def psub_def field_simps)
  show ?thesis
  proof (intro exI [of _ ?C] conjI allI)
    show "cones (draw_direction_cone p1 p2 position precision size' st) =
            cones st @ [(?C, ?L * size' / 3, ?L * size')]" using k c c1 by simp
  qed (rule ax)
qed

theorem draw_direction_cone_axis_witness:
  "(0, 0, 0) \<noteq> ((1, 0, 0) :: point) \<and> matrix_mode gl_init = GL_MODELVIEW \<and>
   stacks gl_init GL_MODELVIEW = id # [] \<and>
   (\<exists>C. cones (draw_direction_cone (0, 0, 0) (1, 0, 0) (1 / 2) 12 (1 / 10) gl_init) =
          cones gl_init @ [(C, pnorm (psub (1, 0, 0) (0, 0, 0)) * (1 / 10) / 3, pnorm (psub (1, 0, 0) (0, 0, 0)) * (1 / 10))] \<and>
        (\<forall>t. C (0, 0, t) = id (padd (pmul (padd (0, 0, 0) (1, 0, 0)) (1 / 2))
               (pmul (psub (1, 0, 0) (0, 0, 0)) ((t - pnorm (psub (1, 0, 0) (0, 0, 0)) * (1 / 10) * (1 / 2)) / pnorm (psub (1, 0, 0) (0, 0, 0)))))))"
proof -
  have h: "(0, 0, 0) \<noteq> ((1, 0, 0) :: point)" "matrix_mode gl_init = GL_MODELVIEW"
    "stacks gl_init GL_MODELVIEW = id # []" by (simp_all add: gl_init_def)
  show ?thesis using h draw_direction_cone_axis [OF h, of "1 / 2" 12 "1 / 10"] by blast
qed

text \<open>When the current matrix stack is not empty, \<^verbatim>\<open>draw_direction_cone\<close> leaves the
  matrix mode and every matrix stack as it found them: \<^verbatim>\<open>keep_matrix\<close> pops what it
  pushed, and the body changes only the top of the current stack.\<close>

lemma draw_direction_cone_keeps_stacks:
  assumes "stacks st (matrix_mode st) \<noteq> []"
  shows "matrix_mode (draw_direction_cone p1 p2 position precision size' st) = matrix_mode st \<and>
         stacks (draw_direction_cone p1 p2 position precision size' st) = stacks st"
  using keep_matrix_flat [OF direction_cone_flat assms] by (simp add: draw_direction_cone_def)

text \<open>The comment says the first translation moves the cone to the middle of the
  line; it moves it to \<open>(p1 + p2) * position\<close>, which is on the line only for
  \<open>position = 1/2\<close> (or a line through the origin). For the line from \<open>(0, 1, 0)\<close> to
  \<open>(2, 1, 0)\<close> and \<open>position = 1/4\<close> the cone's axis runs along \<open>y = 1/2\<close>, beside the line
  \<open>y = 1\<close> it should mark.\<close>

theorem draw_direction_cone_off_line:
  "\<exists>C. cones (draw_direction_cone (0, 1, 0) (2, 1, 0) (1 / 4) 12 (1 / 10) gl_init) = [(C, 1 / 15, 1 / 5)] \<and>
       (\<forall>t. C (0, 0, t) = (9 / 20 + t, 1 / 2, 0))"
proof -
  have n: "pnorm (psub (2, 1, 0) (0, 1, 0)) = 2"
    by (simp add: pnorm_def pdot_def psub_def real_sqrt_eq_iff)
  have pn: "pnormalized (psub (2, 1, 0) (0, 1, 0)) = Some (1, 0, 0)"
    using n by (simp add: pnormalized_def psub_def pmul_def)
  let ?st1 = "gl_exec1 glPushMatrix gl_init"
  have m1: "matrix_mode ?st1 = GL_MODELVIEW" and s1: "stacks ?st1 GL_MODELVIEW = id # [id]"
    and c1: "cones ?st1 = []"
    by (simp_all add: gl_init_def)
  obtain R where R: "\<forall>u. R (0, 0, u) = (1 * u, 0 * u, 0 * u)"
    and c: "cones (gl_exec (direction_cone_calls (0, 1, 0) (2, 1, 0) (1 / 4) 12 (1 / 10)) ?st1) =
              cones ?st1 @ [(id \<circ> (\<lambda>v. padd v (pmul (padd (0, 1, 0) (2, 1, 0)) (1 / 4))) \<circ> R \<circ>
                translation 0 0 (- (pnorm (psub (2, 1, 0) (0, 1, 0)) * (1 / 10)) * (1 / 4)),
                pnorm (psub (2, 1, 0) (0, 1, 0)) * (1 / 10) / 3, pnorm (psub (2, 1, 0) (0, 1, 0)) * (1 / 10))]"
    using direction_cone_cones [OF pn m1 s1] by blast
  have k: "cones (draw_direction_cone (0, 1, 0) (2, 1, 0) (1 / 4) 12 (1 / 10) gl_init) =
             cones (gl_exec (direction_cone_calls (0, 1, 0) (2, 1, 0) (1 / 4) 12 (1 / 10)) ?st1)"
    using keep_matrix_flat [OF direction_cone_flat] by (simp add: draw_direction_cone_def gl_init_def)
  let ?C = "(\<lambda>v. padd v (pmul (padd (0, 1, 0) (2, 1, 0)) (1 / 4))) \<circ> R \<circ> translation 0 0 (- 1 / 20)"
  show ?thesis
  proof (intro exI [of _ ?C] conjI allI)
    show "cones (draw_direction_cone (0, 1, 0) (2, 1, 0) (1 / 4) 12 (1 / 10) gl_init) = [(?C, 1 / 15, 1 / 5)]"
      using k c c1 n by simp
    show "?C (0, 0, t) = (9 / 20 + t, 1 / 2, 0)" for t
      using R by (simp add: translation_def padd_def pmul_def)
  qed
qed

section \<open>Properties of the complete model view\<close>

text \<open>Entered in model-view mode, and with a cutter and a toolpath drawing that only
  change the current matrix, \<^verbatim>\<open>draw_complete_model_view\<close> restores the mode and every
  matrix stack.\<close>

theorem draw_complete_model_view_keeps_modelview:
  assumes "matrix_mode st = GL_MODELVIEW" "stacks st GL_MODELVIEW \<noteq> []"
    and "list_all flat_call (drop 1 (model_view_calls draw_toolpath settings))"
  shows "matrix_mode (draw_complete_model_view draw_toolpath settings st) = GL_MODELVIEW \<and>
         stacks (draw_complete_model_view draw_toolpath settings st) = stacks st"
proof -
  have k: "keep_matrix (gl_exec (model_view_calls draw_toolpath settings)) st =
             keep_matrix (gl_exec (drop 1 (model_view_calls draw_toolpath settings))) st"
    using keep_matrix_mode_noop [OF assms(1)] model_view_calls_head by metis
  show ?thesis
    using keep_matrix_flat [OF assms(3)] assms(1,2)
    by (simp add: draw_complete_model_view_def keep_gl_mode_def k)
qed

text \<open>Entered in projection mode, \<^verbatim>\<open>draw_complete_model_view\<close> restores the mode and
  the projection stack, which \<^verbatim>\<open>keep_matrix\<close> pushed and popped, but not the model-view
  matrix: the body switches to model view and loads the identity there, so the caller's
  model-view matrix \<open>T\<close> is lost.\<close>

lemma draw_complete_model_view_resets_modelview:
  assumes "matrix_mode st = GL_PROJECTION" "stacks st GL_PROJECTION \<noteq> []"
    and "stacks st GL_MODELVIEW = T # rest"
    and "\<not> show_drill settings" "toolpath_in_progress settings = None"
  shows "matrix_mode (draw_complete_model_view draw_toolpath settings st) = GL_PROJECTION \<and>
         stacks (draw_complete_model_view draw_toolpath settings st) GL_PROJECTION = stacks st GL_PROJECTION \<and>
         stacks (draw_complete_model_view draw_toolpath settings st) GL_MODELVIEW = id # rest"
proof -
  obtain p ps where p: "stacks st GL_PROJECTION = p # ps"
    using assms(2) by (cases "stacks st GL_PROJECTION") auto
  show ?thesis
    using assms(1,3-5) p
    by (simp add: draw_complete_model_view_def keep_gl_mode_def keep_matrix_def model_view_calls_def
                  set_top_def GL_PROJECTION_def GL_MODELVIEW_def)
qed

text \<open>C12. The matrix-stack discipline of the drawing helpers. When the current stack is
  not empty, \<^verbatim>\<open>draw_direction_cone\<close> leaves the matrix mode and every matrix stack as
  it found them (\<^verbatim>\<open>keep_matrix\<close> pops what it pushed, and the body changes only the top
  of the current stack). Entered in projection mode, \<^verbatim>\<open>draw_complete_model_view\<close>
  restores the mode and the projection stack but not the model-view matrix: the body
  switches to model view and loads the identity there, so the caller's model-view
  matrix \<open>T\<close> is lost.\<close>

theorem gl_matrix_discipline:
  "(stacks st (matrix_mode st) \<noteq> [] \<longrightarrow>
      matrix_mode (draw_direction_cone p1 p2 position precision size' st) = matrix_mode st \<and>
      stacks (draw_direction_cone p1 p2 position precision size' st) = stacks st) \<and>
   (matrix_mode st2 = GL_PROJECTION \<and> stacks st2 GL_PROJECTION \<noteq> [] \<and> stacks st2 GL_MODELVIEW = T # rest \<and>
    \<not> show_drill settings \<and> toolpath_in_progress settings = None \<longrightarrow>
      matrix_mode (draw_complete_model_view draw_toolpath settings st2) = GL_PROJECTION \<and>
      stacks (draw_complete_model_view draw_toolpath settings st2) GL_PROJECTION = stacks st2 GL_PROJECTION \<and>
      stacks (draw_complete_model_view draw_toolpath settings st2) GL_MODELVIEW = id # rest)"
  using draw_direction_cone_keeps_stacks [of st p1 p2 position precision size']
    draw_complete_model_view_resets_modelview [of st2 T rest settings draw_toolpath]
  by blast

theorem gl_matrix_discipline_witness:
  "matrix_mode (draw_direction_cone (0, 0, 0) (1, 2, 3) (1 / 2) 12 (1 / 10) gl_init) = matrix_mode gl_init \<and>
   stacks (draw_direction_cone (0, 0, 0) (1, 2, 3) (1 / 2) 12 (1 / 10) gl_init) = stacks gl_init \<and>
   stacks (draw_complete_model_view (\<lambda>_. []) plain_settings
     (gl_init\<lparr>matrix_mode := GL_PROJECTION, stacks := (\<lambda>_. [translation 1 0 0])\<rparr>)) GL_PROJECTION = [translation 1 0 0] \<and>
   stacks (draw_complete_model_view (\<lambda>_. []) plain_settings
     (gl_init\<lparr>matrix_mode := GL_PROJECTION, stacks := (\<lambda>_. [translation 1 0 0])\<rparr>)) GL_MODELVIEW = id # []"
proof -
  let ?st = "gl_init\<lparr>matrix_mode := GL_PROJECTION, stacks := (\<lambda>_. [translation 1 0 0])\<rparr>"
  have h: "stacks gl_init (matrix_mode gl_init) \<noteq> []" by (simp add: gl_init_def)
  have h2: "matrix_mode ?st = GL_PROJECTION \<and> stacks ?st GL_PROJECTION \<noteq> [] \<and>
    stacks ?st GL_MODELVIEW = translation 1 0 0 # [] \<and>
    \<not> show_drill plain_settings \<and> toolpath_in_progress plain_settings = None"
    by (simp add: plain_settings_def)
  show ?thesis
    using gl_matrix_discipline [of gl_init "(0, 0, 0)" "(1, 2, 3)" "1 / 2" 12 "1 / 10" ?st "translation 1 0 0" "[]"
        plain_settings "\<lambda>_. []"] h h2
    by simp
qed

end
