(* ===== verification/Entities.thy ===== *)
theory Entities
  imports Prelude
begin

text \<open>
  \<^verbatim>\<open>ObjectWithAttributes\<close> (lines 672--747 of \<^verbatim>\<open>src/pycam/Plugins/__init__.py\<close>), the
  entities that plugins keep in their lists and persist, with the class-wide registry
  \<^verbatim>\<open>uuid_map\<close>; and \<^verbatim>\<open>filter_list\<close>/\<^verbatim>\<open>get_filter\<close> (lines 750--784). Python values are
  a datatype; an entity is an object of a heap, so that a parameter can refer to
  another entity, and \<^verbatim>\<open>uuid_map\<close> (one dict shared by every subclass, since the class
  attribute is only ever mutated) maps a uuid to an object of the heap.
\<close>

section \<open>Python values, dicts and the heap of entities\<close>

type_synonym ref = nat

datatype pyval =
    VStr string
  | VInt int
  | VNone
  | VRef ref                         \<comment> \<open>an \<^verbatim>\<open>ObjectWithAttributes\<close> object\<close>
  | VList "pyval list"
  | VDict "(string \<times> pyval) list"

type_synonym pydict = "(string \<times> pyval) list"

text \<open>The class attributes of a subclass of \<^verbatim>\<open>ObjectWithAttributes\<close>.\<close>

record entity_class =
  node_key :: string
  defaults :: pydict
  entitylist_parameters :: "string list"
  PERSIST :: bool

record entity =
  ecls :: entity_class
  attrs :: pydict

record entity_store =
  heap :: "ref \<Rightarrow> entity option"
  uuid_map :: "pyval \<Rightarrow> ref option"
  next_ref :: ref

text \<open>\<^verbatim>\<open>d.update(other)\<close>: each entry of \<open>other\<close> in turn is assigned.\<close>

definition dict_update :: "pydict \<Rightarrow> pydict \<Rightarrow> pydict" where
  "dict_update d other = fold (\<lambda>(k, v) acc. AList.update k v acc) other d"

text \<open>The loop \<^verbatim>\<open>for key in keys: if key in d: d[key] = f(key, d[key])\<close>, where \<open>f\<close> may
  raise.\<close>

fun update_keys :: "string list \<Rightarrow> (string \<Rightarrow> pyval \<Rightarrow> pyval result) \<Rightarrow> pydict \<Rightarrow> pydict result" where
  "update_keys [] f d = Inr d"
| "update_keys (key # keys) f d =
     (case map_of d key of
        None \<Rightarrow> update_keys keys f d
      | Some v \<Rightarrow> (case f key v of Inl e \<Rightarrow> Inl e | Inr v' \<Rightarrow> update_keys keys f (AList.update key v' d)))"

text \<open>Hashable values (an entity is a dict, and lists and dicts are not hashable).\<close>

fun py_hashable :: "pyval \<Rightarrow> bool" where
  "py_hashable (VStr _) = True"
| "py_hashable (VInt _) = True"
| "py_hashable VNone = True"
| "py_hashable _ = False"

text \<open>Iterating a value: a list gives its elements, a string its characters, a dict (an
  entity too) its keys; anything else raises \<^verbatim>\<open>TypeError\<close>. A dangling reference
  cannot occur in Python; the model lets it raise \<^verbatim>\<open>TypeError\<close>.\<close>

definition py_iter :: "entity_store \<Rightarrow> pyval \<Rightarrow> pyval list result" where
  "py_iter st v =
     (case v of
        VList xs \<Rightarrow> Inr xs
      | VStr s \<Rightarrow> Inr (map (\<lambda>c. VStr [c]) s)
      | VDict d \<Rightarrow> Inr (map (VStr \<circ> fst) d)
      | VRef r \<Rightarrow> (case heap st r of None \<Rightarrow> Inl TypeError | Some e \<Rightarrow> Inr (map (VStr \<circ> fst) (attrs e)))
      | _ \<Rightarrow> Inl TypeError)"

text \<open>\<^verbatim>\<open>v[key]\<close> for a string key: a dict (an entity too) looks it up and raises
  \<^verbatim>\<open>KeyError\<close> when it is missing; strings, lists, numbers and \<^verbatim>\<open>None\<close> raise
  \<^verbatim>\<open>TypeError\<close>.\<close>

definition py_getkey :: "entity_store \<Rightarrow> pyval \<Rightarrow> string \<Rightarrow> pyval result" where
  "py_getkey st v key =
     (case v of
        VDict d \<Rightarrow> (case map_of d key of None \<Rightarrow> Inl KeyError | Some x \<Rightarrow> Inr x)
      | VRef r \<Rightarrow> (case heap st r of
                    None \<Rightarrow> Inl KeyError
                  | Some e \<Rightarrow> (case map_of (attrs e) key of None \<Rightarrow> Inl KeyError | Some x \<Rightarrow> Inr x))
      | _ \<Rightarrow> Inl TypeError)"

section \<open>The entity operations\<close>

text \<open>\<^verbatim>\<open>_get_by_uuid\<close> (lines 703--705): \<^verbatim>\<open>uuid_map.get(uuid, None)\<close>.\<close>

definition get_by_uuid :: "entity_store \<Rightarrow> pyval \<Rightarrow> pyval result" where
  "get_by_uuid st u =
     (if py_hashable u then Inr (case uuid_map st u of None \<Rightarrow> VNone | Some r \<Rightarrow> VRef r)
      else Inl TypeError)"

text \<open>\<^verbatim>\<open>_register_uuid\<close> (lines 699--701) at the end of \<^verbatim>\<open>__init__\<close>: the object,
  allocated on the heap here, is entered under its \<^verbatim>\<open>uuid\<close> attribute.\<close>

definition register_uuid :: "entity \<Rightarrow> entity_store \<Rightarrow> (ref \<times> entity_store) result" where
  "register_uuid e st =
     (case map_of (attrs e) ''uuid'' of
        None \<Rightarrow> Inl KeyError
      | Some u \<Rightarrow>
          if \<not> py_hashable u then Inl TypeError
          else let r = next_ref st in
            Inr (r, st\<lparr>heap := (heap st)(r \<mapsto> e), uuid_map := (uuid_map st)(u \<mapsto> r),
                       next_ref := Suc r\<rparr>))"

text \<open>\<^verbatim>\<open>get_persist_data\<close> (lines 707--727): a shallow copy in which the entities among
  the parameters are replaced by their uuids, and the lists of entities of the class's
  \<^verbatim>\<open>entitylist_parameters\<close> by lists of uuids (iterating the original parameters).\<close>

definition get_persist_data :: "entity_store \<Rightarrow> entity \<Rightarrow> pydict result" where
  "get_persist_data st e =
     (if \<not> PERSIST (ecls e) then Inr []
      else
        let dict_copy = attrs e in
        case map_of dict_copy ''parameters'' of
          None \<Rightarrow> Inr dict_copy
        | Some (VDict params) \<Rightarrow>
            (case map_res (\<lambda>(key, v). case v of
                              VRef _ \<Rightarrow> map_sum id (Pair key) (py_getkey st v ''uuid'')
                            | _ \<Rightarrow> Inr (key, v)) params of
               Inl err \<Rightarrow> Inl err
             | Inr params1 \<Rightarrow>
                 (case update_keys (entitylist_parameters (ecls e))
                         (\<lambda>key _. case py_iter st (the (map_of params key)) of
                                    Inl err \<Rightarrow> Inl err
                                  | Inr ms \<Rightarrow> map_sum id VList (map_res (\<lambda>m. py_getkey st m ''uuid'') ms))
                         params1 of
                    Inl err \<Rightarrow> Inl err
                  | Inr params2 \<Rightarrow> Inr (AList.update ''parameters'' (VDict params2) dict_copy)))
        | Some _ \<Rightarrow> Inl AttributeError)"

text \<open>\<^verbatim>\<open>unpersist\<close> (lines 729--747): the attributes are merged in; then every string
  among the parameters is taken for a uuid and replaced by its entity, or by \<^verbatim>\<open>None\<close>;
  then each list of the class's \<^verbatim>\<open>entitylist_parameters\<close> is replaced by the entities
  of its uuids that are registered (an entity is a non-empty dict, so it is true).
  \<^verbatim>\<open>self['parameters']\<close> raises \<^verbatim>\<open>KeyError\<close> there when there are no parameters.\<close>

definition resolve_param :: "entity_store \<Rightarrow> pyval \<Rightarrow> pyval" where
  "resolve_param st v = (case v of VStr _ \<Rightarrow> (case uuid_map st v of None \<Rightarrow> VNone | Some r \<Rightarrow> VRef r) | _ \<Rightarrow> v)"

definition resolve_list :: "entity_store \<Rightarrow> string \<Rightarrow> pyval \<Rightarrow> pyval result" where
  "resolve_list st key v =
     (case py_iter st v of
        Inl err \<Rightarrow> Inl err
      | Inr ms \<Rightarrow> map_sum id (\<lambda>ents. VList (filter (\<lambda>x. x \<noteq> VNone) ents)) (map_res (get_by_uuid st) ms))"

definition unpersist :: "entity_store \<Rightarrow> entity \<Rightarrow> pydict \<Rightarrow> entity result" where
  "unpersist st e attributes =
     (let a1 = dict_update (attrs e) attributes in
      case map_of a1 ''parameters'' of
        None \<Rightarrow> (if entitylist_parameters (ecls e) = [] then Inr (e\<lparr>attrs := a1\<rparr>) else Inl KeyError)
      | Some (VDict params) \<Rightarrow>
          (let params1 = map (\<lambda>(key, v). (key, resolve_param st v)) params in
           case update_keys (entitylist_parameters (ecls e)) (resolve_list st) params1 of
             Inl err \<Rightarrow> Inl err
           | Inr params2 \<Rightarrow> Inr (e\<lparr>attrs := AList.update ''parameters'' (VDict params2) a1\<rparr>))
      | Some _ \<Rightarrow> Inl AttributeError)"

text \<open>\<^verbatim>\<open>__init__\<close> (lines 684--697): name and a fresh uuid (\<^verbatim>\<open>uuid.uuid4()\<close>, given
  here as the argument \<open>fresh_uuid\<close>), the class defaults (a deep copy: values are
  immutable in the model), the attributes if any, then the registration.\<close>

definition ObjectWithAttributes_init ::
  "entity_class \<Rightarrow> pydict option \<Rightarrow> string \<Rightarrow> entity_store \<Rightarrow> (ref \<times> entity_store) result" where
  "ObjectWithAttributes_init cls attributes fresh_uuid st =
     (let e0 = \<lparr>ecls = cls,
                attrs = dict_update [(''name'', VStr (node_key cls)), (''uuid'', VStr fresh_uuid)] (defaults cls)\<rparr>
      in case (case attributes of None \<Rightarrow> Inr e0 | Some a \<Rightarrow> unpersist st e0 a) of
           Inl err \<Rightarrow> Inl err
         | Inr e1 \<Rightarrow> register_uuid e1 st)"

section \<open>\<^verbatim>\<open>filter_list\<close> and \<^verbatim>\<open>get_filter\<close>\<close>

text \<open>\<^verbatim>\<open>items[index]\<close> on a Python list: an int, counted from the end when negative;
  out of range raises \<^verbatim>\<open>IndexError\<close>, any other index \<^verbatim>\<open>TypeError\<close>.\<close>

definition list_getitem :: "'a list \<Rightarrow> pyval \<Rightarrow> 'a result" where
  "list_getitem xs v =
     (case v of
        VInt i \<Rightarrow>
          (if 0 \<le> i \<and> i < int (length xs) then Inr (xs ! nat i)
           else if - int (length xs) \<le> i \<and> i < 0 then Inr (xs ! nat (int (length xs) + i))
           else Inl IndexError)
      | _ \<Rightarrow> Inl TypeError)"

text \<open>The inner loop of lines 770--779: the keyword filters in order, breaking at the
  first mismatch or missing attribute (\<^verbatim>\<open>KeyError\<close> is caught); any other exception of
  \<^verbatim>\<open>item[filter_key]\<close> propagates.\<close>

fun item_matches :: "entity_store \<Rightarrow> pyval \<Rightarrow> pydict \<Rightarrow> bool result" where
  "item_matches st item [] = Inr True"
| "item_matches st item ((filter_key, v) # kwargs) =
     (case py_getkey st item filter_key of
        Inr x \<Rightarrow> (if x = v then item_matches st item kwargs else Inr False)
      | Inl err \<Rightarrow> (if err = KeyError then Inr False else Inl err))"

text \<open>The outer loop of lines 768--781: the items whose filters all match.\<close>

fun filter_items :: "entity_store \<Rightarrow> pyval list \<Rightarrow> pydict \<Rightarrow> pyval list result" where
  "filter_items st [] kwargs = Inr []"
| "filter_items st (item # items) kwargs =
     (case item_matches st item kwargs of
        Inl err \<Rightarrow> Inl err
      | Inr ok \<Rightarrow> map_sum id (\<lambda>rest. if ok then item # rest else rest) (filter_items st items kwargs))"

text \<open>Lines 750--767: more than one positional argument gives \<open>[]\<close>; one is a list of
  indices, or, when iterating it or indexing with its elements raises \<^verbatim>\<open>TypeError\<close>,
  a single index, for which \<^verbatim>\<open>IndexError\<close> and \<^verbatim>\<open>TypeError\<close> give \<open>[]\<close>. An
  \<^verbatim>\<open>IndexError\<close> of the list of indices is not caught.\<close>

definition filter_list :: "entity_store \<Rightarrow> pyval list \<Rightarrow> pyval list \<Rightarrow> pydict \<Rightarrow> pyval list result" where
  "filter_list st items args kwargs =
     (if 1 < length args then Inr []
      else
        let selected =
          (if length args = 1 then
             (case (case py_iter st (hd args) of
                      Inl err \<Rightarrow> Inl err
                    | Inr idxs \<Rightarrow> map_res (list_getitem items) idxs) of
                Inl err \<Rightarrow>
                  (if err \<noteq> TypeError then Inl err
                   else (case list_getitem items (hd args) of
                           Inl err' \<Rightarrow> (if err' \<in> {IndexError, TypeError} then Inr None else Inl err')
                         | Inr item \<Rightarrow> Inr (Some [item])))
              | Inr sel \<Rightarrow> Inr (Some sel))
           else Inr (Some items))
        in case selected of
             Inl err \<Rightarrow> Inl err
           | Inr None \<Rightarrow> Inr []
           | Inr (Some items') \<Rightarrow> filter_items st items' kwargs)"

text \<open>\<^verbatim>\<open>get_filter\<close> (lines 783--784): the closure over the list, evaluated against the
  entities as they are when it is called.\<close>

definition get_filter :: "pyval list \<Rightarrow> entity_store \<Rightarrow> pyval list \<Rightarrow> pydict \<Rightarrow> pyval list result" where
  "get_filter items = (\<lambda>st args kwargs. filter_list st items args kwargs)"

section \<open>Well-formed entities\<close>

text \<open>An entity registered under its own uuid, a string.\<close>

definition registered :: "entity_store \<Rightarrow> ref \<Rightarrow> bool" where
  "registered st r =
     (case heap st r of
        None \<Rightarrow> False
      | Some e \<Rightarrow> (case map_of (attrs e) ''uuid'' of
                    Some (VStr s) \<Rightarrow> uuid_map st (VStr s) = Some r
                  | _ \<Rightarrow> False))"

text \<open>A parameter that survives persistence: an entity list of registered entities under
  a key of \<^verbatim>\<open>entitylist_parameters\<close>; elsewhere a registered entity or a value that is
  neither an entity nor a string.\<close>

fun persistable_param :: "entity_store \<Rightarrow> entity_class \<Rightarrow> string \<times> pyval \<Rightarrow> bool" where
  "persistable_param st cls (k, v) =
     (if k \<in> set (entitylist_parameters cls)
      then (case v of VList ms \<Rightarrow> list_all (\<lambda>m. case m of VRef r \<Rightarrow> registered st r | _ \<Rightarrow> False) ms | _ \<Rightarrow> False)
      else (case v of VRef r \<Rightarrow> registered st r | VStr _ \<Rightarrow> False | _ \<Rightarrow> True))"

definition persistable :: "entity_store \<Rightarrow> entity \<Rightarrow> bool" where
  "persistable st e =
     (PERSIST (ecls e) \<and> distinct (entitylist_parameters (ecls e)) \<and> distinct (map fst (attrs e)) \<and>
      (case map_of (attrs e) ''parameters'' of
         None \<Rightarrow> entitylist_parameters (ecls e) = []
       | Some (VDict ps) \<Rightarrow> distinct (map fst ps) \<and> list_all (persistable_param st (ecls e)) ps
       | Some _ \<Rightarrow> False))"

text \<open>The keys \<^verbatim>\<open>__init__\<close> gives every entity: name, uuid and the class defaults.\<close>

definition entity_keys_ok :: "entity \<Rightarrow> bool" where
  "entity_keys_ok e =
     (''name'' \<in> set (map fst (attrs e)) \<and> ''uuid'' \<in> set (map fst (attrs e)) \<and>
      set (map fst (defaults (ecls e))) \<subseteq> set (map fst (attrs e)))"

text \<open>The uuid of an entity, and what \<^verbatim>\<open>get_persist_data\<close> makes of a parameter.\<close>

definition uuid_val :: "entity_store \<Rightarrow> ref \<Rightarrow> pyval" where
  "uuid_val st r =
     (case heap st r of None \<Rightarrow> VNone | Some e \<Rightarrow> (case map_of (attrs e) ''uuid'' of None \<Rightarrow> VNone | Some u \<Rightarrow> u))"

fun persist_param :: "entity_store \<Rightarrow> entity_class \<Rightarrow> string \<times> pyval \<Rightarrow> string \<times> pyval" where
  "persist_param st cls (k, v) =
     (k, if k \<in> set (entitylist_parameters cls)
         then (case v of VList ms \<Rightarrow> VList (map (\<lambda>m. case m of VRef r \<Rightarrow> uuid_val st r | _ \<Rightarrow> m) ms) | _ \<Rightarrow> v)
         else (case v of VRef r \<Rightarrow> uuid_val st r | _ \<Rightarrow> v))"

text \<open>What a keyword filter compares against: the attribute of a dict or entity.\<close>

definition entity_attr :: "entity_store \<Rightarrow> pyval \<Rightarrow> string \<Rightarrow> pyval option" where
  "entity_attr st item key =
     (case item of
        VRef r \<Rightarrow> (case heap st r of None \<Rightarrow> None | Some e \<Rightarrow> map_of (attrs e) key)
      | VDict d \<Rightarrow> map_of d key
      | _ \<Rightarrow> None)"

section \<open>Fixtures\<close>

text \<open>A tool, a model, and a task that refers to the tool and lists the model under
  its entity-list parameter \<open>models\<close>, registered under the uuids \<open>u1\<close>, \<open>u2\<close>.\<close>

definition tool_class :: entity_class where
  "tool_class = \<lparr>node_key = ''tool'', defaults = [(''shape'', VStr ''flat'')],
                 entitylist_parameters = [], PERSIST = True\<rparr>"

definition model_class :: entity_class where
  "model_class = \<lparr>node_key = ''model'', defaults = [], entitylist_parameters = [], PERSIST = True\<rparr>"

definition task_class :: entity_class where
  "task_class = \<lparr>node_key = ''task'', defaults = [], entitylist_parameters = [''models''], PERSIST = True\<rparr>"

definition demo_tool :: entity where
  "demo_tool = \<lparr>ecls = tool_class, attrs = [(''name'', VStr ''tool''), (''uuid'', VStr ''u1''),
                                            (''shape'', VStr ''flat'')]\<rparr>"

definition demo_model :: entity where
  "demo_model = \<lparr>ecls = model_class, attrs = [(''name'', VStr ''model''), (''uuid'', VStr ''u2'')]\<rparr>"

definition demo_store :: entity_store where
  "demo_store = \<lparr>heap = [0 \<mapsto> demo_tool, 1 \<mapsto> demo_model],
                 uuid_map = [VStr ''u1'' \<mapsto> 0, VStr ''u2'' \<mapsto> 1], next_ref = 2\<rparr>"

definition demo_task :: entity where
  "demo_task = \<lparr>ecls = task_class, attrs = [(''name'', VStr ''task''), (''uuid'', VStr ''u3''),
     (''parameters'', VDict [(''tool'', VRef 0), (''models'', VList [VRef 1]), (''depth'', VInt 3)])]\<rparr>"

section \<open>Dict lemmas\<close>

lemma map_of_dict_update:
  "distinct (map fst other) \<Longrightarrow> map_of (dict_update d other) = map_of d ++ map_of other"
proof (induction other arbitrary: d)
  case (Cons kv other)
  obtain k v where kv: "kv = (k, v)" by fastforce
  have "map_of (dict_update d (kv # other)) = map_of (AList.update k v d) ++ map_of other"
    using Cons by (simp add: dict_update_def kv)
  also have "\<dots> = map_of d ++ map_of (kv # other)"
    using Cons.prems by (auto simp: kv update_conv' map_add_def fun_eq_iff split: option.split
        dest: map_of_eq_None_iff [THEN iffD2])
  finally show ?case .
qed (simp add: dict_update_def)

lemma distinct_dict_update:
  "distinct (map fst d) \<Longrightarrow> distinct (map fst (dict_update d other))"
  by (induction other arbitrary: d) (auto simp: dict_update_def distinct_update)

lemma map_update_absent:
  "key \<notin> fst ` set d \<Longrightarrow> map (\<lambda>(k, x). (k, if k = key then w else x)) d = d"
  by (induction d) auto

lemma update_map_eq:
  "distinct (map fst d) \<Longrightarrow> map_of d key = Some v \<Longrightarrow>
     AList.update key w d = map (\<lambda>(k, x). (k, if k = key then w else x)) d"
  by (induction d) (auto simp: map_update_absent)

lemma update_keys_map:
  assumes "distinct keys" "distinct (map fst d)"
    and "\<And>k v. (k, v) \<in> set d \<Longrightarrow> k \<in> set keys \<Longrightarrow> f k v = Inr (g k v)"
  shows "update_keys keys f d = Inr (map (\<lambda>(k, v). (k, if k \<in> set keys then g k v else v)) d)"
  using assms
proof (induction keys arbitrary: d)
  case Nil
  then show ?case by (simp add: case_prod_beta)
next
  case (Cons key keys)
  show ?case
  proof (cases "map_of d key")
    case None
    then have "key \<notin> fst ` set d" by (simp add: map_of_eq_None_iff)
    then have "update_keys keys f d = Inr (map (\<lambda>(k, v). (k, if k \<in> set (key # keys) then g k v else v)) d)"
      using Cons.IH [of d] Cons.prems by (force intro!: map_cong)
    then show ?thesis using None by simp
  next
    case (Some v)
    have kv: "(key, v) \<in> set d" using Some by (rule map_of_SomeD)
    let ?d' = "AList.update key (g key v) d"
    have d': "?d' = map (\<lambda>(k, x). (k, if k = key then g key v else x)) d"
      using Cons.prems(2) Some by (rule update_map_eq)
    have same: "x = v" if "(key, x) \<in> set d" for x
      using Cons.prems(2) Some that by (metis map_of_is_SomeI option.inject)
    have "update_keys keys f ?d' = Inr (map (\<lambda>(k, x). (k, if k \<in> set keys then g k x else x)) ?d')"
    proof (rule Cons.IH)
      show "distinct keys" using Cons.prems(1) by simp
      show "distinct (map fst ?d')" using Cons.prems(2) by (simp add: distinct_update)
      show "f k x = Inr (g k x)" if "(k, x) \<in> set ?d'" "k \<in> set keys" for k x
      proof -
        have "k \<noteq> key" using Cons.prems(1) that(2) by auto
        then have "(k, x) \<in> set d" using that(1) by (auto simp: d')
        then show ?thesis using Cons.prems(3) that(2) by simp
      qed
    qed
    also have "map (\<lambda>(k, x). (k, if k \<in> set keys then g k x else x)) ?d' =
               map (\<lambda>(k, x). (k, if k \<in> set (key # keys) then g k x else x)) d"
      using Cons.prems(1) same by (auto simp: d' intro!: map_cong)
    finally show ?thesis using Some Cons.prems(3) [OF kv] by simp
  qed
qed

lemma dom_dict_update: "fst ` set (dict_update d other) = fst ` set d \<union> fst ` set other"
proof (induction other arbitrary: d)
  case (Cons kv other)
  obtain k v where kv: "kv = (k, v)" by fastforce
  have "fst ` set (dict_update d (kv # other)) = fst ` set (AList.update k v d) \<union> fst ` set other"
    using Cons.IH by (simp add: dict_update_def kv)
  then show ?case by (auto simp: dom_update kv)
qed (simp add: dict_update_def)

lemma map_add_dom_subset: "dom m1 \<subseteq> dom m2 \<Longrightarrow> m1 ++ m2 = m2"
  by (auto simp: fun_eq_iff map_add_def split: option.split)

section \<open>Persistence lemmas\<close>

lemma fst_persist_param [simp]: "fst (persist_param st cls kv) = fst kv"
  by (cases kv) simp

lemma registered_uuid:
  "registered st r \<Longrightarrow>
     \<exists>s. uuid_val st r = VStr s \<and> uuid_map st (VStr s) = Some r \<and> py_getkey st (VRef r) ''uuid'' = Inr (VStr s)"
  by (auto simp: registered_def uuid_val_def py_getkey_def split: option.splits pyval.splits)

lemma case_registered:
  "(case m of VRef r \<Rightarrow> registered st r | _ \<Rightarrow> False) = (\<exists>r. m = VRef r \<and> registered st r)"
  by (cases m) auto

lemma persistable_param_list:
  "persistable_param st cls (k, v) \<Longrightarrow> k \<in> set (entitylist_parameters cls) \<Longrightarrow>
     \<exists>ms. v = VList ms \<and> (\<forall>m\<in>set ms. \<exists>r. m = VRef r \<and> registered st r)"
  by (cases v) (simp_all add: list_all_iff case_registered)

lemma persistable_param_ref:
  "persistable_param st cls (k, VRef r) \<Longrightarrow> k \<notin> set (entitylist_parameters cls) \<and> registered st r"
  by (cases "k \<in> set (entitylist_parameters cls)") simp_all

lemma get_by_uuid_registered:
  "registered st r \<Longrightarrow> get_by_uuid st (uuid_val st r) = Inr (VRef r)"
  using registered_uuid [of st r] by (auto simp: get_by_uuid_def)

lemma resolve_persist_param:
  "persistable_param st cls (k, v) \<Longrightarrow> k \<notin> set (entitylist_parameters cls) \<Longrightarrow>
     resolve_param st (snd (persist_param st cls (k, v))) = v"
  using registered_uuid by (fastforce simp: resolve_param_def split: pyval.splits)

lemma resolve_list_persist_param:
  assumes "persistable_param st cls (k, v)" "k \<in> set (entitylist_parameters cls)"
  shows "resolve_param st (snd (persist_param st cls (k, v))) = snd (persist_param st cls (k, v)) \<and>
         resolve_list st k (snd (persist_param st cls (k, v))) = Inr v"
proof -
  obtain ms where v: "v = VList ms" and ms: "\<forall>m\<in>set ms. \<exists>r. m = VRef r \<and> registered st r"
    using persistable_param_list [OF assms] by blast
  let ?f = "\<lambda>m. case m of VRef r \<Rightarrow> uuid_val st r | _ \<Rightarrow> m"
  have "map_res (get_by_uuid st) (map ?f ms) = Inr (map (\<lambda>m. m) ms)"
    using ms by (intro map_res_map_Inr) (auto simp: get_by_uuid_registered)
  moreover have "filter (\<lambda>x. x \<noteq> VNone) ms = ms" using ms by (auto intro: filter_True)
  ultimately show ?thesis using assms(2)
    by (simp add: v resolve_param_def resolve_list_def py_iter_def)
qed

lemma get_persist_data_params:
  assumes "persistable st e" "map_of (attrs e) ''parameters'' = Some (VDict ps)"
  shows "get_persist_data st e =
           Inr (AList.update ''parameters'' (VDict (map (persist_param st (ecls e)) ps)) (attrs e))"
proof -
  let ?el = "entitylist_parameters (ecls e)"
  have pp: "persistable_param st (ecls e) (k, v)" if "(k, v) \<in> set ps" for k v
    using assms that by (auto simp: persistable_def list_all_iff)
  have dps: "distinct (map fst ps)" and del: "distinct ?el" and per: "PERSIST (ecls e)"
    using assms by (auto simp: persistable_def)
  let ?p1 = "\<lambda>(k, v). (k, case v of VRef r \<Rightarrow> uuid_val st r | _ \<Rightarrow> v)"
  have l1: "map_res (\<lambda>(key, v). case v of VRef _ \<Rightarrow> map_sum id (Pair key) (py_getkey st v ''uuid'')
                                 | _ \<Rightarrow> Inr (key, v)) ps = Inr (map ?p1 ps)"
  proof (rule map_res_all_Inr)
    fix kv assume kv0: "kv \<in> set ps"
    obtain k v where kv1: "kv = (k, v)" by fastforce
    with kv0 have kv: "kv = (k, v)" "(k, v) \<in> set ps" by simp_all
    show "(case kv of (key, v) \<Rightarrow> case v of VRef _ \<Rightarrow> map_sum id (Pair key) (py_getkey st v ''uuid'')
            | _ \<Rightarrow> Inr (key, v)) = Inr (?p1 kv)"
    proof (cases "\<exists>r. v = VRef r")
      case True
      then obtain r where v: "v = VRef r" by blast
      then have "registered st r" using persistable_param_ref pp [OF kv(2)] by blast
      then obtain s where "uuid_val st r = VStr s" "py_getkey st (VRef r) ''uuid'' = Inr (VStr s)"
        using registered_uuid by blast
      then show ?thesis by (simp add: kv(1) v)
    next
      case False
      then show ?thesis by (cases v) (auto simp: kv(1))
    qed
  qed
  let ?g = "\<lambda>k (x::pyval). case the (map_of ps k) of
              VList ms \<Rightarrow> VList (map (\<lambda>m. case m of VRef r \<Rightarrow> uuid_val st r | _ \<Rightarrow> m) ms) | v \<Rightarrow> v"
  have l2: "update_keys ?el (\<lambda>key _. case py_iter st (the (map_of ps key)) of
                 Inl err \<Rightarrow> Inl err
               | Inr ms \<Rightarrow> map_sum id VList (map_res (\<lambda>m. py_getkey st m ''uuid'') ms)) (map ?p1 ps) =
            Inr (map (\<lambda>(k, v). (k, if k \<in> set ?el then ?g k v else v)) (map ?p1 ps))"
  proof (rule update_keys_map [OF del])
    show "distinct (map fst (map ?p1 ps))" using dps by (simp add: case_prod_beta comp_def)
    fix k x assume kx: "(k, x) \<in> set (map ?p1 ps)" "k \<in> set ?el"
    then obtain v where kv: "(k, v) \<in> set ps" by auto
    then have mv: "map_of ps k = Some v" using dps by simp
    obtain ms where v: "v = VList ms" and ms: "\<forall>m\<in>set ms. \<exists>r. m = VRef r \<and> registered st r"
      using persistable_param_list [OF pp [OF kv] kx(2)] by blast
    have "map_res (\<lambda>m. py_getkey st m ''uuid'') ms =
            Inr (map (\<lambda>m. case m of VRef r \<Rightarrow> uuid_val st r | _ \<Rightarrow> m) ms)"
      using ms registered_uuid by (intro map_res_all_Inr) fastforce
    then show "(case py_iter st (the (map_of ps k)) of
                 Inl err \<Rightarrow> Inl err
               | Inr ms \<Rightarrow> map_sum id VList (map_res (\<lambda>m. py_getkey st m ''uuid'') ms)) = Inr (?g k x)"
      by (simp add: mv v py_iter_def)
  qed
  have pt: "(\<lambda>(k, v). (k, if k \<in> set ?el then ?g k v else v)) (?p1 kv) = persist_param st (ecls e) kv"
    if kv0: "kv \<in> set ps" for kv
  proof -
    obtain k v where kv1: "kv = (k, v)" by fastforce
    with kv0 have kv: "(k, v) \<in> set ps" by simp
    then have "map_of ps k = Some v" using dps by simp
    then show ?thesis using pp [OF kv] by (cases v) (auto simp: kv1)
  qed
  have eq: "map (\<lambda>(k, v). (k, if k \<in> set ?el then ?g k v else v)) (map ?p1 ps) = map (persist_param st (ecls e)) ps"
    unfolding map_map by (rule map_cong [OF refl]) (simp only: comp_apply pt)
  note l2' = l2 [unfolded eq]
  show ?thesis using per assms(2) unfolding get_persist_data_def Let_def by (simp add: l1 l2')
qed

lemma unpersist_params:
  assumes pe: "persistable st e" and par: "map_of (attrs e) ''parameters'' = Some (VDict ps)"
    and cls: "ecls e0 = ecls e" and keys: "fst ` set (attrs e0) \<subseteq> fst ` set (attrs e)"
  shows "\<exists>e'. unpersist st e0 (AList.update ''parameters'' (VDict (map (persist_param st (ecls e)) ps)) (attrs e)) = Inr e' \<and>
           ecls e' = ecls e \<and> map_of (attrs e') = map_of (attrs e)"
proof -
  let ?el = "entitylist_parameters (ecls e)"
  let ?d = "AList.update ''parameters'' (VDict (map (persist_param st (ecls e)) ps)) (attrs e)"
  have pp: "persistable_param st (ecls e) (k, v)" if "(k, v) \<in> set ps" for k v
    using pe par that by (auto simp: persistable_def list_all_iff)
  have da: "distinct (map fst (attrs e))" and dps: "distinct (map fst ps)" and del: "distinct ?el"
    using pe par by (auto simp: persistable_def)
  have dd: "distinct (map fst ?d)" using da by (simp add: distinct_update)
  have "''parameters'' \<in> fst ` set (attrs e)" using par by (force dest: map_of_SomeD)
  then have kd: "fst ` set ?d = fst ` set (attrs e)" by (auto simp: dom_update)
  have m1: "map_of (dict_update (attrs e0) ?d) = map_of ?d"
    using map_of_dict_update [OF dd] keys kd by (simp add: map_add_dom_subset dom_map_of_conv_image_fst)
  have md: "map_of ?d = (map_of (attrs e))(''parameters'' \<mapsto> VDict (map (persist_param st (ecls e)) ps))"
    by (simp add: update_conv')
  let ?params1 = "map (\<lambda>(key, v). (key, resolve_param st v)) (map (persist_param st (ecls e)) ps)"
  have pt_back: "(\<lambda>(k, v). (k, if k \<in> set ?el then the (map_of ps k) else v))
                ((\<lambda>(key, v). (key, resolve_param st v)) (persist_param st (ecls e) kv)) = kv"
    if "kv \<in> set ps" for kv
  proof -
    obtain k v where kv: "kv = (k, v)" by fastforce
    with that have kvs: "(k, v) \<in> set ps" by simp
    then have "map_of ps k = Some v" using dps by simp
    then show ?thesis
      using resolve_persist_param [OF pp [OF kvs]] resolve_list_persist_param [OF pp [OF kvs]]
      by (cases "k \<in> set ?el") (simp_all add: kv del: persist_param.simps, simp_all add: kv)
  qed
  have r1: "update_keys ?el (resolve_list st) ?params1 = Inr ps"
  proof -
    have "update_keys ?el (resolve_list st) ?params1 =
            Inr (map (\<lambda>(k, v). (k, if k \<in> set ?el then the (map_of ps k) else v)) ?params1)"
    proof (rule update_keys_map [OF del])
      show "distinct (map fst ?params1)" using dps by (simp add: comp_def case_prod_beta)
      fix k x assume kx: "(k, x) \<in> set ?params1" "k \<in> set ?el"
      then obtain v where kvs: "(k, v) \<in> set ps" and x: "x = resolve_param st (snd (persist_param st (ecls e) (k, v)))"
        by auto
      then have "map_of ps k = Some v" using dps by simp
      then show "resolve_list st k x = Inr (the (map_of ps k))"
        using resolve_list_persist_param [OF pp [OF kvs] kx(2)] x by simp
    qed
    also have "map (\<lambda>(k, v). (k, if k \<in> set ?el then the (map_of ps k) else v)) ?params1 = ps"
      unfolding map_map by (rule map_idI) (simp only: comp_apply pt_back)
    finally show ?thesis .
  qed
  let ?e' = "e0\<lparr>attrs := AList.update ''parameters'' (VDict ps) (dict_update (attrs e0) ?d)\<rparr>"
  have "unpersist st e0 ?d = Inr ?e'"
    using r1 by (simp add: unpersist_def m1 md cls)
  moreover have "map_of (attrs ?e') = map_of (attrs e)"
    using par by (simp add: update_conv' m1 md fun_upd_idem)
  ultimately show ?thesis using cls by auto
qed

lemma unpersist_get_persist_data:
  assumes pe: "persistable st e" and cls: "ecls e0 = ecls e"
    and keys: "fst ` set (attrs e0) \<subseteq> fst ` set (attrs e)"
  shows "\<exists>d e'. get_persist_data st e = Inr d \<and> unpersist st e0 d = Inr e' \<and>
           ecls e' = ecls e \<and> map_of (attrs e') = map_of (attrs e)"
proof (cases "map_of (attrs e) ''parameters''")
  case None
  have per: "PERSIST (ecls e)" and el: "entitylist_parameters (ecls e) = []"
    and da: "distinct (map fst (attrs e))"
    using pe None by (auto simp: persistable_def)
  have g: "get_persist_data st e = Inr (attrs e)" by (simp add: get_persist_data_def None per)
  have m1: "map_of (dict_update (attrs e0) (attrs e)) = map_of (attrs e)"
    using map_of_dict_update [OF da] keys by (simp add: map_add_dom_subset dom_map_of_conv_image_fst)
  have "unpersist st e0 (attrs e) = Inr (e0\<lparr>attrs := dict_update (attrs e0) (attrs e)\<rparr>)"
    by (simp add: unpersist_def m1 None cls el)
  then show ?thesis using g m1 cls by auto
next
  case (Some v)
  then obtain ps where par: "map_of (attrs e) ''parameters'' = Some (VDict ps)"
    using pe by (cases v) (auto simp: persistable_def)
  show ?thesis
    using get_persist_data_params [OF pe par] unpersist_params [OF pe par cls keys] by auto
qed

lemma unpersist_no_params:
  assumes "map_of (dict_update (attrs e) attributes) ''parameters'' = None"
  shows "unpersist st e attributes =
           (if entitylist_parameters (ecls e) = [] then Inr (e\<lparr>attrs := dict_update (attrs e) attributes\<rparr>)
            else Inl KeyError)"
  using assms by (simp add: unpersist_def)

lemma unpersist_no_entitylists:
  assumes "entitylist_parameters (ecls e) = []" "distinct (map fst attributes)"
    and "map_of attributes ''parameters'' = Some (VDict ps)"
  shows "unpersist st e attributes =
           Inr (e\<lparr>attrs := AList.update ''parameters'' (VDict (map (\<lambda>(key, v). (key, resolve_param st v)) ps))
                          (dict_update (attrs e) attributes)\<rparr>)"
proof -
  have "map_of (dict_update (attrs e) attributes) ''parameters'' = Some (VDict ps)"
    using assms(2,3) by (simp add: map_of_dict_update)
  then show ?thesis using assms(1) by (simp add: unpersist_def)
qed

text \<open>A class with entity lists cannot be built from attributes without parameters
  when its defaults have none either: \<^verbatim>\<open>self['parameters']\<close> raises \<^verbatim>\<open>KeyError\<close>.\<close>

lemma init_without_parameters:
  assumes "entitylist_parameters cls \<noteq> []" "''parameters'' \<notin> fst ` set (defaults cls)"
    and "''parameters'' \<notin> fst ` set attributes"
  shows "ObjectWithAttributes_init cls (Some attributes) fresh_uuid st = Inl KeyError"
proof -
  let ?e0 = "\<lparr>ecls = cls, attrs = dict_update [(''name'', VStr (node_key cls)), (''uuid'', VStr fresh_uuid)] (defaults cls)\<rparr>"
  have "map_of (dict_update (attrs ?e0) attributes) ''parameters'' = None"
    using assms(2,3) by (simp add: map_of_eq_None_iff dom_dict_update)
  then have "unpersist st ?e0 attributes = Inl KeyError" using assms(1) by (simp add: unpersist_no_params)
  then show ?thesis by (simp add: ObjectWithAttributes_init_def)
qed

section \<open>Filter lemmas\<close>

lemma item_matches_attr:
  assumes "(\<exists>d. item = VDict d) \<or> (\<exists>r e. item = VRef r \<and> heap st r = Some e)"
  shows "item_matches st item kwargs = Inr (list_all (\<lambda>(k, v). entity_attr st item k = Some v) kwargs)"
proof (induction kwargs)
  case (Cons kv kwargs)
  obtain k v where kv: "kv = (k, v)" by fastforce
  have g: "py_getkey st item k = (case entity_attr st item k of None \<Rightarrow> Inl KeyError | Some x \<Rightarrow> Inr x)"
    using assms by (auto simp: py_getkey_def entity_attr_def split: option.split)
  show ?case using Cons by (simp add: kv g split: option.split)
qed simp

lemma filter_items_attr:
  assumes "\<forall>item\<in>set items. \<exists>r e. item = VRef r \<and> heap st r = Some e"
  shows "filter_items st items kwargs =
           Inr (filter (\<lambda>item. list_all (\<lambda>(k, v). entity_attr st item k = Some v) kwargs) items)"
  using assms by (induction items) (auto simp: item_matches_attr)

lemma map_res_getitem:
  "\<forall>i\<in>set idxs. i < length items \<Longrightarrow>
     map_res (list_getitem items) (map (VInt \<circ> int) idxs) = Inr (map ((!) items) idxs)"
  by (rule map_res_map_Inr) (simp add: list_getitem_def)

section \<open>Properties of the entities\<close>

text \<open>C11. Persistence round trip: an entity whose parameters refer only to registered
  entities, and hold no other strings, is restored by \<^verbatim>\<open>get_persist_data\<close> and
  \<^verbatim>\<open>CHILD_ENTITY(core, attributes=...)\<close> (the path of
  \<^verbatim>\<open>ListPluginBase.set_persist_data\<close>): the new object has the class and every attribute
  of the original, its references resolve to the same objects, and \<^verbatim>\<open>uuid_map\<close> now
  maps the uuid to the new object.\<close>

theorem persist_roundtrip:
  assumes "persistable st e" "entity_keys_ok e" "map_of (attrs e) ''uuid'' = Some (VStr u)"
  shows "\<exists>d r st' e'. get_persist_data st e = Inr d \<and>
           ObjectWithAttributes_init (ecls e) (Some d) fresh_uuid st = Inr (r, st') \<and>
           heap st' r = Some e' \<and> ecls e' = ecls e \<and> map_of (attrs e') = map_of (attrs e) \<and>
           uuid_map st' (VStr u) = Some r"
proof -
  define e0 where "e0 = \<lparr>ecls = ecls e, attrs = dict_update [(''name'', VStr (node_key (ecls e))),
                                                    (''uuid'', VStr fresh_uuid)] (defaults (ecls e))\<rparr>"
  have keys: "fst ` set (attrs e0) \<subseteq> fst ` set (attrs e)"
    using assms(2) by (auto simp: e0_def dom_dict_update entity_keys_ok_def)
  obtain d e' where g: "get_persist_data st e = Inr d" and un: "unpersist st e0 d = Inr e'"
    and c: "ecls e' = ecls e" and m: "map_of (attrs e') = map_of (attrs e)"
    using unpersist_get_persist_data [OF assms(1) _ keys] by (auto simp: e0_def)
  let ?st' = "st\<lparr>heap := (heap st)(next_ref st \<mapsto> e'), uuid_map := (uuid_map st)(VStr u \<mapsto> next_ref st),
                 next_ref := Suc (next_ref st)\<rparr>"
  have "register_uuid e' st = Inr (next_ref st, ?st')"
    using m assms(3) by (simp add: register_uuid_def Let_def)
  then have "ObjectWithAttributes_init (ecls e) (Some d) fresh_uuid st = Inr (next_ref st, ?st')"
    using un by (simp add: ObjectWithAttributes_init_def e0_def [symmetric])
  then show ?thesis using g c m by auto
qed

theorem persist_roundtrip_witness:
  "persistable demo_store demo_task \<and> entity_keys_ok demo_task \<and>
   map_of (attrs demo_task) ''uuid'' = Some (VStr ''u3'') \<and>
   (\<exists>d r st' e'. get_persist_data demo_store demo_task = Inr d \<and>
      ObjectWithAttributes_init (ecls demo_task) (Some d) ''u9'' demo_store = Inr (r, st') \<and>
      heap st' r = Some e' \<and> ecls e' = ecls demo_task \<and> map_of (attrs e') = map_of (attrs demo_task) \<and>
      uuid_map st' (VStr ''u3'') = Some r)"
proof -
  have h: "persistable demo_store demo_task" "entity_keys_ok demo_task"
    "map_of (attrs demo_task) ''uuid'' = Some (VStr ''u3'')"
    by (simp_all add: persistable_def entity_keys_ok_def demo_task_def task_class_def demo_store_def
        registered_def demo_tool_def demo_model_def)
  show ?thesis using h persist_roundtrip [OF h, of "''u9''"] by blast
qed

text \<open>C16. \<^verbatim>\<open>unpersist\<close> takes every string among the parameters for a uuid ("assume
  this is a uuid"): a string parameter that is not a registered uuid, such as a label,
  comes back as \<^verbatim>\<open>None\<close>.\<close>

theorem unpersist_string_parameter_lost:
  assumes "entitylist_parameters (ecls e) = []" "distinct (map fst attributes)"
    and "map_of attributes ''parameters'' = Some (VDict ps)"
    and "map_of ps k = Some (VStr s)" "uuid_map st (VStr s) = None"
  shows "\<exists>e' ps'. unpersist st e attributes = Inr e' \<and>
           map_of (attrs e') ''parameters'' = Some (VDict ps') \<and> map_of ps' k = Some VNone"
  using assms(4,5) unpersist_no_entitylists [OF assms(1-3)]
  by (simp add: update_conv' map_of_map resolve_param_def)

theorem unpersist_string_parameter_lost_witness:
  "entitylist_parameters (ecls demo_tool) = [] \<and>
   distinct (map fst [(''parameters'', VDict [(''label'', VStr ''rough'')])]) \<and>
   map_of [(''parameters'', VDict [(''label'', VStr ''rough'')])] ''parameters'' = Some (VDict [(''label'', VStr ''rough'')]) \<and>
   map_of [(''label'', VStr ''rough'')] ''label'' = Some (VStr ''rough'') \<and>
   uuid_map demo_store (VStr ''rough'') = None \<and>
   (\<exists>e' ps'. unpersist demo_store demo_tool [(''parameters'', VDict [(''label'', VStr ''rough'')])] = Inr e' \<and>
      map_of (attrs e') ''parameters'' = Some (VDict ps') \<and> map_of ps' ''label'' = Some VNone)"
proof -
  have h: "entitylist_parameters (ecls demo_tool) = []"
    "distinct (map fst [(''parameters'', VDict [(''label'', VStr ''rough'')])])"
    "map_of [(''parameters'', VDict [(''label'', VStr ''rough'')])] ''parameters'' = Some (VDict [(''label'', VStr ''rough'')])"
    "map_of [(''label'', VStr ''rough'')] ''label'' = Some (VStr ''rough'')"
    "uuid_map demo_store (VStr ''rough'') = None"
    by (simp_all add: demo_tool_def tool_class_def demo_store_def)
  show ?thesis using h unpersist_string_parameter_lost [OF h] by blast
qed

text \<open>C39. Without positional arguments \<^verbatim>\<open>filter_list\<close> keeps, in order, the entities whose
  attributes equal every keyword argument; with a list of valid indices it does the same
  on the entities at those indices. An out-of-range index inside a list of indices
  raises \<^verbatim>\<open>IndexError\<close>, which is not caught (only \<^verbatim>\<open>TypeError\<close> is, around the
  list comprehension) and propagates to the caller, while the same index given alone is
  caught and gives the empty list.\<close>

theorem filter_list_select:
  assumes "\<forall>item\<in>set items. \<exists>r e. item = VRef r \<and> heap st r = Some e"
    and "\<forall>i\<in>set idxs. i < length items"
  shows "filter_list st items [] kwargs =
           Inr (filter (\<lambda>item. list_all (\<lambda>(k, v). entity_attr st item k = Some v) kwargs) items) \<and>
         filter_list st items [VList (map (VInt \<circ> int) idxs)] kwargs =
           Inr (filter (\<lambda>item. list_all (\<lambda>(k, v). entity_attr st item k = Some v) kwargs) (map ((!) items) idxs)) \<and>
         filter_list st items [VList [VInt (int (length items))]] kwargs = Inl IndexError \<and>
         filter_list st items [VInt (int (length items))] kwargs = Inr []"
proof -
  have sel: "\<forall>item\<in>set (map ((!) items) idxs). \<exists>r e. item = VRef r \<and> heap st r = Some e"
    using assms by auto
  have out: "filter_list st items [VList [VInt (int (length items))]] kwargs = Inl IndexError \<and>
         filter_list st items [VInt (int (length items))] kwargs = Inr []"
    by (simp add: filter_list_def py_iter_def list_getitem_def)
  show ?thesis
    using filter_items_attr [OF assms(1)] filter_items_attr [OF sel] map_res_getitem [OF assms(2)] out
    by (simp add: filter_list_def py_iter_def)
qed

theorem filter_list_select_witness:
  "filter_list demo_store [VRef 0, VRef 1] [] [(''name'', VStr ''model'')] = Inr [VRef 1] \<and>
   filter_list demo_store [VRef 0, VRef 1] [VList [VInt 1]] [] = Inr [VRef 1] \<and>
   filter_list demo_store [VRef 0, VRef 1] [VList [VInt 2]] [] = Inl IndexError \<and>
   filter_list demo_store [VRef 0, VRef 1] [VInt 2] [] = Inr []"
proof -
  have h: "\<forall>item\<in>set [VRef 0, VRef 1]. \<exists>r e. item = VRef r \<and> heap demo_store r = Some e"
    "\<forall>i\<in>set [1::nat]. i < length [VRef 0, VRef 1]"
    by (simp_all add: demo_store_def)
  have a: "filter_list demo_store [VRef 0, VRef 1] [] [(''name'', VStr ''model'')] = Inr [VRef 1]"
    using filter_list_select [OF h, of "[(''name'', VStr ''model'')]"]
    by (simp add: entity_attr_def demo_store_def demo_tool_def demo_model_def)
  have b: "filter_list demo_store [VRef 0, VRef 1] [VList [VInt 1]] [] = Inr [VRef 1] \<and>
      filter_list demo_store [VRef 0, VRef 1] [VList [VInt 2]] [] = Inl IndexError \<and>
      filter_list demo_store [VRef 0, VRef 1] [VInt 2] [] = Inr []"
    using filter_list_select [OF h, of "[]"] by simp
  show ?thesis using a b by simp
qed

end
