(* ===== verification/PluginBase.thy ===== *)
theory PluginBase
  imports Entities "HOL-Library.Sublist"
begin

text \<open>
  The template-driven persistence of \<^verbatim>\<open>PluginBase\<close> (\<^verbatim>\<open>get_persist_data\<close> and
  \<^verbatim>\<open>set_persist_data\<close>, lines 210--255 of \<^verbatim>\<open>src/pycam/Plugins/__init__.py\<close>). A plugin
  class names its persisted core settings by a template, a dict (such as
  \<^verbatim>\<open>PERSIST_GENERAL_PREFERENCES\<close>) whose values are lists of setting names or nested
  templates. The core (outside \<^verbatim>\<open>src/\<close>) is its map of settings. The default argument
  \<^verbatim>\<open>result={}\<close> of \<^verbatim>\<open>get_persist_data\<close> is one dict, created with the function and shared
  by every call that does not pass \<open>result\<close>: it is part of the state.
\<close>

section \<open>Templates and the core\<close>

datatype tmpl = TList "string list" | TSub "(string \<times> tmpl) list"

type_synonym core_settings = "string \<Rightarrow> pyval"

text \<open>\<^verbatim>\<open>d.setdefault(key, v)\<close>.\<close>

definition py_setdefault :: "pydict \<Rightarrow> string \<Rightarrow> pyval \<Rightarrow> pydict" where
  "py_setdefault d key v = (case map_of d key of None \<Rightarrow> AList.update key v d | Some _ \<Rightarrow> d)"

text \<open>\<^verbatim>\<open>d[key]\<close> on plain data (no entity objects occur in persisted settings).\<close>

definition dict_getitem :: "pyval \<Rightarrow> string \<Rightarrow> pyval result" where
  "dict_getitem v key =
     (case v of
        VDict d \<Rightarrow> (case map_of d key of None \<Rightarrow> Inl KeyError | Some x \<Rightarrow> Inr x)
      | _ \<Rightarrow> Inl TypeError)"

text \<open>\<^verbatim>\<open>setting in v\<close>: a key of a dict, an element of a list, a substring of a string;
  anything else is not iterable.\<close>

definition py_contains :: "pyval \<Rightarrow> string \<Rightarrow> bool result" where
  "py_contains v setting =
     (case v of
        VDict d \<Rightarrow> Inr (map_of d setting \<noteq> None)
      | VList xs \<Rightarrow> Inr (VStr setting \<in> set xs)
      | VStr s \<Rightarrow> Inr (sublist setting s)
      | _ \<Rightarrow> Inl TypeError)"

section \<open>\<^verbatim>\<open>get_persist_data\<close>\<close>

text \<open>Lines 222--232, the loop over a template with the \<open>result\<close> dict it fills: each key
  gets a dict (\<^verbatim>\<open>setdefault\<close>), a list of settings is read from the core into it, a
  nested template recurses into it. Assigning into a value that is not a dict raises
  \<^verbatim>\<open>TypeError\<close> (there is nothing to assign for an empty list); recursing into one
  raises \<^verbatim>\<open>AttributeError\<close> at \<^verbatim>\<open>setdefault\<close> (a nested empty template returns it).\<close>

fun persist_template :: "core_settings \<Rightarrow> (string \<times> tmpl) list \<Rightarrow> pydict \<Rightarrow> pydict result"
and persist_entry :: "core_settings \<Rightarrow> string \<Rightarrow> tmpl \<Rightarrow> pydict \<Rightarrow> pydict result" where
  "persist_template core [] result = Inr result"
| "persist_template core ((key, tv) # rest) result =
     (case persist_entry core key tv result of
        Inl e \<Rightarrow> Inl e
      | Inr result' \<Rightarrow> persist_template core rest result')"
| "persist_entry core key (TList params) result =
     (let result1 = py_setdefault result key (VDict []) in
      case the (map_of result1 key) of
        VDict d \<Rightarrow> Inr (AList.update key (VDict (fold (\<lambda>param d. AList.update param (core param) d) params d)) result1)
      | _ \<Rightarrow> (if params = [] then Inr result1 else Inl TypeError))"
| "persist_entry core key (TSub sub) result =
     (let result1 = py_setdefault result key (VDict []) in
      case the (map_of result1 key) of
        VDict d \<Rightarrow> map_sum id (\<lambda>d'. AList.update key (VDict d') result1) (persist_template core sub d)
      | _ \<Rightarrow> (if sub = [] then Inr result1 else Inl AttributeError))"

text \<open>Lines 210--219 and 232, called as \<^verbatim>\<open>get_persist_data(what)\<close>: the template is the
  attribute named \<open>what\<close> (\<^verbatim>\<open>getattr\<close> with a default: absent is \<^verbatim>\<open>None\<close>; the default
  \<open>what=None\<close> raises \<^verbatim>\<open>TypeError\<close>, an attribute name must be a string); an empty one
  gives a fresh \<^verbatim>\<open>{}\<close>; otherwise the shared default dict is filled and returned. The
  result is the returned dict and the default dict afterwards.\<close>

definition plugin_get_persist_data ::
  "(string \<Rightarrow> (string \<times> tmpl) list option) \<Rightarrow> core_settings \<Rightarrow> string option \<Rightarrow> pydict \<Rightarrow>
     (pydict \<times> pydict) result" where
  "plugin_get_persist_data attr core what dflt =
     (case what of
        None \<Rightarrow> Inl TypeError
      | Some w \<Rightarrow>
          (case attr w of
             None \<Rightarrow> Inr ([], dflt)
           | Some template \<Rightarrow>
               if template = [] then Inr ([], dflt)
               else map_sum id (\<lambda>r. (r, r)) (persist_template core template dflt)))"

section \<open>\<^verbatim>\<open>set_persist_data\<close>\<close>

text \<open>Lines 246--252: for each setting of a list, \<^verbatim>\<open>data[key]\<close> is looked up (a missing
  key raises \<^verbatim>\<open>KeyError\<close>), a setting it lacks is skipped with a warning, the others
  are set in the core.\<close>

fun restore_settings :: "string list \<Rightarrow> pyval \<Rightarrow> string \<Rightarrow> core_settings \<Rightarrow> core_settings result" where
  "restore_settings [] data key core = Inr core"
| "restore_settings (setting # settings) data key core =
     (case dict_getitem data key of
        Inl e \<Rightarrow> Inl e
      | Inr dk \<Rightarrow>
          (case py_contains dk setting of
             Inl e \<Rightarrow> Inl e
           | Inr found \<Rightarrow>
               if \<not> found then restore_settings settings data key core
               else (case dict_getitem dk setting of
                       Inl e \<Rightarrow> Inl e
                     | Inr v \<Rightarrow> restore_settings settings data key (core(setting := v)))))"

text \<open>Lines 243--255, the loop over a template; a nested template recurses into
  \<^verbatim>\<open>data[key]\<close>.\<close>

fun restore_template :: "(string \<times> tmpl) list \<Rightarrow> pyval \<Rightarrow> core_settings \<Rightarrow> core_settings result" where
  "restore_template [] data core = Inr core"
| "restore_template ((key, TList settings) # rest) data core =
     (case restore_settings settings data key core of
        Inl e \<Rightarrow> Inl e
      | Inr core' \<Rightarrow> restore_template rest data core')"
| "restore_template ((key, TSub sub) # rest) data core =
     (case dict_getitem data key of
        Inl e \<Rightarrow> Inl e
      | Inr dk \<Rightarrow>
          (case restore_template sub dk core of
             Inl e \<Rightarrow> Inl e
           | Inr core' \<Rightarrow> restore_template rest data core'))"

text \<open>Lines 234--241: \<^verbatim>\<open>getattr(self, what)\<close> without a default raises
  \<^verbatim>\<open>AttributeError\<close> for a missing template; an empty one does nothing.\<close>

definition plugin_set_persist_data ::
  "(string \<Rightarrow> (string \<times> tmpl) list option) \<Rightarrow> string \<Rightarrow> pydict \<Rightarrow> core_settings \<Rightarrow> core_settings result" where
  "plugin_set_persist_data attr what data core =
     (case attr what of
        None \<Rightarrow> Inl AttributeError
      | Some template \<Rightarrow> if template = [] then Inr core else restore_template template (VDict data) core)"

section \<open>Well-formed templates\<close>

text \<open>A template is a dict: its keys are distinct, at every level.\<close>

fun tmpl_ok :: "(string \<times> tmpl) list \<Rightarrow> bool" where
  "tmpl_ok [] = True"
| "tmpl_ok ((key, TList _) # rest) = (key \<notin> fst ` set rest \<and> tmpl_ok rest)"
| "tmpl_ok ((key, TSub sub) # rest) = (key \<notin> fst ` set rest \<and> tmpl_ok sub \<and> tmpl_ok rest)"

text \<open>What a successful \<^verbatim>\<open>get_persist_data\<close> leaves in its result: under each key of a
  list, a dict holding the core's value of every setting of the list; under each key
  of a nested template, what the nested call leaves.\<close>

fun persisted :: "core_settings \<Rightarrow> (string \<times> tmpl) list \<Rightarrow> pydict \<Rightarrow> bool" where
  "persisted core [] d = True"
| "persisted core ((key, TList ps) # rest) d =
     ((case map_of d key of
         Some (VDict dk) \<Rightarrow> list_all (\<lambda>p. map_of dk p = Some (core p)) ps
       | Some _ \<Rightarrow> ps = []
       | None \<Rightarrow> False) \<and> persisted core rest d)"
| "persisted core ((key, TSub sub) # rest) d =
     ((case map_of d key of
         Some (VDict dk) \<Rightarrow> persisted core sub dk
       | Some _ \<Rightarrow> sub = []
       | None \<Rightarrow> False) \<and> persisted core rest d)"

text \<open>The settings a template names, at every level.\<close>

fun tsettings :: "(string \<times> tmpl) list \<Rightarrow> string set" where
  "tsettings [] = {}"
| "tsettings ((key, TList ps) # rest) = set ps \<union> tsettings rest"
| "tsettings ((key, TSub sub) # rest) = tsettings sub \<union> tsettings rest"

section \<open>Fixtures\<close>

text \<open>Three plugins persisting general preferences: one saves \<open>unit\<close>, one \<open>tool\<close>, one
  nests a template under the same key \<open>general\<close>.\<close>

definition demo_core :: core_settings where
  "demo_core = (\<lambda>k. if k = ''unit'' then VStr ''mm'' else if k = ''tool'' then VInt 3 else VNone)"

definition demo_attr_a :: "string \<Rightarrow> (string \<times> tmpl) list option" where
  "demo_attr_a = (\<lambda>w. if w = ''PERSIST_GENERAL_PREFERENCES'' then Some [(''general'', TList [''unit''])] else None)"

definition demo_attr_b :: "string \<Rightarrow> (string \<times> tmpl) list option" where
  "demo_attr_b = (\<lambda>w. if w = ''PERSIST_GENERAL_PREFERENCES'' then Some [(''general'', TList [''tool''])] else None)"

definition demo_attr_c :: "string \<Rightarrow> (string \<times> tmpl) list option" where
  "demo_attr_c = (\<lambda>w. if w = ''PERSIST_GENERAL_PREFERENCES''
                       then Some [(''general'', TSub [(''unit'', TList [''precision''])])] else None)"

section \<open>Lemmas\<close>

lemma map_of_setdefault:
  "map_of (py_setdefault d key v) = (map_of d)(key \<mapsto> (case map_of d key of None \<Rightarrow> v | Some x \<Rightarrow> x))"
  by (auto simp: py_setdefault_def update_conv' fun_eq_iff split: option.split)

lemma map_of_fold_core:
  "map_of (fold (\<lambda>p d. AList.update p (core p) d) ps dd) =
     (\<lambda>k. if k \<in> set ps then Some (core k) else map_of dd k)"
  by (induction ps arbitrary: dd) (auto simp: update_conv' fun_eq_iff)

lemma map_sum_id_Inr: "map_sum id f x = Inr y \<longleftrightarrow> (\<exists>z. x = Inr z \<and> y = f z)"
  by (cases x) auto

lemma persist_entry_other_keys:
  "persist_entry core k tm r = Inr r' \<Longrightarrow> key \<noteq> k \<Longrightarrow> map_of r' key = map_of r key"
  by (cases tm) (auto simp: Let_def map_of_setdefault update_conv' map_sum_id_Inr split: pyval.splits if_splits)

lemma persist_template_other_keys:
  "persist_template core t d0 = Inr d \<Longrightarrow> key \<notin> fst ` set t \<Longrightarrow> map_of d key = map_of d0 key"
proof (induction t arbitrary: d0)
  case (Cons kt rest)
  obtain k tm where kt: "kt = (k, tm)" by fastforce
  from Cons.prems(1) obtain r where e: "persist_entry core k tm d0 = Inr r"
    and rec: "persist_template core rest r = Inr d"
    by (auto simp: kt split: sum.splits)
  have "key \<noteq> k" "key \<notin> fst ` set rest" using Cons.prems(2) kt by auto
  then show ?case using Cons.IH [OF rec] persist_entry_other_keys [OF e] by simp
qed simp

lemma persisted_Cons:
  "persisted core ((k, tm) # rest) d = (persisted core [(k, tm)] d \<and> persisted core rest d)"
  by (cases tm) simp_all

lemma persisted_single_cong:
  "map_of d k = map_of d' k \<Longrightarrow> persisted core [(k, tm)] d = persisted core [(k, tm)] d'"
  by (cases tm) simp_all

lemma tmpl_ok_Cons:
  "tmpl_ok ((k, tm) # rest) = (k \<notin> fst ` set rest \<and> tmpl_ok [(k, tm)] \<and> tmpl_ok rest)"
  by (cases tm) auto

lemma persist_persisted:
  shows "persist_template core t d0 = Inr d \<Longrightarrow> tmpl_ok t \<Longrightarrow> persisted core t d"
    and "persist_entry core k tm r = Inr r' \<Longrightarrow> tmpl_ok [(k, tm)] \<Longrightarrow> persisted core [(k, tm)] r'"
proof (induction core t d0 and core k tm r arbitrary: d and r' rule: persist_template_persist_entry.induct)
  case (2 core key tv rest result)
  from "2.prems"(1) obtain r1 where e: "persist_entry core key tv result = Inr r1"
    and rec: "persist_template core rest r1 = Inr d"
    by (auto split: sum.splits)
  have ok: "key \<notin> fst ` set rest" "tmpl_ok [(key, tv)]" "tmpl_ok rest"
    using "2.prems"(2) tmpl_ok_Cons by blast+
  have "persisted core [(key, tv)] r1" using "2.IH"(1) [OF e ok(2)] .
  moreover have "map_of d key = map_of r1 key" using persist_template_other_keys [OF rec ok(1)] .
  ultimately have "persisted core [(key, tv)] d" using persisted_single_cong by blast
  moreover have "persisted core rest d" using "2.IH"(2) [OF e rec ok(3)] .
  ultimately show ?case by (subst persisted_Cons) blast
next
  case (3 core key params result)
  then show ?case
    by (auto simp: Let_def map_of_setdefault update_conv' map_of_fold_core list_all_iff
             split: pyval.splits if_splits option.splits)
next
  case (4 core key sub result)
  then show ?case
    by (auto simp: Let_def map_of_setdefault update_conv' map_sum_id_Inr
             split: pyval.splits if_splits option.splits)
qed simp

lemma restore_settings_persisted:
  "map_of d key = Some (VDict dk) \<Longrightarrow> list_all (\<lambda>p. map_of dk p = Some (core p)) ps \<Longrightarrow>
     restore_settings ps (VDict d) key c = Inr (\<lambda>q. if q \<in> set ps then core q else c q)"
  by (induction ps arbitrary: c) (auto simp: dict_getitem_def py_contains_def fun_eq_iff)

lemma restore_persisted:
  "data = VDict d \<Longrightarrow> persisted core t d \<Longrightarrow>
     restore_template t data c = Inr (\<lambda>q. if q \<in> tsettings t then core q else c q)"
proof (induction t data c arbitrary: d rule: restore_template.induct)
  case (2 key settings rest data c)
  have "restore_settings settings data key c = Inr (\<lambda>q. if q \<in> set settings then core q else c q)"
    using "2.prems" by (cases "map_of d key")
      (auto simp: restore_settings_persisted dict_getitem_def py_contains_def split: pyval.splits)
  then show ?case using "2.IH" "2.prems" by (auto simp: fun_eq_iff)
next
  case (3 key sub rest data c)
  obtain v where v: "map_of d key = Some v" using "3.prems" by (auto split: option.splits)
  have g: "dict_getitem data key = Inr v" using "3.prems"(1) v by (simp add: dict_getitem_def)
  have "restore_template sub v c = Inr (\<lambda>q. if q \<in> tsettings sub then core q else c q)"
  proof (cases "\<exists>dk. v = VDict dk")
    case True
    then obtain dk where "v = VDict dk" by blast
    then show ?thesis using "3.IH"(1) [OF g, of dk] "3.prems" v by simp
  next
    case False
    then have "sub = []" using "3.prems" v by (cases v) auto
    then show ?thesis by simp
  qed
  then show ?case using "3.IH"(2) [OF g] "3.prems" g by (auto simp: fun_eq_iff)
qed simp

lemma persist_total:
  shows "tmpl_ok t \<Longrightarrow> (\<forall>k\<in>fst ` set t. map_of d0 k = None) \<Longrightarrow> \<exists>d. persist_template core t d0 = Inr d"
    and "tmpl_ok [(k, tm)] \<Longrightarrow> map_of r k = None \<Longrightarrow> \<exists>r'. persist_entry core k tm r = Inr r'"
proof (induction core t d0 and core k tm r rule: persist_template_persist_entry.induct)
  case (2 core key tv rest result)
  have ok: "key \<notin> fst ` set rest" "tmpl_ok [(key, tv)]" "tmpl_ok rest"
    using "2.prems"(1) tmpl_ok_Cons by blast+
  have "map_of result key = None" using "2.prems"(2) by simp
  from "2.IH"(1) [OF ok(2) this] obtain r1 where e: "persist_entry core key tv result = Inr r1"
    by blast
  have "\<forall>k\<in>fst ` set rest. map_of r1 k = None"
  proof
    fix k assume k: "k \<in> fst ` set rest"
    then have "k \<noteq> key" using ok(1) by blast
    have "map_of result k = None" using "2.prems"(2) k by auto
    then show "map_of r1 k = None" using persist_entry_other_keys [OF e \<open>k \<noteq> key\<close>] by simp
  qed
  then obtain d where "persist_template core rest r1 = Inr d" using "2.IH"(2) [OF e] ok(3) by blast
  then show ?case using e by simp
next
  case (3 core key params result)
  then show ?case by (simp add: Let_def map_of_setdefault)
next
  case (4 core key sub result)
  have "tmpl_ok sub" using "4.prems"(1) by simp
  then obtain d where "persist_template core sub [] = Inr d"
    using "4.IH" [of "py_setdefault result key (VDict [])" "[]"] "4.prems"(2) by (auto simp: map_of_setdefault)
  then show ?case using "4.prems"(2) by (simp add: Let_def map_of_setdefault)
qed simp

lemma plugin_persist_restore:
  assumes "attr w = Some template" "tmpl_ok template"
    and "plugin_get_persist_data attr core (Some w) dflt = Inr (d, dflt')"
  shows "plugin_set_persist_data attr w d core' =
           Inr (\<lambda>q. if q \<in> tsettings template then core q else core' q)"
proof (cases "template = []")
  case True
  then show ?thesis using assms by (simp add: plugin_set_persist_data_def)
next
  case False
  then have "persist_template core template dflt = Inr d"
    using assms by (auto simp: plugin_get_persist_data_def map_sum_id_Inr)
  then have "persisted core template d" using persist_persisted(1) assms(2) by blast
  then show ?thesis using assms(1) False restore_persisted by (simp add: plugin_set_persist_data_def)
qed

section \<open>Properties of the persistence\<close>

text \<open>C8. Persistence round trip of a plugin's settings: for a template (a dict at every
  level), the first \<^verbatim>\<open>get_persist_data(what)\<close> returns (it does not raise), the dict it
  returns is the shared default dict, and \<^verbatim>\<open>set_persist_data(what, data)\<close> with it,
  on any core, sets every setting the template names to the value it had when it was
  persisted and leaves every other setting as it was.\<close>

theorem plugin_persist_roundtrip:
  assumes "attr w = Some template" "tmpl_ok template"
  shows "\<exists>d. plugin_get_persist_data attr core (Some w) [] = Inr (d, d) \<and>
           plugin_set_persist_data attr w d core' =
             Inr (\<lambda>q. if q \<in> tsettings template then core q else core' q)"
proof (cases "template = []")
  case True
  then show ?thesis using assms by (simp add: plugin_get_persist_data_def plugin_set_persist_data_def)
next
  case False
  have "\<exists>d. persist_template core template [] = Inr d"
    using persist_total(1) assms(2) by simp
  then obtain d where "persist_template core template [] = Inr d" ..
  then have g: "plugin_get_persist_data attr core (Some w) [] = Inr (d, d)"
    using assms(1) False by (simp add: plugin_get_persist_data_def)
  show ?thesis using g plugin_persist_restore [OF assms g, of core'] by blast
qed

theorem plugin_persist_roundtrip_witness:
  "demo_attr_c ''PERSIST_GENERAL_PREFERENCES'' = Some [(''general'', TSub [(''unit'', TList [''precision''])])] \<and>
   tmpl_ok [(''general'', TSub [(''unit'', TList [''precision''])])] \<and>
   (\<exists>d. plugin_get_persist_data demo_attr_c demo_core (Some ''PERSIST_GENERAL_PREFERENCES'') [] = Inr (d, d) \<and>
        plugin_set_persist_data demo_attr_c ''PERSIST_GENERAL_PREFERENCES'' d (\<lambda>_. VInt 0) =
          Inr (\<lambda>q. if q = ''precision'' then VNone else VInt 0))"
proof -
  have h: "demo_attr_c ''PERSIST_GENERAL_PREFERENCES'' = Some [(''general'', TSub [(''unit'', TList [''precision''])])]"
    "tmpl_ok [(''general'', TSub [(''unit'', TList [''precision''])])]"
    by (simp_all add: demo_attr_c_def)
  have r: "(\<lambda>q. if q \<in> tsettings [(''general'', TSub [(''unit'', TList [''precision''])])]
              then demo_core q else VInt 0) = (\<lambda>q. if q = ''precision'' then VNone else VInt 0)"
    by (simp add: demo_core_def fun_eq_iff)
  show ?thesis
    using h plugin_persist_roundtrip [where attr = demo_attr_c and w = "''PERSIST_GENERAL_PREFERENCES''"
        and core = demo_core and core' = "\<lambda>_. VInt 0", OF h] unfolding r by blast
qed


end
