(* ===== verification/ListPlugin.thy ===== *)
theory ListPlugin
  imports Prelude "HOL-Library.Multiset"
begin

text \<open>
  \<^verbatim>\<open>ListPluginBase\<close> of \<^verbatim>\<open>src/pycam/Plugins/__init__.py\<close> (lines 425--621): a Python
  list of entities that mirrors itself into a GTK tree model. The state is the list
  (\<open>items\<close>) and, when a model view is set, the view: the uuids in the rows of its tree
  model and the selected row indices (what \<^verbatim>\<open>get_selected(index=True, force_list=True)\<close>
  returns). Each item's \<^verbatim>\<open>item["uuid"]\<close> is given by a function \<open>uuid_of\<close>. The
  list methods \<^verbatim>\<open>pop\<close> and \<^verbatim>\<open>insert\<close> are rebound by \<^verbatim>\<open>__init__\<close> to
  \<^verbatim>\<open>_change_wrapper\<close>, which re-synchronises the tree model after every call. The GTK
  operations are modelled from their documentation: \<^verbatim>\<open>ListStore.reorder(new_order)\<close>
  puts the row at old position \<^verbatim>\<open>new_order[p]\<close> at position \<^verbatim>\<open>p\<close>. Observer
  callbacks and the \<^verbatim>\<open>tool-list-changed\<close> event are not modelled.
\<close>

section \<open>Python list operations\<close>

text \<open>\<^verbatim>\<open>list.pop(i)\<close> raises \<^verbatim>\<open>IndexError\<close> out of range; \<^verbatim>\<open>list.insert(i, x)\<close>
  clamps \<^verbatim>\<open>i\<close> to the length.\<close>

definition py_pop :: "'a list \<Rightarrow> nat \<Rightarrow> ('a \<times> 'a list) result" where
  "py_pop xs i = (if i < length xs then Inr (xs ! i, take i xs @ drop (Suc i) xs) else Inl IndexError)"

definition py_insert :: "'a list \<Rightarrow> nat \<Rightarrow> 'a \<Rightarrow> 'a list" where
  "py_insert xs i x = take i xs @ x # drop i xs"

text \<open>\<^verbatim>\<open>list.index(x)\<close>: the first position of \<^verbatim>\<open>x\<close>, \<^verbatim>\<open>ValueError\<close> when absent.\<close>

fun py_index :: "'a list \<Rightarrow> 'a \<Rightarrow> nat result" where
  "py_index [] x = Inl ValueError"
| "py_index (y # ys) x = (if y = x then Inr 0 else map_sum id Suc (py_index ys x))"

section \<open>The tree-model synchronisation\<close>

text \<open>\<^verbatim>\<open>ListStore.reorder(new_order)\<close>: \<^verbatim>\<open>new_order[newpos] = oldpos\<close>.\<close>

definition gtk_reorder :: "'u list \<Rightarrow> nat list \<Rightarrow> 'u list" where
  "gtk_reorder rows new_order = map (\<lambda>newpos. rows ! (new_order ! newpos)) [0..<length rows]"

text \<open>Removing the rows at the given indices, in the given order (lines 516--520).\<close>

fun remove_rows :: "'u list \<Rightarrow> nat list \<Rightarrow> 'u list" where
  "remove_rows rows [] = rows"
| "remove_rows rows (index # rest) = remove_rows (take index rows @ drop (Suc index) rows) rest"

text \<open>\<^verbatim>\<open>_update_gtk_treemodel\<close> (lines 510--537) on the rows of the tree model: the rows
  after the removals, the appends and the reorder, and whether the final check warns.\<close>

definition update_gtk_treemodel :: "'u list \<Rightarrow> 'u list \<Rightarrow> ('u list \<times> bool) result" where
  "update_gtk_treemodel current_uuids treemodel =
     (let removal_indices = [index \<leftarrow> [0..<length treemodel]. treemodel ! index \<notin> set current_uuids];
          rows1 = remove_rows treemodel (rev removal_indices);
          rows2 = rows1 @ [u \<leftarrow> current_uuids. u \<notin> set rows1]
      in case map_res (py_index current_uuids) rows2 of
           Inl e \<Rightarrow> Inl e
         | Inr sorted_indices \<Rightarrow>
             let rows3 = (if sorted_indices \<noteq> [] then gtk_reorder rows2 sorted_indices else rows2)
             in case map_res (py_index current_uuids) rows3 of
                  Inl e \<Rightarrow> Inl e
                | Inr check \<Rightarrow> Inr (rows3, check \<noteq> [0..<length check]))"

section \<open>The plugin state\<close>

record 'u gtk_view =
  rows :: "'u list"
  sel_rows :: "nat list"

record ('a, 'u) list_plugin =
  items :: "'a list"
  view :: "'u gtk_view option"

text \<open>\<^verbatim>\<open>_update_model\<close> (lines 549--552) with \<^verbatim>\<open>_update_gtk_treemodel\<close>, which does
  nothing without a model view (line 511).\<close>

definition update_model :: "('a \<Rightarrow> 'u) \<Rightarrow> ('a, 'u) list_plugin \<Rightarrow> ('a, 'u) list_plugin result" where
  "update_model uuid_of st =
     (case view st of
        None \<Rightarrow> Inr st
      | Some v \<Rightarrow>
          (case update_gtk_treemodel (map uuid_of (items st)) (rows v) of
             Inl e \<Rightarrow> Inl e
           | Inr (rows', warn) \<Rightarrow> Inr (st\<lparr>view := Some (v\<lparr>rows := rows'\<rparr>)\<rparr>)))"

text \<open>The rebound \<^verbatim>\<open>pop\<close> and \<^verbatim>\<open>insert\<close> (lines 437--444).\<close>

definition list_pop ::
  "('a \<Rightarrow> 'u) \<Rightarrow> ('a, 'u) list_plugin \<Rightarrow> nat \<Rightarrow> ('a \<times> ('a, 'u) list_plugin) result" where
  "list_pop uuid_of st index =
     (case py_pop (items st) index of
        Inl e \<Rightarrow> Inl e
      | Inr (item, xs) \<Rightarrow> map_sum id (Pair item) (update_model uuid_of (st\<lparr>items := xs\<rparr>)))"

definition list_insert ::
  "('a \<Rightarrow> 'u) \<Rightarrow> ('a, 'u) list_plugin \<Rightarrow> nat \<Rightarrow> 'a \<Rightarrow> ('a, 'u) list_plugin result" where
  "list_insert uuid_of st index item = update_model uuid_of (st\<lparr>items := py_insert (items st) index item\<rparr>)"

text \<open>\<^verbatim>\<open>get_selected(index=True, force_list=True)\<close> (lines 452--490): the selected row
  indices, \<^verbatim>\<open>None\<close> without a model view.\<close>

definition get_selected :: "('a, 'u) list_plugin \<Rightarrow> nat list option" where
  "get_selected st = map_option sel_rows (view st)"

section \<open>The list actions\<close>

text \<open>\<^verbatim>\<open>ACTION_UP, ACTION_DOWN, ACTION_DELETE, ACTION_CLEAR = range(4)\<close> (line 428).\<close>

definition ACTION_UP :: int where "ACTION_UP = 0"
definition ACTION_DOWN :: int where "ACTION_DOWN = 1"
definition ACTION_DELETE :: int where "ACTION_DELETE = 2"
definition ACTION_CLEAR :: int where "ACTION_CLEAR = 3"

text \<open>The loop over the selected indices (lines 580--596), threading the plugin state and
  \<^verbatim>\<open>new_selection\<close>.\<close>

fun action_loop ::
  "('a \<Rightarrow> 'u) \<Rightarrow> int \<Rightarrow> ('a, 'u) list_plugin \<Rightarrow> nat list \<Rightarrow> nat list \<Rightarrow>
   (('a, 'u) list_plugin \<times> nat list) result" where
  "action_loop uuid_of action st [] new_selection = Inr (st, new_selection)"
| "action_loop uuid_of action st (index # rest) new_selection =
     (if action = ACTION_UP then
        (if 0 < index then
           (case list_pop uuid_of st index of
              Inl e \<Rightarrow> Inl e
            | Inr (item, st1) \<Rightarrow>
                (case list_insert uuid_of st1 (index - 1) item of
                   Inl e \<Rightarrow> Inl e
                 | Inr st2 \<Rightarrow> action_loop uuid_of action st2 rest (new_selection @ [index - 1])))
         else action_loop uuid_of action st rest new_selection)
      else if action = ACTION_DOWN then
        (if int index < int (length (items st)) - 1 then
           (case list_pop uuid_of st index of
              Inl e \<Rightarrow> Inl e
            | Inr (item, st1) \<Rightarrow>
                (case list_insert uuid_of st1 (index + 1) item of
                   Inl e \<Rightarrow> Inl e
                 | Inr st2 \<Rightarrow> action_loop uuid_of action st2 rest (new_selection @ [index + 1])))
         else action_loop uuid_of action st rest new_selection)
      else if action = ACTION_DELETE then
        (case list_pop uuid_of st index of
           Inl e \<Rightarrow> Inl e
         | Inr (item, st1) \<Rightarrow>
             action_loop uuid_of action st1 rest
               (if 0 < length (items st1) then new_selection @ [min index (length (items st1) - 1)]
                else new_selection))
      else action_loop uuid_of action st rest new_selection)"

text \<open>\<^verbatim>\<open>while len(self) > 0: self.pop(0)\<close> (lines 577--578); each pop removes one
  item, so the loop runs \<^verbatim>\<open>len(self)\<close> times.\<close>

fun clear_loop :: "('a \<Rightarrow> 'u) \<Rightarrow> nat \<Rightarrow> ('a, 'u) list_plugin \<Rightarrow> ('a, 'u) list_plugin result" where
  "clear_loop uuid_of 0 st = Inr st"
| "clear_loop uuid_of (Suc n) st =
     (case list_pop uuid_of st 0 of Inl e \<Rightarrow> Inl e | Inr (item, st1) \<Rightarrow> clear_loop uuid_of n st1)"

text \<open>\<^verbatim>\<open>_list_action\<close> (lines 561--604). An unknown action returns early; without a
  model view \<^verbatim>\<open>get_selected\<close> returns \<^verbatim>\<open>None\<close> and \<^verbatim>\<open>None.sort()\<close> raises
  \<^verbatim>\<open>AttributeError\<close>, also for \<^verbatim>\<open>ACTION_CLEAR\<close>. After \<^verbatim>\<open>_update_model()\<close> the
  selection is cleared and each index of \<^verbatim>\<open>new_selection\<close> selected: GTK then reports
  the sorted set of those rows.\<close>

definition list_action ::
  "('a \<Rightarrow> 'u) \<Rightarrow> int \<Rightarrow> ('a, 'u) list_plugin \<Rightarrow> ('a, 'u) list_plugin result" where
  "list_action uuid_of action st =
     (if action \<notin> {ACTION_UP, ACTION_DOWN, ACTION_DELETE, ACTION_CLEAR} then Inr st
      else case get_selected st of
        None \<Rightarrow> Inl AttributeError
      | Some sel \<Rightarrow>
         (let selected_items = (if action \<in> {ACTION_DOWN, ACTION_DELETE} then rev (sort sel) else sort sel);
              looped = (if action = ACTION_CLEAR
                        then map_sum id (\<lambda>st'. (st', [])) (clear_loop uuid_of (length (items st)) st)
                        else action_loop uuid_of action st selected_items [])
          in case looped of
               Inl e \<Rightarrow> Inl e
             | Inr (st1, new_selection) \<Rightarrow>
                 (case update_model uuid_of st1 of
                    Inl e \<Rightarrow> Inl e
                  | Inr st2 \<Rightarrow>
                      Inr (st2\<lparr>view := map_option (\<lambda>v. v\<lparr>sel_rows := sort (remdups new_selection)\<rparr>)
                                             (view st2)\<rparr>))))"

text \<open>\<^verbatim>\<open>_update_list_action_button_state\<close> (lines 606--621): whether the button of an
  action is sensitive.\<close>

definition button_sensitive :: "int \<Rightarrow> ('a, 'u) list_plugin \<Rightarrow> bool" where
  "button_sensitive action st =
     (if action = ACTION_CLEAR then 0 < length (items st)
      else case get_selected st of
        None \<Rightarrow> False
      | Some paths \<Rightarrow>
          if paths = [] then False
          else if action = ACTION_UP then 0 \<notin> set paths
          else if action = ACTION_DOWN then int (length (items st)) - 1 \<notin> int ` set paths
          else True)"

section \<open>Model notions\<close>

text \<open>Exchanging the items at positions \<open>j\<close> and \<open>j + 1\<close>.\<close>

definition swap_adj :: "'a list \<Rightarrow> nat \<Rightarrow> 'a list" where
  "swap_adj xs j = take j xs @ xs ! Suc j # xs ! j # drop (Suc (Suc j)) xs"

text \<open>The list holds entities with distinct uuids, and the tree model distinct rows.\<close>

definition view_ok :: "('a \<Rightarrow> 'u) \<Rightarrow> ('a, 'u) list_plugin \<Rightarrow> bool" where
  "view_ok uuid_of st =
     (distinct (map uuid_of (items st)) \<and>
      (case view st of None \<Rightarrow> True | Some v \<Rightarrow> distinct (rows v)))"

text \<open>Three entities identified by their uuids, all shown in the tree model, the middle row
  selected.\<close>

definition demo_list :: "(string, string) list_plugin" where
  "demo_list = \<lparr>items = [''a'', ''b'', ''c''], view = Some \<lparr>rows = [''a'', ''b'', ''c''], sel_rows = [1]\<rparr>\<rparr>"


section \<open>Lemmas on the Python list operations\<close>

lemma py_index_Inr: "py_index xs u = Inr i \<Longrightarrow> i < length xs \<and> xs ! i = u"
proof (induction xs arbitrary: i)
  case (Cons y ys)
  show ?case
  proof (cases "y = u")
    case False
    with Cons.prems obtain j where "py_index ys u = Inr j" "i = Suc j"
      by (cases "py_index ys u") auto
    with Cons.IH show ?thesis by simp
  qed (use Cons.prems in simp)
qed simp

lemma py_index_member: "u \<in> set xs \<Longrightarrow> \<exists>i. py_index xs u = Inr i"
proof (induction xs)
  case (Cons y ys)
  show ?case
  proof (cases "y = u")
    case False
    with Cons obtain j where "py_index ys u = Inr j" by auto
    with False show ?thesis by simp
  qed simp
qed simp

lemma py_index_nth: "distinct xs \<Longrightarrow> i < length xs \<Longrightarrow> py_index xs (xs ! i) = Inr i"
proof (induction xs arbitrary: i)
  case (Cons y ys)
  show ?case
  proof (cases i)
    case (Suc j)
    then have "y \<noteq> ys ! j" using Cons.prems by (auto simp: nth_mem)
    with Cons Suc show ?thesis by simp
  qed simp
qed simp

lemma map_res_py_index:
  assumes "set us \<subseteq> set xs"
  shows "\<exists>\<sigma>. map_res (py_index xs) us = Inr \<sigma> \<and> length \<sigma> = length us \<and>
           (\<forall>q < length us. \<sigma> ! q < length xs \<and> xs ! (\<sigma> ! q) = us ! q)"
proof -
  have "\<exists>i. py_index xs u = Inr i" if "u \<in> set us" for u
    using assms that by (intro py_index_member) auto
  then obtain \<sigma> where s: "map_res (py_index xs) us = Inr \<sigma>"
    using map_res_total [of us "py_index xs"] by blast
  then have a: "list_all2 (\<lambda>u i. py_index xs u = Inr i) us \<sigma>"
    by (simp only: map_res_Inr_iff)
  have "\<sigma> ! q < length xs \<and> xs ! (\<sigma> ! q) = us ! q" if "q < length us" for q
  proof -
    have "py_index xs (us ! q) = Inr (\<sigma> ! q)"
      using a that by (simp add: list_all2_conv_all_nth)
    then show ?thesis by (rule py_index_Inr)
  qed
  with s a show ?thesis by (auto dest: list_all2_lengthD)
qed

section \<open>Row removal\<close>

lemma remove_rows_append:
  "\<forall>i \<in> set is. i < length ys \<Longrightarrow> sorted_wrt (>) is \<Longrightarrow>
     remove_rows (ys @ zs) is = remove_rows ys is @ zs"
proof (induction "is" arbitrary: ys)
  case (Cons i rest)
  have "remove_rows (take i ys @ drop (Suc i) ys @ zs) rest =
        remove_rows (take i ys @ drop (Suc i) ys) rest @ zs"
    using Cons.prems by (intro Cons.IH [of "take i ys @ drop (Suc i) ys", simplified]) auto
  then show ?case using Cons.prems by simp
qed simp

lemma remove_rows_filter:
  "remove_rows tm (rev [i \<leftarrow> [0..<length tm]. P (tm ! i)]) = filter (\<lambda>u. \<not> P u) tm"
proof (induction tm rule: rev_induct)
  case (snoc y ys)
  let ?L = "[i \<leftarrow> [0..<length ys]. P (ys ! i)]"
  have L: "[i \<leftarrow> [0..<length (ys @ [y])]. P ((ys @ [y]) ! i)] = ?L @ (if P y then [length ys] else [])"
    by (auto simp: nth_append intro: filter_cong)
  have sorted: "sorted_wrt (>) (rev ?L)"
    by (simp add: sorted_wrt_rev sorted_wrt_filter)
  show ?case
  proof (cases "P y")
    case True
    then show ?thesis using L snoc by simp
  next
    case False
    then have "remove_rows (ys @ [y]) (rev ?L) = remove_rows ys (rev ?L) @ [y]"
      using sorted by (intro remove_rows_append) auto
    then show ?thesis using L snoc False by simp
  qed
qed simp

section \<open>The synchronised rows\<close>

lemma map_upt_eq_self: "(map f [0..<n] = [0..<n]) = (\<forall>p < n. f p = p)"
proof -
  have "(map f [0..<n] = map id [0..<n]) = (\<forall>p \<in> set [0..<n]. f p = id p)"
    by (rule map_eq_conv)
  then show ?thesis by auto
qed

text \<open>After the removals and appends the rows hold exactly the current uuids; with
  \<open>\<sigma>\<close> the positions in the list of those rows, the reorder puts at position \<open>p\<close> the
  uuid at \<open>\<sigma> (\<sigma> p)\<close>.\<close>

lemma update_gtk_treemodel_sigma:
  assumes dc: "distinct cur" and dt: "distinct tm"
  defines "rows2 \<equiv> filter (\<lambda>u. u \<in> set cur) tm @ [u \<leftarrow> cur. u \<notin> set (filter (\<lambda>u. u \<in> set cur) tm)]"
  shows "\<exists>\<sigma>. map_res (py_index cur) rows2 = Inr \<sigma> \<and> length \<sigma> = length cur \<and> distinct rows2 \<and> length rows2 = length cur \<and>
           (\<forall>q < length cur. \<sigma> ! q < length cur \<and> cur ! (\<sigma> ! q) = rows2 ! q) \<and>
           update_gtk_treemodel cur tm =
             Inr (map (\<lambda>p. cur ! (\<sigma> ! (\<sigma> ! p))) [0..<length cur],
                  \<exists>p < length cur. \<sigma> ! (\<sigma> ! p) \<noteq> p)"
proof -
  have set2: "set rows2 = set cur" and d2: "distinct rows2"
    using dt dc by (auto simp: rows2_def)
  then have len2: "length rows2 = length cur"
    using dc by (metis distinct_card)
  obtain \<sigma> where s: "map_res (py_index cur) rows2 = Inr \<sigma>" and ls: "length \<sigma> = length rows2"
    and sq: "\<forall>q < length rows2. \<sigma> ! q < length cur \<and> cur ! (\<sigma> ! q) = rows2 ! q"
    using map_res_py_index [of rows2 cur] set2 by auto
  have rem: "remove_rows tm (rev [index \<leftarrow> [0..<length tm]. tm ! index \<notin> set cur]) =
             filter (\<lambda>u. u \<in> set cur) tm"
    using remove_rows_filter [of tm "\<lambda>u. u \<notin> set cur"] by simp
  define rows3 where "rows3 = map (\<lambda>p. cur ! (\<sigma> ! (\<sigma> ! p))) [0..<length cur]"
  have r3: "(if \<sigma> \<noteq> [] then gtk_reorder rows2 \<sigma> else rows2) = rows3"
    using sq ls len2 by (auto simp: gtk_reorder_def rows3_def intro!: nth_equalityI)
  have chk: "map_res (py_index cur) rows3 = Inr (map (\<lambda>p. \<sigma> ! (\<sigma> ! p)) [0..<length cur])"
    unfolding rows3_def
  proof (intro map_res_map_Inr py_index_nth [OF dc])
    fix p assume "p \<in> set [0..<length cur]"
    then show "\<sigma> ! (\<sigma> ! p) < length cur" using sq len2 by simp
  qed
  have "(map (\<lambda>p. \<sigma> ! (\<sigma> ! p)) [0..<length cur] \<noteq> [0..<length cur]) =
        (\<exists>p < length cur. \<sigma> ! (\<sigma> ! p) \<noteq> p)"
    by (simp add: map_upt_eq_self)
  moreover have "update_gtk_treemodel cur tm =
      (case map_res (py_index cur) rows2 of
         Inl e \<Rightarrow> Inl e
       | Inr sorted_indices \<Rightarrow>
           (case map_res (py_index cur) (if sorted_indices \<noteq> [] then gtk_reorder rows2 sorted_indices else rows2) of
              Inl e \<Rightarrow> Inl e
            | Inr check \<Rightarrow> Inr (if sorted_indices \<noteq> [] then gtk_reorder rows2 sorted_indices else rows2,
                                check \<noteq> [0..<length check])))"
    unfolding update_gtk_treemodel_def Let_def rem rows2_def ..
  ultimately have "update_gtk_treemodel cur tm = Inr (rows3, \<exists>p < length cur. \<sigma> ! (\<sigma> ! p) \<noteq> p)"
    using s r3 chk by simp
  then show ?thesis using s ls sq len2 d2 by (auto simp: rows3_def)
qed

lemma sigma_inj:
  assumes "\<forall>q < n. \<sigma> ! q < n \<and> cur ! (\<sigma> ! q) = rs ! q" "distinct rs" "length rs = n"
  shows "inj_on (\<lambda>q. \<sigma> ! q) {..<n}"
proof (rule inj_onI)
  fix p q assume "p \<in> {..<n}" "q \<in> {..<n}" "\<sigma> ! p = \<sigma> ! q"
  with assms(1) have "rs ! p = rs ! q" by (metis lessThan_iff)
  with assms(2,3) \<open>p \<in> {..<n}\<close> \<open>q \<in> {..<n}\<close> show "p = q" by (simp add: nth_eq_iff_index_eq)
qed

lemma sigma_twice_mset:
  assumes dc: "distinct cur" and n: "length cur = n" and range: "\<forall>q < n. \<sigma> ! q < n"
    and inj: "inj_on (\<lambda>q. \<sigma> ! q) {..<n}"
  shows "mset (map (\<lambda>p. cur ! (\<sigma> ! (\<sigma> ! p))) [0..<n]) = mset cur"
proof -
  let ?r = "map (\<lambda>p. cur ! (\<sigma> ! (\<sigma> ! p))) [0..<n]"
  have i2: "\<sigma> ! (\<sigma> ! p) = \<sigma> ! (\<sigma> ! q) \<Longrightarrow> p < n \<Longrightarrow> q < n \<Longrightarrow> p = q" for p q
  proof -
    assume e: "\<sigma> ! (\<sigma> ! p) = \<sigma> ! (\<sigma> ! q)" and p: "p < n" and q: "q < n"
    then have "\<sigma> ! p = \<sigma> ! q"
      using inj_onD [OF inj e] range by simp
    then show "p = q" using inj_onD [OF inj] p q by simp
  qed
  have "inj_on (\<lambda>p. cur ! (\<sigma> ! (\<sigma> ! p))) {0..<n}"
  proof (rule inj_onI)
    fix p q
    assume p: "p \<in> {0..<n}" and q: "q \<in> {0..<n}" and e: "cur ! (\<sigma> ! (\<sigma> ! p)) = cur ! (\<sigma> ! (\<sigma> ! q))"
    have "\<sigma> ! (\<sigma> ! p) < length cur" "\<sigma> ! (\<sigma> ! q) < length cur"
      using p q range n by simp_all
    with e dc have "\<sigma> ! (\<sigma> ! p) = \<sigma> ! (\<sigma> ! q)" by (simp add: nth_eq_iff_index_eq)
    with i2 p q show "p = q" by simp
  qed
  then have dr: "distinct ?r" by (simp add: distinct_map)
  have sub: "set ?r \<subseteq> set cur" using range n by auto
  have "card (set ?r) = card (set cur)"
    using distinct_card [OF dr] distinct_card [OF dc] n by simp
  then have "set ?r = set cur" using sub by (simp add: card_subset_eq)
  with dr dc show ?thesis using set_eq_iff_mset_eq_distinct by blast
qed

lemma update_gtk_treemodel_ok:
  assumes "distinct cur" "distinct tm"
  shows "\<exists>rows3 warn. update_gtk_treemodel cur tm = Inr (rows3, warn) \<and> mset rows3 = mset cur"
proof -
  let ?rows2 = "filter (\<lambda>u. u \<in> set cur) tm @ [u \<leftarrow> cur. u \<notin> set (filter (\<lambda>u. u \<in> set cur) tm)]"
  obtain \<sigma> where sq: "\<forall>q < length cur. \<sigma> ! q < length cur \<and> cur ! (\<sigma> ! q) = ?rows2 ! q"
    and d2: "distinct ?rows2" and l2: "length ?rows2 = length cur"
    and u: "update_gtk_treemodel cur tm =
             Inr (map (\<lambda>p. cur ! (\<sigma> ! (\<sigma> ! p))) [0..<length cur], \<exists>p < length cur. \<sigma> ! (\<sigma> ! p) \<noteq> p)"
    using update_gtk_treemodel_sigma [OF assms] by blast
  have "inj_on (\<lambda>q. \<sigma> ! q) {..<length cur}"
    using sigma_inj [OF sq d2 l2] .
  then have "mset (map (\<lambda>p. cur ! (\<sigma> ! (\<sigma> ! p))) [0..<length cur]) = mset cur"
    using sigma_twice_mset [OF assms(1) refl] sq by blast
  with u show ?thesis by blast
qed

text \<open>C35: when the tree model holds exactly the list's uuids in another order, let
  \<open>\<sigma>\<close> be the list positions of its rows (the \<^verbatim>\<open>sorted_indices\<close> of line 527).
  \<^verbatim>\<open>_update_gtk_treemodel\<close> keeps the right rows but restores the list's order only
  when \<open>\<sigma>\<close> is an involution: it passes \<open>\<sigma>\<close> where \<^verbatim>\<open>reorder\<close> expects the inverse
  permutation. Exactly then the check of line 535 warns.\<close>

theorem update_gtk_treemodel_involution:
  assumes dc: "distinct cur" and dt: "distinct tm" and st: "set tm = set cur"
    and s: "map_res (py_index cur) tm = Inr \<sigma>"
  shows "\<exists>rows3 warn. update_gtk_treemodel cur tm = Inr (rows3, warn) \<and> mset rows3 = mset cur \<and>
           (rows3 = cur \<longleftrightarrow> (\<forall>p < length cur. \<sigma> ! (\<sigma> ! p) = p)) \<and> (warn \<longleftrightarrow> rows3 \<noteq> cur)"
proof -
  have r2: "filter (\<lambda>u. u \<in> set cur) tm @ [u \<leftarrow> cur. u \<notin> set (filter (\<lambda>u. u \<in> set cur) tm)] = tm"
    using st by (auto simp: filter_id_conv filter_empty_conv)
  obtain \<sigma>' where s': "map_res (py_index cur) tm = Inr \<sigma>'"
    and sq: "\<forall>q < length cur. \<sigma>' ! q < length cur \<and> cur ! (\<sigma>' ! q) = tm ! q"
    and l2: "length tm = length cur"
    and u: "update_gtk_treemodel cur tm =
             Inr (map (\<lambda>p. cur ! (\<sigma>' ! (\<sigma>' ! p))) [0..<length cur], \<exists>p < length cur. \<sigma>' ! (\<sigma>' ! p) \<noteq> p)"
    using update_gtk_treemodel_sigma [OF dc dt] unfolding r2 by blast
  have "\<sigma>' = \<sigma>" using s s' by simp
  note sq = sq [unfolded this] and u = u [unfolded this]
  let ?rows3 = "map (\<lambda>p. cur ! (\<sigma> ! (\<sigma> ! p))) [0..<length cur]"
  have "mset ?rows3 = mset cur"
    using sigma_twice_mset [OF dc refl] sigma_inj [OF sq dt l2] sq by blast
  moreover have eq: "(?rows3 = cur) = (\<forall>p < length cur. \<sigma> ! (\<sigma> ! p) = p)"
  proof -
    have "(?rows3 = map (\<lambda>p. cur ! p) [0..<length cur]) =
          (\<forall>p \<in> set [0..<length cur]. cur ! (\<sigma> ! (\<sigma> ! p)) = cur ! p)"
      by (rule map_eq_conv)
    also have "\<dots> = (\<forall>p < length cur. \<sigma> ! (\<sigma> ! p) = p)"
    proof -
      have "(cur ! (\<sigma> ! (\<sigma> ! p)) = cur ! p) = (\<sigma> ! (\<sigma> ! p) = p)" if p: "p < length cur" for p
      proof -
        have "\<sigma> ! p < length cur" using sq p by blast
        then have "\<sigma> ! (\<sigma> ! p) < length cur" using sq by blast
        then show ?thesis using nth_eq_iff_index_eq [OF dc _ p] by blast
      qed
      then show ?thesis by auto
    qed
    finally show ?thesis by (simp add: map_nth)
  qed
  ultimately show ?thesis using u by auto
qed

lemma update_gtk_treemodel_involution_witness:
  "\<exists>rows3 warn. update_gtk_treemodel [''b'', ''c'', ''a''] [''a'', ''b'', ''c''] = Inr (rows3, warn) \<and>
     rows3 \<noteq> [''b'', ''c'', ''a''] \<and> warn"
proof -
  have "\<exists>p < length [''b'', ''c'', ''a'']. [2, 0, 1::nat] ! ([2, 0, 1] ! p) \<noteq> p"
    by (rule exI [of _ 0]) simp
  moreover have "set [''a'', ''b'', ''c''] = set [''b'', ''c'', ''a'']" by auto
  ultimately show ?thesis
    using update_gtk_treemodel_involution [of "[''b'', ''c'', ''a'']" "[''a'', ''b'', ''c'']" "[2, 0, 1]"]
    by auto
qed

section \<open>Adjacent swaps\<close>

lemma swap_adj_decomp:
  "Suc j < length xs \<Longrightarrow> xs = take j xs @ xs ! j # xs ! Suc j # drop (Suc (Suc j)) xs"
  by (metis Cons_nth_drop_Suc Suc_lessD append_take_drop_id)

lemma length_swap_adj [simp]: "Suc j < length xs \<Longrightarrow> length (swap_adj xs j) = length xs"
  by (simp add: swap_adj_def)

lemma mset_swap_adj: "Suc j < length xs \<Longrightarrow> mset (swap_adj xs j) = mset xs"
  by (subst (2) swap_adj_decomp [of j xs]) (simp_all add: swap_adj_def)

lemma nth_swap_adj:
  assumes "Suc j < length xs" "k < length xs"
  shows "swap_adj xs j ! k = (if k = j then xs ! Suc j else if k = Suc j then xs ! j else xs ! k)"
proof -
  let ?t = "take j xs" and ?d = "drop (Suc (Suc j)) xs"
  have lt: "length ?t = j" using assms(1) by simp
  have x: "xs ! k = (?t @ xs ! j # xs ! Suc j # ?d) ! k"
    using swap_adj_decomp [OF assms(1)] by simp
  consider "k < j" | "k = j" | "k = Suc j" | m where "k = Suc (Suc (j + m))"
    by (metis add_Suc_right less_imp_Suc_add linorder_neqE_nat not_less_eq)
  then show ?thesis
  proof cases
    case 1
    then show ?thesis using x lt by (simp add: swap_adj_def nth_append)
  next
    case 2
    then show ?thesis using lt by (simp add: swap_adj_def nth_append)
  next
    case 3
    then show ?thesis using lt by (simp add: swap_adj_def nth_append)
  next
    case 4
    then show ?thesis using x lt by (simp add: swap_adj_def nth_append)
  qed
qed

lemma filter_swap_adj:
  "Suc j < length xs \<Longrightarrow> \<not> P (xs ! Suc j) \<or> \<not> P (xs ! j) \<Longrightarrow> filter P (swap_adj xs j) = filter P xs"
  by (subst (2) swap_adj_decomp [of j xs]) (auto simp: swap_adj_def)

lemma pop_insert_up:
  "0 < i \<Longrightarrow> i < length xs \<Longrightarrow>
     py_insert (take i xs @ drop (Suc i) xs) (i - 1) (xs ! i) = swap_adj xs (i - 1)"
proof -
  assume "0 < i" "i < length xs"
  then obtain j where i: "i = Suc j" and j: "Suc j < length xs" by (cases i) auto
  have "take (Suc j) xs = take j xs @ [xs ! j]" using j by (simp add: take_Suc_conv_app_nth)
  then show ?thesis
    using i j by (simp add: py_insert_def swap_adj_def Cons_nth_drop_Suc)
qed

lemma pop_insert_down:
  "Suc i < length xs \<Longrightarrow>
     py_insert (take i xs @ drop (Suc i) xs) (Suc i) (xs ! i) = swap_adj xs i"
proof -
  assume i: "Suc i < length xs"
  then have "drop (Suc i) xs = xs ! Suc i # drop (Suc (Suc i)) xs" by (simp add: Cons_nth_drop_Suc)
  moreover have "length (take i xs) = i" using i by simp
  ultimately show ?thesis
    by (simp add: py_insert_def swap_adj_def take_Cons' drop_Cons')
qed

lemma fold_swap_up:
  assumes "sorted_wrt (<) is" "\<forall>i \<in> set is. 0 < i \<and> i < length xs" "\<forall>i \<in> set is. \<not> P (xs ! i)"
  defines "f \<equiv> \<lambda>i ys. swap_adj ys (i - 1)"
  shows "length (fold f is xs) = length xs \<and> mset (fold f is xs) = mset xs \<and>
         (\<forall>i \<in> set is. fold f is xs ! (i - 1) = xs ! i) \<and>
         (\<forall>k < length xs. (\<forall>i \<in> set is. i < k) \<longrightarrow> fold f is xs ! k = xs ! k) \<and>
         filter P (fold f is xs) = filter P xs"
  using assms(1-3)
proof (induction "is" rule: rev_induct)
  case (snoc i "is")
  let ?ys = "fold f is xs"
  have lt: "\<forall>i' \<in> set is. i' < i" and si: "sorted_wrt (<) is"
    using snoc.prems(1) by (auto simp: sorted_wrt_append)
  obtain j where i: "i = Suc j" and j: "Suc j < length xs" using snoc.prems(2) by (cases i) auto
  have IH: "length ?ys = length xs" "mset ?ys = mset xs" "\<forall>i \<in> set is. ?ys ! (i - 1) = xs ! i"
    "\<forall>k < length xs. (\<forall>i \<in> set is. i < k) \<longrightarrow> ?ys ! k = xs ! k" "filter P ?ys = filter P xs"
    using snoc.IH si snoc.prems(2,3) by auto
  have yi: "?ys ! Suc j = xs ! Suc j" using IH(4) lt i j by auto
  have step: "fold f (is @ [i]) xs = swap_adj ?ys j" by (simp add: f_def i)
  have jl: "Suc j < length ?ys" using IH(1) j by simp
  have "\<forall>i' \<in> set (is @ [i]). swap_adj ?ys j ! (i' - 1) = xs ! i'"
  proof
    fix i' assume "i' \<in> set (is @ [i])"
    then consider "i' = i" | "i' \<in> set is" "0 < i'" "i' < i" using lt snoc.prems(2) by auto
    then show "swap_adj ?ys j ! (i' - 1) = xs ! i'"
    proof cases
      case 1 then show ?thesis using nth_swap_adj [OF jl] IH(1) yi i j by simp
    next
      case 2
      then have "i' - 1 < j" using i by linarith
      then show ?thesis using nth_swap_adj [OF jl, of "i' - 1"] IH(1,3) 2 j by simp
    qed
  qed
  moreover have "\<forall>k < length xs. (\<forall>i' \<in> set (is @ [i]). i' < k) \<longrightarrow> swap_adj ?ys j ! k = xs ! k"
    using nth_swap_adj [OF jl] IH(1,4) i by auto
  moreover have "filter P (swap_adj ?ys j) = filter P ?ys"
    using filter_swap_adj [OF jl] yi snoc.prems(3) i by auto
  ultimately show ?case using step IH jl mset_swap_adj [OF jl] by simp
qed simp

lemma fold_swap_down:
  assumes "sorted_wrt (>) is" "\<forall>i \<in> set is. Suc i < length xs" "\<forall>i \<in> set is. \<not> P (xs ! i)"
  shows "length (fold (\<lambda>i ys. swap_adj ys i) is xs) = length xs \<and>
         mset (fold (\<lambda>i ys. swap_adj ys i) is xs) = mset xs \<and>
         (\<forall>i \<in> set is. fold (\<lambda>i ys. swap_adj ys i) is xs ! Suc i = xs ! i) \<and>
         (\<forall>k. (\<forall>i \<in> set is. k < i) \<longrightarrow> fold (\<lambda>i ys. swap_adj ys i) is xs ! k = xs ! k) \<and>
         filter P (fold (\<lambda>i ys. swap_adj ys i) is xs) = filter P xs"
  using assms
proof (induction "is" rule: rev_induct)
  case (snoc i "is")
  let ?ys = "fold (\<lambda>i ys. swap_adj ys i) is xs"
  have gt: "\<forall>i' \<in> set is. i < i'" and si: "sorted_wrt (>) is"
    using snoc.prems(1) by (auto simp: sorted_wrt_append)
  have i: "Suc i < length xs" using snoc.prems(2) by simp
  have IH: "length ?ys = length xs" "mset ?ys = mset xs" "\<forall>i \<in> set is. ?ys ! Suc i = xs ! i"
    "\<forall>k. (\<forall>i \<in> set is. k < i) \<longrightarrow> ?ys ! k = xs ! k" "filter P ?ys = filter P xs"
    using snoc.IH si snoc.prems(2,3) by auto
  have yi: "?ys ! i = xs ! i" using IH(4) gt by auto
  have il: "Suc i < length ?ys" using IH(1) i by simp
  have "\<forall>i' \<in> set (is @ [i]). swap_adj ?ys i ! Suc i' = xs ! i'"
  proof
    fix i' assume "i' \<in> set (is @ [i])"
    then consider "i' = i" | "i' \<in> set is" "i < i'" using gt by auto
    then show "swap_adj ?ys i ! Suc i' = xs ! i'"
    proof cases
      case 1 then show ?thesis using nth_swap_adj [OF il] IH(1) yi i by simp
    next
      case 2
      then have "Suc i' < length xs" using snoc.prems(2) by simp
      then show ?thesis using nth_swap_adj [OF il, of "Suc i'"] IH(1,3) 2 by simp
    qed
  qed
  moreover have "\<forall>k. (\<forall>i' \<in> set (is @ [i]). k < i') \<longrightarrow> swap_adj ?ys i ! k = xs ! k"
    using nth_swap_adj [OF il] IH(1,4) i by auto
  moreover have "filter P (swap_adj ?ys i) = filter P ?ys"
    using filter_swap_adj [OF il] yi snoc.prems(3) by auto
  ultimately show ?case using IH il mset_swap_adj [OF il] by simp
qed simp

lemma nths_cong_lt:
  "(\<And>i. i < length xs \<Longrightarrow> i \<in> A \<longleftrightarrow> i \<in> B) \<Longrightarrow> nths xs A = nths xs B"
proof (induction xs arbitrary: A B)
  case (Cons x xs)
  have "nths xs {j. Suc j \<in> A} = nths xs {j. Suc j \<in> B}"
    using Cons.prems by (intro Cons.IH) auto
  moreover have "0 \<in> A \<longleftrightarrow> 0 \<in> B" using Cons.prems by simp
  ultimately show ?case by (simp add: nths_Cons)
qed simp

lemma nths_remove_nth:
  assumes i: "i < length xs" and R: "\<forall>r \<in> R. r < i"
  shows "nths (take i xs @ drop (Suc i) xs) {j. j \<notin> R} = nths xs {j. j \<notin> insert i R}"
proof -
  have lt: "length (take i xs) = i" using i by simp
  have "nths (drop (Suc i) xs) {j. j + i \<notin> R} = drop (Suc i) xs"
    by (rule nths_all) (use R in force)
  then have "nths (take i xs @ drop (Suc i) xs) {j. j \<notin> R} =
        nths (take i xs) {j. j \<notin> R} @ drop (Suc i) xs"
    using lt by (simp add: nths_append)
  moreover have "nths xs {j. j \<notin> insert i R} =
        nths (take i xs) {j. j \<notin> insert i R} @ drop (Suc i) xs"
  proof -
    have "xs = take i xs @ xs ! i # drop (Suc i) xs" using i by (simp add: id_take_nth_drop)
    then have "nths xs {j. j \<notin> insert i R} =
          nths (take i xs @ xs ! i # drop (Suc i) xs) {j. j \<notin> insert i R}" by simp
    also have "\<dots> = nths (take i xs) {j. j \<notin> insert i R} @ drop (Suc i) xs"
    proof -
      have "nths (drop (Suc i) xs) {j. Suc (j + i) \<notin> R} = drop (Suc i) xs"
        by (rule nths_all) (use R in force)
      then show ?thesis using lt by (simp add: nths_append nths_Cons)
    qed
    finally show ?thesis .
  qed
  moreover have "nths (take i xs) {j. j \<notin> R} = nths (take i xs) {j. j \<notin> insert i R}"
    using lt by (intro nths_cong_lt) auto
  ultimately show ?thesis by simp
qed

lemma fold_delete:
  "sorted_wrt (>) is \<Longrightarrow> \<forall>i \<in> set is. i < length xs \<Longrightarrow>
     fold (\<lambda>i ys. take i ys @ drop (Suc i) ys) is xs = nths xs {j. j \<notin> set is}"
proof (induction "is" arbitrary: xs)
  case Nil
  then show ?case by (simp add: nths_all)
next
  case (Cons i rest)
  have "fold (\<lambda>i ys. take i ys @ drop (Suc i) ys) rest (take i xs @ drop (Suc i) xs) =
        nths (take i xs @ drop (Suc i) xs) {j. j \<notin> set rest}"
    using Cons.prems by (intro Cons.IH) auto
  also have "\<dots> = nths xs {j. j \<notin> set (i # rest)}"
    using Cons.prems by (simp add: nths_remove_nth)
  finally show ?case by simp
qed

section \<open>The plugin state through pops and inserts\<close>

lemma distinct_remove_nth: "distinct ys \<Longrightarrow> distinct (take i ys @ drop (Suc i) ys)"
  using set_take_disj_set_drop_if_distinct [of ys i "Suc i"] by simp

lemma update_model_ok:
  assumes "view_ok uuid_of st"
  shows "\<exists>st'. update_model uuid_of st = Inr st' \<and> items st' = items st \<and> view_ok uuid_of st' \<and>
           get_selected st' = get_selected st"
proof (cases "view st")
  case None
  then show ?thesis using assms by (simp add: update_model_def)
next
  case (Some v)
  then obtain rows3 warn where u: "update_gtk_treemodel (map uuid_of (items st)) (rows v) = Inr (rows3, warn)"
    and m: "mset rows3 = mset (map uuid_of (items st))"
    using update_gtk_treemodel_ok assms by (fastforce simp: view_ok_def)
  have "distinct rows3" using mset_eq_imp_distinct_iff [OF m] assms by (simp add: view_ok_def)
  then show ?thesis
    using Some u assms by (simp add: update_model_def view_ok_def get_selected_def)
qed

lemma list_pop_ok:
  assumes "view_ok uuid_of st" "i < length (items st)"
  shows "\<exists>st1. list_pop uuid_of st i = Inr (items st ! i, st1) \<and>
           items st1 = take i (items st) @ drop (Suc i) (items st) \<and>
           view_ok uuid_of st1 \<and> get_selected st1 = get_selected st"
proof -
  have "view_ok uuid_of (st\<lparr>items := take i (items st) @ drop (Suc i) (items st)\<rparr>)"
    using assms(1) distinct_remove_nth [of "map uuid_of (items st)" i]
    by (simp add: view_ok_def take_map drop_map)
  from update_model_ok [OF this] show ?thesis
    using assms(2) by (auto simp: list_pop_def py_pop_def get_selected_def)
qed

lemma list_insert_swap_ok:
  assumes "view_ok uuid_of st1" "distinct (map uuid_of xs)"
    and "py_insert (items st1) k x = swap_adj xs j" "Suc j < length xs"
  shows "\<exists>st2. list_insert uuid_of st1 k x = Inr st2 \<and>
           items st2 = swap_adj xs j \<and> view_ok uuid_of st2 \<and> get_selected st2 = get_selected st1"
proof -
  have "mset (map uuid_of (swap_adj xs j)) = mset (map uuid_of xs)"
    using mset_swap_adj [OF assms(4)] by (metis mset_map)
  then have "view_ok uuid_of (st1\<lparr>items := swap_adj xs j\<rparr>)"
    using assms(1,2) mset_eq_imp_distinct_iff by (fastforce simp: view_ok_def)
  from update_model_ok [OF this] show ?thesis
    using assms(3) by (auto simp: list_insert_def get_selected_def)
qed

lemmas action_codes = ACTION_UP_def ACTION_DOWN_def ACTION_DELETE_def ACTION_CLEAR_def

lemma action_loop_up:
  assumes "view_ok uuid_of st" "sorted_wrt (<) is" "\<forall>i \<in> set is. 0 < i \<and> i < length (items st)"
  shows "\<exists>st'. action_loop uuid_of ACTION_UP st is ns = Inr (st', ns @ map (\<lambda>i. i - 1) is) \<and>
           items st' = fold (\<lambda>i ys. swap_adj ys (i - 1)) is (items st) \<and>
           view_ok uuid_of st' \<and> get_selected st' = get_selected st"
  using assms
proof (induction "is" arbitrary: st ns)
  case (Cons i rest)
  obtain j where i: "i = Suc j" and j: "Suc j < length (items st)" using Cons.prems(3) by (cases i) auto
  obtain st1 where p: "list_pop uuid_of st i = Inr (items st ! i, st1)"
    and st1: "items st1 = take i (items st) @ drop (Suc i) (items st)" "view_ok uuid_of st1"
      "get_selected st1 = get_selected st"
    using list_pop_ok [OF Cons.prems(1)] j i by blast
  have d: "distinct (map uuid_of (items st))" using Cons.prems(1) by (simp add: view_ok_def)
  obtain st2 where ins: "list_insert uuid_of st1 (i - 1) (items st ! i) = Inr st2"
    and st2: "items st2 = swap_adj (items st) j" "view_ok uuid_of st2" "get_selected st2 = get_selected st1"
    using list_insert_swap_ok [OF st1(2) d _ j] pop_insert_up [of i "items st"] st1(1) i j by auto
  have "\<exists>st'. action_loop uuid_of ACTION_UP st2 rest (ns @ [i - 1]) =
                Inr (st', (ns @ [i - 1]) @ map (\<lambda>i. i - 1) rest) \<and>
           items st' = fold (\<lambda>i ys. swap_adj ys (i - 1)) rest (items st2) \<and>
           view_ok uuid_of st' \<and> get_selected st' = get_selected st2"
    using Cons.prems(2,3) st2 j by (intro Cons.IH) auto
  then show ?case using p ins st2 st1 i by (simp add: action_codes)
qed simp

lemma action_loop_down:
  assumes "view_ok uuid_of st" "sorted_wrt (>) is" "\<forall>i \<in> set is. Suc i < length (items st)"
  shows "\<exists>st'. action_loop uuid_of ACTION_DOWN st is ns = Inr (st', ns @ map Suc is) \<and>
           items st' = fold (\<lambda>i ys. swap_adj ys i) is (items st) \<and>
           view_ok uuid_of st' \<and> get_selected st' = get_selected st"
  using assms
proof (induction "is" arbitrary: st ns)
  case (Cons i rest)
  have i: "Suc i < length (items st)" using Cons.prems(3) by simp
  obtain st1 where p: "list_pop uuid_of st i = Inr (items st ! i, st1)"
    and st1: "items st1 = take i (items st) @ drop (Suc i) (items st)" "view_ok uuid_of st1"
      "get_selected st1 = get_selected st"
    using list_pop_ok [OF Cons.prems(1) Suc_lessD [OF i]] by blast
  have d: "distinct (map uuid_of (items st))" using Cons.prems(1) by (simp add: view_ok_def)
  obtain st2 where ins: "list_insert uuid_of st1 (i + 1) (items st ! i) = Inr st2"
    and st2: "items st2 = swap_adj (items st) i" "view_ok uuid_of st2" "get_selected st2 = get_selected st1"
    using list_insert_swap_ok [OF st1(2) d _ i] pop_insert_down [OF i] st1(1) by auto
  have "\<exists>st'. action_loop uuid_of ACTION_DOWN st2 rest (ns @ [i + 1]) =
                Inr (st', (ns @ [i + 1]) @ map Suc rest) \<and>
           items st' = fold (\<lambda>i ys. swap_adj ys i) rest (items st2) \<and>
           view_ok uuid_of st' \<and> get_selected st' = get_selected st2"
    using Cons.prems(2,3) st2 i by (intro Cons.IH) auto
  moreover have "int i < int (length (items st)) - 1" using i by simp
  ultimately show ?case using p ins st2 st1 by (simp add: action_codes)
qed simp

lemma action_loop_delete:
  assumes "view_ok uuid_of st" "sorted_wrt (>) is" "\<forall>i \<in> set is. i < length (items st)"
  shows "\<exists>st' ns'. action_loop uuid_of ACTION_DELETE st is ns = Inr (st', ns') \<and>
           items st' = fold (\<lambda>i ys. take i ys @ drop (Suc i) ys) is (items st) \<and>
           view_ok uuid_of st' \<and> get_selected st' = get_selected st"
  using assms
proof (induction "is" arbitrary: st ns)
  case (Cons i rest)
  have i: "i < length (items st)" using Cons.prems(3) by simp
  obtain st1 where p: "list_pop uuid_of st i = Inr (items st ! i, st1)"
    and st1: "items st1 = take i (items st) @ drop (Suc i) (items st)" "view_ok uuid_of st1"
      "get_selected st1 = get_selected st"
    using list_pop_ok [OF Cons.prems(1) i] by blast
  have "\<forall>i' \<in> set rest. i' < length (items st1)"
    using Cons.prems(2,3) st1(1) by auto
  then have "\<exists>st' ns'. action_loop uuid_of ACTION_DELETE st1 rest
               (if 0 < length (items st1) then ns @ [min i (length (items st1) - 1)] else ns) = Inr (st', ns') \<and>
           items st' = fold (\<lambda>i ys. take i ys @ drop (Suc i) ys) rest (items st1) \<and>
           view_ok uuid_of st' \<and> get_selected st' = get_selected st1"
    using Cons.prems(2) st1(2) by (intro Cons.IH) auto
  moreover have "action_loop uuid_of ACTION_DELETE st (i # rest) ns =
      action_loop uuid_of ACTION_DELETE st1 rest
        (if 0 < length (items st1) then ns @ [min i (length (items st1) - 1)] else ns)"
    using p by (simp add: action_codes)
  ultimately show ?case using st1 by simp
qed simp

lemma clear_loop_ok:
  assumes "view_ok uuid_of st" "length (items st) = n"
  shows "\<exists>st'. clear_loop uuid_of n st = Inr st' \<and> items st' = [] \<and>
           view_ok uuid_of st' \<and> get_selected st' = get_selected st"
  using assms
proof (induction n arbitrary: st)
  case (Suc n)
  obtain st1 where p: "list_pop uuid_of st 0 = Inr (items st ! 0, st1)"
    and st1: "items st1 = drop 1 (items st)" "view_ok uuid_of st1" "get_selected st1 = get_selected st"
    using list_pop_ok [OF Suc.prems(1)] Suc.prems(2) by fastforce
  have "length (items st1) = n" using st1(1) Suc.prems(2) by simp
  with Suc.IH [OF st1(2)] p st1 show ?case by auto
qed simp

lemma list_action_via_loop:
  assumes "action \<in> {ACTION_UP, ACTION_DOWN, ACTION_DELETE}" "get_selected st = Some sel"
    and "action_loop uuid_of action st
           (if action \<in> {ACTION_DOWN, ACTION_DELETE} then rev (sort sel) else sort sel) [] = Inr (st1, ns)"
    and "view_ok uuid_of st1" "get_selected st1 = Some sel"
  shows "\<exists>st2. list_action uuid_of action st = Inr st2 \<and> items st2 = items st1 \<and> view_ok uuid_of st2 \<and>
           get_selected st2 = Some (sort (remdups ns))"
proof -
  obtain st3 where u: "update_model uuid_of st1 = Inr st3" and st3: "items st3 = items st1"
    "view_ok uuid_of st3" "get_selected st3 = Some sel"
    using update_model_ok [OF assms(4)] assms(5) by auto
  have "action \<noteq> ACTION_CLEAR" using assms(1) by (auto simp: action_codes)
  then have "list_action uuid_of action st =
      Inr (st3\<lparr>view := map_option (\<lambda>v. v\<lparr>sel_rows := sort (remdups ns)\<rparr>) (view st3)\<rparr>)"
    using assms(1-3) u by (simp add: list_action_def)
  moreover have "view_ok uuid_of (st3\<lparr>view := map_option (\<lambda>v. v\<lparr>sel_rows := sort (remdups ns)\<rparr>) (view st3)\<rparr>)"
    using st3(2) by (simp add: view_ok_def split: option.splits)
  ultimately show ?thesis using st3 by (auto simp: get_selected_def)
qed

lemma sort_remdups_strict: "sorted_wrt (<) xs \<Longrightarrow> sort (remdups xs) = xs"
  by (simp add: strict_sorted_iff distinct_remdups_id sorted_sort_id)

lemma strict_sort: "distinct xs \<Longrightarrow> sorted_wrt (<) (sort xs)"
  by (simp add: strict_sorted_iff)

text \<open>Pressing a sensitive up button (something selected, not the first row) with a
  valid selection moves every selected item one row up, keeps the order of the others and
  the multiset of items, leaves the moved items selected, and so changes the list.\<close>

lemma list_action_up:
  assumes ok: "view_ok uuid_of st" and b: "button_sensitive ACTION_UP st"
    and sel: "get_selected st = Some sel" and ds: "distinct sel"
    and lt: "\<forall>i \<in> set sel. i < length (items st)"
  shows "\<exists>st'. list_action uuid_of ACTION_UP st = Inr st' \<and> view_ok uuid_of st' \<and>
           mset (items st') = mset (items st) \<and>
           (\<forall>i \<in> set sel. items st' ! (i - 1) = items st ! i) \<and>
           filter (\<lambda>x. x \<notin> (\<lambda>i. items st ! i) ` set sel) (items st') =
             filter (\<lambda>x. x \<notin> (\<lambda>i. items st ! i) ` set sel) (items st) \<and>
           get_selected st' = Some (map (\<lambda>i. i - 1) (sort sel)) \<and> items st' \<noteq> items st"
proof -
  have z: "0 \<notin> set sel" using b sel by (simp add: button_sensitive_def action_codes split: if_splits)
  have ss: "sorted_wrt (<) (sort sel)" using ds by (rule strict_sort)
  have pos: "\<forall>i \<in> set (sort sel). 0 < i \<and> i < length (items st)"
    using z lt by (auto simp: gr0_conv_Suc) (metis not0_implies_Suc)
  obtain st1 where l: "action_loop uuid_of ACTION_UP st (sort sel) [] = Inr (st1, map (\<lambda>i. i - 1) (sort sel))"
    and st1: "items st1 = fold (\<lambda>i ys. swap_adj ys (i - 1)) (sort sel) (items st)"
      "view_ok uuid_of st1" "get_selected st1 = get_selected st"
    using action_loop_up [OF ok ss pos, of "[]"] by auto
  have "sorted_wrt (\<lambda>x y. x - 1 < y - 1) (sort sel)"
    by (rule sorted_wrt_mono_rel [OF _ ss]) (use pos in force)
  then have "sorted_wrt (<) (map (\<lambda>i. i - 1) (sort sel))" by (simp add: sorted_wrt_map)
  then have sel': "sort (remdups (map (\<lambda>i. i - 1) (sort sel))) = map (\<lambda>i. i - 1) (sort sel)"
    by (rule sort_remdups_strict)
  have f: "length (items st1) = length (items st) \<and> mset (items st1) = mset (items st) \<and>
      (\<forall>i \<in> set (sort sel). items st1 ! (i - 1) = items st ! i) \<and>
      filter (\<lambda>x. x \<notin> (\<lambda>i. items st ! i) ` set sel) (items st1) =
        filter (\<lambda>x. x \<notin> (\<lambda>i. items st ! i) ` set sel) (items st)"
    using fold_swap_up [OF ss pos, of "\<lambda>x. x \<notin> (\<lambda>i. items st ! i) ` set sel"] st1(1) by auto
  obtain st2 where "list_action uuid_of ACTION_UP st = Inr st2" "items st2 = items st1"
    "view_ok uuid_of st2" "get_selected st2 = Some (sort (remdups (map (\<lambda>i. i - 1) (sort sel))))"
    using list_action_via_loop [of ACTION_UP st sel uuid_of st1] sel l st1(2,3)
    by (auto simp: action_codes)
  moreover have "items st1 \<noteq> items st"
  proof
    assume eq: "items st1 = items st"
    obtain i where i: "i \<in> set sel" using b sel by (cases sel) (auto simp: button_sensitive_def action_codes)
    then have "0 < i" "i < length (items st)" using pos by auto
    moreover have "items st ! (i - 1) = items st ! i" using f eq i by auto
    moreover have "distinct (items st)" using ok by (simp add: view_ok_def distinct_map)
    ultimately show False by (simp add: nth_eq_iff_index_eq)
  qed
  ultimately show ?thesis using f sel' by auto
qed

text \<open>Pressing a sensitive down button (something selected, not the last row) with
  a valid selection moves every selected item one row down, keeps the order of the others
  and the multiset of items, leaves the moved items selected, and so changes the list.\<close>

lemma list_action_down:
  assumes ok: "view_ok uuid_of st" and b: "button_sensitive ACTION_DOWN st"
    and sel: "get_selected st = Some sel" and ds: "distinct sel"
    and lt: "\<forall>i \<in> set sel. i < length (items st)"
  shows "\<exists>st'. list_action uuid_of ACTION_DOWN st = Inr st' \<and> view_ok uuid_of st' \<and>
           mset (items st') = mset (items st) \<and>
           (\<forall>i \<in> set sel. items st' ! Suc i = items st ! i) \<and>
           filter (\<lambda>x. x \<notin> (\<lambda>i. items st ! i) ` set sel) (items st') =
             filter (\<lambda>x. x \<notin> (\<lambda>i. items st ! i) ` set sel) (items st) \<and>
           get_selected st' = Some (map Suc (sort sel)) \<and> items st' \<noteq> items st"
proof -
  have last: "int (length (items st)) - 1 \<notin> int ` set sel"
    using b sel by (simp add: button_sensitive_def action_codes split: if_splits)
  have ss: "sorted_wrt (>) (rev (sort sel))" using strict_sort [OF ds] by (simp add: sorted_wrt_rev)
  have suc: "\<forall>i \<in> set (rev (sort sel)). Suc i < length (items st)"
  proof
    fix i assume "i \<in> set (rev (sort sel))"
    then have "i \<in> set sel" by simp
    with lt last have "i < length (items st)" "int i \<noteq> int (length (items st)) - 1" by force+
    then show "Suc i < length (items st)" by linarith
  qed
  obtain st1 where l: "action_loop uuid_of ACTION_DOWN st (rev (sort sel)) [] = Inr (st1, map Suc (rev (sort sel)))"
    and st1: "items st1 = fold (\<lambda>i ys. swap_adj ys i) (rev (sort sel)) (items st)"
      "view_ok uuid_of st1" "get_selected st1 = get_selected st"
    using action_loop_down [OF ok ss suc, of "[]"] by auto
  have "sort (remdups (map Suc (rev (sort sel)))) = map Suc (sort sel)"
  proof -
    have "remdups (map Suc (rev (sort sel))) = map Suc (rev (sort sel))"
      using ds by (simp add: distinct_map)
    moreover have "sort (map Suc (rev (sort sel))) = map Suc (sort sel)"
      by (rule properties_for_sort) (simp_all add: sorted_map)
    ultimately show ?thesis by (simp add: distinct_remdups_id)
  qed
  moreover have f: "length (items st1) = length (items st) \<and> mset (items st1) = mset (items st) \<and>
      (\<forall>i \<in> set (rev (sort sel)). items st1 ! Suc i = items st ! i) \<and>
      filter (\<lambda>x. x \<notin> (\<lambda>i. items st ! i) ` set sel) (items st1) =
        filter (\<lambda>x. x \<notin> (\<lambda>i. items st ! i) ` set sel) (items st)"
    using fold_swap_down [OF ss suc, of "\<lambda>x. x \<notin> (\<lambda>i. items st ! i) ` set sel"] st1(1) by auto
  moreover obtain st2 where "list_action uuid_of ACTION_DOWN st = Inr st2" "items st2 = items st1"
    "view_ok uuid_of st2" "get_selected st2 = Some (sort (remdups (map Suc (rev (sort sel)))))"
    using list_action_via_loop [of ACTION_DOWN st sel uuid_of st1] sel l st1(2,3)
    by (auto simp: action_codes)
  moreover have "items st1 \<noteq> items st"
  proof
    assume eq: "items st1 = items st"
    obtain i where i: "i \<in> set sel" using b sel by (cases sel) (auto simp: button_sensitive_def action_codes)
    then have "Suc i < length (items st)" using suc by auto
    moreover have "items st ! Suc i = items st ! i"
      using f eq i by auto
    moreover have "distinct (items st)" using ok by (simp add: view_ok_def distinct_map)
    ultimately show False by (simp add: nth_eq_iff_index_eq)
  qed
  ultimately show ?thesis by auto
qed

text \<open>Pressing delete with a valid selection removes exactly the selected rows, so
  the list shrinks by their number (the loop runs from the highest index down, so each
  index still names its item when it is popped).\<close>

lemma list_action_delete:
  assumes ok: "view_ok uuid_of st" and sel: "get_selected st = Some sel" and ds: "distinct sel"
    and lt: "\<forall>i \<in> set sel. i < length (items st)"
  shows "\<exists>st'. list_action uuid_of ACTION_DELETE st = Inr st' \<and> view_ok uuid_of st' \<and>
           items st' = nths (items st) {j. j \<notin> set sel} \<and>
           length (items st') + length sel = length (items st)"
proof -
  have ss: "sorted_wrt (>) (rev (sort sel))" using strict_sort [OF ds] by (simp add: sorted_wrt_rev)
  have lt': "\<forall>i \<in> set (rev (sort sel)). i < length (items st)" using lt by simp
  obtain st1 ns where l: "action_loop uuid_of ACTION_DELETE st (rev (sort sel)) [] = Inr (st1, ns)"
    and st1: "items st1 = fold (\<lambda>i ys. take i ys @ drop (Suc i) ys) (rev (sort sel)) (items st)"
      "view_ok uuid_of st1" "get_selected st1 = get_selected st"
    using action_loop_delete [OF ok ss lt', of "[]"] by auto
  have "items st1 = nths (items st) {j. j \<notin> set sel}"
    using fold_delete [OF ss lt'] st1(1) by simp
  moreover obtain st2 where "list_action uuid_of ACTION_DELETE st = Inr st2" "items st2 = items st1"
    "view_ok uuid_of st2"
    using list_action_via_loop [of ACTION_DELETE st sel uuid_of st1 ns] sel l st1(2,3)
    by (auto simp: action_codes)
  moreover have "length (nths (items st) {j. j \<notin> set sel}) + length sel = length (items st)"
  proof -
    have "{i. i < length (items st) \<and> i \<in> {j. j \<notin> set sel}} = {..<length (items st)} - set sel"
      by auto
    moreover have "card ({..<length (items st)} - set sel) = length (items st) - length sel"
      using lt distinct_card [OF ds] by (subst card_Diff_subset) auto
    moreover have "length sel \<le> length (items st)"
      using lt distinct_card [OF ds] card_mono [of "{..<length (items st)}" "set sel"] by force
    ultimately show ?thesis by (simp add: length_nths)
  qed
  ultimately show ?thesis by auto
qed

text \<open>The clear action empties the list and the selection, but only with a model
  view: without one \<^verbatim>\<open>get_selected\<close> is \<^verbatim>\<open>None\<close> and the selection sort that precedes
  the clear raises \<^verbatim>\<open>AttributeError\<close>.\<close>

lemma list_action_clear:
  assumes ok: "view_ok uuid_of st"
  shows "(get_selected st = None \<longrightarrow> list_action uuid_of ACTION_CLEAR st = Inl AttributeError) \<and>
         (get_selected st \<noteq> None \<longrightarrow>
            (\<exists>st'. list_action uuid_of ACTION_CLEAR st = Inr st' \<and> items st' = [] \<and>
                   get_selected st' = Some [] \<and> view_ok uuid_of st'))"
proof (cases "get_selected st")
  case None
  then show ?thesis by (simp add: list_action_def action_codes)
next
  case (Some sel)
  obtain st1 where c: "clear_loop uuid_of (length (items st)) st = Inr st1" and st1: "items st1 = []"
    "view_ok uuid_of st1" "get_selected st1 = get_selected st"
    using clear_loop_ok [OF ok refl] by blast
  obtain st3 where u: "update_model uuid_of st1 = Inr st3" and st3: "items st3 = []"
    "view_ok uuid_of st3" "get_selected st3 = Some sel"
    using update_model_ok [OF st1(2)] st1 Some by auto
  have "list_action uuid_of ACTION_CLEAR st =
      Inr (st3\<lparr>view := map_option (\<lambda>v. v\<lparr>sel_rows := []\<rparr>) (view st3)\<rparr>)"
    using Some c u by (simp add: list_action_def action_codes)
  moreover have "view_ok uuid_of (st3\<lparr>view := map_option (\<lambda>v. v\<lparr>sel_rows := []\<rparr>) (view st3)\<rparr>)"
    using st3(2) by (simp add: view_ok_def split: option.splits)
  ultimately show ?thesis using Some st3 by (auto simp: get_selected_def)
qed

lemmas demo_list_simps = demo_list_def view_ok_def button_sensitive_def get_selected_def action_codes

text \<open>C31: the move buttons. Pressing a sensitive up (down) button with a valid
  selection moves every selected item one row up (down), keeps the order of the others and
  the multiset of items, leaves the moved items selected, and so changes the list.\<close>

theorem list_action_up_down:
  "(view_ok uuid_of st \<and> button_sensitive ACTION_UP st \<and> get_selected st = Some sel \<and> distinct sel \<and>
    (\<forall>i \<in> set sel. i < length (items st)) \<longrightarrow>
      (\<exists>st'. list_action uuid_of ACTION_UP st = Inr st' \<and> view_ok uuid_of st' \<and>
           mset (items st') = mset (items st) \<and>
           (\<forall>i \<in> set sel. items st' ! (i - 1) = items st ! i) \<and>
           filter (\<lambda>x. x \<notin> (\<lambda>i. items st ! i) ` set sel) (items st') =
             filter (\<lambda>x. x \<notin> (\<lambda>i. items st ! i) ` set sel) (items st) \<and>
           get_selected st' = Some (map (\<lambda>i. i - 1) (sort sel)) \<and> items st' \<noteq> items st)) \<and>
   (view_ok uuid_of st \<and> button_sensitive ACTION_DOWN st \<and> get_selected st = Some sel \<and> distinct sel \<and>
    (\<forall>i \<in> set sel. i < length (items st)) \<longrightarrow>
      (\<exists>st'. list_action uuid_of ACTION_DOWN st = Inr st' \<and> view_ok uuid_of st' \<and>
           mset (items st') = mset (items st) \<and>
           (\<forall>i \<in> set sel. items st' ! Suc i = items st ! i) \<and>
           filter (\<lambda>x. x \<notin> (\<lambda>i. items st ! i) ` set sel) (items st') =
             filter (\<lambda>x. x \<notin> (\<lambda>i. items st ! i) ` set sel) (items st) \<and>
           get_selected st' = Some (map Suc (sort sel)) \<and> items st' \<noteq> items st))"
  using list_action_up [of uuid_of st sel] list_action_down [of uuid_of st sel] by blast

text \<open>C33: the removal buttons. Pressing delete with a valid selection removes exactly
  the selected rows, so the list shrinks by their number (the loop runs from the highest
  index down, so each index still names its item when it is popped). The clear action
  empties the list and the selection, but only with a model view: without one
  \<^verbatim>\<open>get_selected\<close> is \<^verbatim>\<open>None\<close> and the selection sort that precedes the clear raises
  \<^verbatim>\<open>AttributeError\<close>.\<close>

theorem list_action_delete_clear:
  "(view_ok uuid_of st \<and> get_selected st = Some sel \<and> distinct sel \<and>
    (\<forall>i \<in> set sel. i < length (items st)) \<longrightarrow>
      (\<exists>st'. list_action uuid_of ACTION_DELETE st = Inr st' \<and> view_ok uuid_of st' \<and>
           items st' = nths (items st) {j. j \<notin> set sel} \<and>
           length (items st') + length sel = length (items st))) \<and>
   (view_ok uuid_of st \<longrightarrow>
      (get_selected st = None \<longrightarrow> list_action uuid_of ACTION_CLEAR st = Inl AttributeError) \<and>
      (get_selected st \<noteq> None \<longrightarrow>
         (\<exists>st'. list_action uuid_of ACTION_CLEAR st = Inr st' \<and> items st' = [] \<and>
                get_selected st' = Some [] \<and> view_ok uuid_of st')))"
  using list_action_delete [of uuid_of st sel] list_action_clear [of uuid_of st] by blast

theorem list_action_up_down_witness:
  "(\<exists>st'. list_action id ACTION_UP demo_list = Inr st' \<and> items st' ! 0 = ''b'' \<and>
     get_selected st' = Some [0] \<and> items st' \<noteq> items demo_list) \<and>
   (\<exists>st'. list_action id ACTION_DOWN demo_list = Inr st' \<and> items st' ! 2 = ''b'' \<and>
     get_selected st' = Some [2] \<and> items st' \<noteq> items demo_list)"
  using list_action_up_down [of id demo_list "[1]"] by (auto simp: demo_list_simps numeral_2_eq_2)

theorem list_action_delete_clear_witness:
  "(\<exists>st'. list_action id ACTION_DELETE demo_list = Inr st' \<and> items st' = [''a'', ''c'']) \<and>
   (\<exists>st'. list_action id ACTION_CLEAR demo_list = Inr st' \<and> items st' = []) \<and>
   list_action id ACTION_CLEAR (demo_list\<lparr>view := None\<rparr>) = Inl AttributeError"
proof -
  have "nths [''a'', ''b'', ''c''] {j. j \<notin> set [1]} = [''a'', ''c'']"
    by (simp add: nths_Cons)
  then show ?thesis
    using list_action_delete_clear [of id demo_list "[1]"]
      list_action_delete_clear [of id "demo_list\<lparr>view := None\<rparr>" "[]"]
    by (auto simp: demo_list_simps)
qed

end
