(* ===== verification/ListPersist.thy ===== *)
theory ListPersist
  imports ListPlugin Entities
begin

text \<open>
  The task-settings persistence of \<^verbatim>\<open>ListPluginBase\<close> (\<^verbatim>\<open>get_persist_data\<close> and
  \<^verbatim>\<open>set_persist_data\<close>, lines 643--670 of \<^verbatim>\<open>src/pycam/Plugins/__init__.py\<close>): the list
  plugin of \<open>ListPlugin\<close> holding references to the entities of \<open>Entities\<close>, whose
  \<^verbatim>\<open>item["uuid"]\<close> is read from the entity store (\<open>uuid_val\<close>). Saving lists each
  entity's \<^verbatim>\<open>get_persist_data()\<close> under the plugin's name; restoring pops every item
  and appends one new \<^verbatim>\<open>CHILD_ENTITY\<close> per saved dict, each call re-synchronising
  the tree model through \<^verbatim>\<open>_change_wrapper\<close>.
\<close>

section \<open>Strings with identity\<close>

text \<open>Line 650 compares \<^verbatim>\<open>what\<close> with the literal by identity (\<^verbatim>\<open>is not\<close>): a Python
  string is its text and the object holding it. The literal of line 650 is one object
  (CPython interns it with the other identifier-like literals of the program).\<close>

datatype pystr = PyStr string nat

definition PERSIST_TASK_SETTINGS_literal :: pystr where
  "PERSIST_TASK_SETTINGS_literal = PyStr ''PERSIST_TASK_SETTINGS'' 0"

section \<open>\<^verbatim>\<open>get_persist_data\<close>\<close>

text \<open>\<^verbatim>\<open>getattr(self.CHILD_ENTITY, 'PERSIST', False)\<close>: \<^verbatim>\<open>None\<close> (the default of
  line 427) has no such attribute.\<close>

definition child_persist :: "entity_class option \<Rightarrow> bool" where
  "child_persist child = (case child of None \<Rightarrow> False | Some cls \<Rightarrow> PERSIST cls)"

text \<open>\<^verbatim>\<open>obj.get_persist_data()\<close> for an item of the list (a reference always denotes an
  object in Python; a dangling one raises \<^verbatim>\<open>AttributeError\<close> in the model).\<close>

definition item_persist_data :: "entity_store \<Rightarrow> ref \<Rightarrow> pydict result" where
  "item_persist_data st r = (case heap st r of None \<Rightarrow> Inl AttributeError | Some e \<Rightarrow> get_persist_data st e)"

text \<open>Lines 643--658.\<close>

definition list_get_persist_data ::
  "entity_store \<Rightarrow> entity_class option \<Rightarrow> string \<Rightarrow> pystr option \<Rightarrow> ref list \<Rightarrow> pydict result" where
  "list_get_persist_data st child name what xs =
     (if what \<noteq> Some PERSIST_TASK_SETTINGS_literal then Inr []
      else if \<not> child_persist child then Inr []
      else map_sum id (\<lambda>ds. [(name, VList (map VDict ds))]) (map_res (item_persist_data st) xs))"

section \<open>\<^verbatim>\<open>set_persist_data\<close>\<close>

text \<open>The rebound \<^verbatim>\<open>append\<close> (lines 437--444).\<close>

definition list_append ::
  "('a \<Rightarrow> 'u) \<Rightarrow> ('a, 'u) list_plugin \<Rightarrow> 'a \<Rightarrow> ('a, 'u) list_plugin result" where
  "list_append uuid_of st item = update_model uuid_of (st\<lparr>items := items st @ [item]\<rparr>)"

text \<open>\<^verbatim>\<open>while len(self) > 0: self.pop()\<close> (lines 665--666): \<^verbatim>\<open>pop()\<close> removes the last
  item. The fuel is the length of the list, one pop per item.\<close>

fun pop_all :: "('a \<Rightarrow> 'u) \<Rightarrow> nat \<Rightarrow> ('a, 'u) list_plugin \<Rightarrow> ('a, 'u) list_plugin result" where
  "pop_all uuid_of 0 st = Inr st"
| "pop_all uuid_of (Suc n) st =
     (if 0 < length (items st) then
        (case list_pop uuid_of st (length (items st) - 1) of
           Inl e \<Rightarrow> Inl e
         | Inr (item, st1) \<Rightarrow> pop_all uuid_of n st1)
      else Inr st)"

text \<open>The argument of \<^verbatim>\<open>dict.update\<close> in \<^verbatim>\<open>unpersist\<close> (line 731): a dict (an entity
  too) gives its items; any other iterable must yield pairs, each an iterable of
  length two (\<^verbatim>\<open>ValueError\<close> otherwise, \<^verbatim>\<open>TypeError\<close> for an element that is not
  iterable). The model's dicts have string keys: a pair whose key is not a string is
  reported as \<^verbatim>\<open>TypeError\<close>.\<close>

definition update_pair :: "entity_store \<Rightarrow> pyval \<Rightarrow> (string \<times> pyval) result" where
  "update_pair st v =
     (case py_iter st v of
        Inl e \<Rightarrow> Inl e
      | Inr [VStr k, x] \<Rightarrow> Inr (k, x)
      | Inr [_, _] \<Rightarrow> Inl TypeError
      | Inr _ \<Rightarrow> Inl ValueError)"

definition update_arg :: "entity_store \<Rightarrow> pyval \<Rightarrow> pydict result" where
  "update_arg st v =
     (case v of
        VDict d \<Rightarrow> Inr d
      | VRef r \<Rightarrow> (case heap st r of None \<Rightarrow> Inl TypeError | Some e \<Rightarrow> Inr (attrs e))
      | _ \<Rightarrow> (case py_iter st v of Inl e \<Rightarrow> Inl e | Inr xs \<Rightarrow> map_res (update_pair st) xs))"

text \<open>\<^verbatim>\<open>for i in data.get(self.name, []): self.append(self.CHILD_ENTITY(self.core,
  attributes=i))\<close> (lines 667--668), threading the list plugin and the entity store;
  the \<open>k\<close>-th call of \<^verbatim>\<open>uuid.uuid4()\<close> is \<open>uuid4 k\<close>. The tree model reads each
  item's uuid from the store of the moment.\<close>

fun append_loop ::
  "entity_class \<Rightarrow> (nat \<Rightarrow> string) \<Rightarrow> nat \<Rightarrow> pyval list \<Rightarrow> (ref, pyval) list_plugin \<Rightarrow> entity_store \<Rightarrow>
     ((ref, pyval) list_plugin \<times> entity_store) result" where
  "append_loop cls uuid4 k [] lp st = Inr (lp, st)"
| "append_loop cls uuid4 k (i # is) lp st =
     (case update_arg st i of
        Inl e \<Rightarrow> Inl e
      | Inr a \<Rightarrow>
          (case ObjectWithAttributes_init cls (Some a) (uuid4 k) st of
             Inl e \<Rightarrow> Inl e
           | Inr (r, st1) \<Rightarrow>
               (case list_append (uuid_val st1) lp r of
                  Inl e \<Rightarrow> Inl e
                | Inr lp1 \<Rightarrow> append_loop cls uuid4 (Suc k) is lp1 st1)))"

text \<open>Lines 660--670. The argument \<^verbatim>\<open>what\<close> is not used; \<^verbatim>\<open>data\<close> is a dict.\<close>

definition list_set_persist_data ::
  "entity_class option \<Rightarrow> string \<Rightarrow> (nat \<Rightarrow> string) \<Rightarrow> pydict \<Rightarrow> (ref, pyval) list_plugin \<Rightarrow>
     entity_store \<Rightarrow> ((ref, pyval) list_plugin \<times> entity_store) result" where
  "list_set_persist_data child name uuid4 data lp st =
     (case child of
        None \<Rightarrow> Inr (lp, st)
      | Some cls \<Rightarrow>
          (case pop_all (uuid_val st) (length (items lp)) lp of
             Inl e \<Rightarrow> Inl e
           | Inr lp1 \<Rightarrow>
               (case py_iter st (case map_of data name of None \<Rightarrow> VList [] | Some v \<Rightarrow> v) of
                  Inl e \<Rightarrow> Inl e
                | Inr is \<Rightarrow>
                    (case append_loop cls uuid4 0 is lp1 st of
                       Inl e \<Rightarrow> Inl e
                     | Inr (lp2, st2) \<Rightarrow> map_sum id (\<lambda>lp3. (lp3, st2)) (update_model (uuid_val st2) lp2)))))"

section \<open>Model notions\<close>

text \<open>The tree model shows exactly the list, in order.\<close>

definition synced :: "('a \<Rightarrow> 'u) \<Rightarrow> ('a, 'u) list_plugin \<Rightarrow> bool" where
  "synced uuid_of st = (case view st of None \<Rightarrow> True | Some v \<Rightarrow> rows v = map uuid_of (items st))"

text \<open>The tree model shows the list, in some order.\<close>

definition shown :: "('a \<Rightarrow> 'u) \<Rightarrow> ('a, 'u) list_plugin \<Rightarrow> bool" where
  "shown uuid_of st =
     (case view st of None \<Rightarrow> True | Some v \<Rightarrow> mset (rows v) = mset (map uuid_of (items st)))"

text \<open>The uuid an entity carries (\<^verbatim>\<open>e["uuid"]\<close>).\<close>

definition euuid :: "entity \<Rightarrow> pyval" where
  "euuid e = (case map_of (attrs e) ''uuid'' of None \<Rightarrow> VNone | Some u \<Rightarrow> u)"

text \<open>An entity of class \<open>cls\<close> without parameters that \<^verbatim>\<open>__init__\<close> could have made: its
  class persists, its keys are distinct and include those \<^verbatim>\<open>__init__\<close> sets, and its
  uuid is hashable.\<close>

definition plain_entity :: "entity_class \<Rightarrow> entity \<Rightarrow> bool" where
  "plain_entity cls e =
     (ecls e = cls \<and> PERSIST cls \<and> entitylist_parameters cls = [] \<and> entity_keys_ok e \<and>
      distinct (map fst (attrs e)) \<and> map_of (attrs e) ''parameters'' = None \<and> py_hashable (euuid e))"

section \<open>Fixtures\<close>

text \<open>A tool list holding the tool of \<open>demo_store\<close>, shown and selected in its view.\<close>

definition demo_tool_list :: "(ref, pyval) list_plugin" where
  "demo_tool_list = \<lparr>items = [0], view = Some \<lparr>rows = [VStr ''u1''], sel_rows = [0]\<rparr>\<rparr>"

section \<open>The tree model kept in step\<close>

lemma map_res_py_index_self: "distinct xs \<Longrightarrow> map_res (py_index xs) xs = Inr [0..<length xs]"
  by (simp add: map_res_Inr_iff list_all2_conv_all_nth py_index_nth)

lemma gtk_reorder_id: "gtk_reorder us [0..<length us] = us"
  by (auto simp: gtk_reorder_def intro: nth_equalityI)

text \<open>When the kept rows followed by the new uuids are the list itself, the
  re-synchronisation leaves them so and does not warn.\<close>

lemma update_gtk_treemodel_same:
  assumes "distinct cur"
    and "filter (\<lambda>u. u \<in> set cur) tm @ [u \<leftarrow> cur. u \<notin> set (filter (\<lambda>u. u \<in> set cur) tm)] = cur"
  shows "update_gtk_treemodel cur tm = Inr (cur, False)"
proof -
  have r1: "remove_rows tm (rev [i \<leftarrow> [0..<length tm]. tm ! i \<notin> set cur]) = filter (\<lambda>u. u \<in> set cur) tm"
    using remove_rows_filter [of tm "\<lambda>u. u \<notin> set cur"] by simp
  have rows2: "remove_rows tm (rev [i \<leftarrow> [0..<length tm]. tm ! i \<notin> set cur]) @
      [u \<leftarrow> cur. u \<notin> set (remove_rows tm (rev [i \<leftarrow> [0..<length tm]. tm ! i \<notin> set cur]))] = cur"
    using assms(2) unfolding r1 .
  show ?thesis
    unfolding update_gtk_treemodel_def Let_def rows2
    using assms(1) by (simp add: map_res_py_index_self gtk_reorder_id)
qed

lemma update_model_shown:
  assumes "view_ok uuid_of st"
  shows "\<exists>st'. update_model uuid_of st = Inr st' \<and> items st' = items st \<and> view_ok uuid_of st' \<and>
           shown uuid_of st' \<and> get_selected st' = get_selected st"
proof (cases "view st")
  case None
  then show ?thesis using assms by (simp add: update_model_def shown_def)
next
  case (Some v)
  then obtain rows3 warn where u: "update_gtk_treemodel (map uuid_of (items st)) (rows v) = Inr (rows3, warn)"
    and m: "mset rows3 = mset (map uuid_of (items st))"
    using update_gtk_treemodel_ok assms by (fastforce simp: view_ok_def)
  have "distinct rows3" using mset_eq_imp_distinct_iff [OF m] assms by (simp add: view_ok_def)
  then show ?thesis
    using Some u m assms by (simp add: update_model_def view_ok_def shown_def get_selected_def)
qed

lemma update_model_synced:
  assumes "distinct (map uuid_of (items st))"
    and "case view st of None \<Rightarrow> True | Some v \<Rightarrow>
           filter (\<lambda>u. u \<in> set (map uuid_of (items st))) (rows v) @
             [u \<leftarrow> map uuid_of (items st). u \<notin> set (filter (\<lambda>u. u \<in> set (map uuid_of (items st))) (rows v))] =
           map uuid_of (items st)"
  shows "\<exists>st'. update_model uuid_of st = Inr st' \<and> items st' = items st \<and> synced uuid_of st' \<and>
           get_selected st' = get_selected st"
  using assms update_gtk_treemodel_same [OF assms(1)]
  by (cases "view st") (simp_all add: update_model_def synced_def get_selected_def)

section \<open>The pop loop\<close>

lemma pop_all_take:
  "view_ok uuid_of st \<Longrightarrow> shown uuid_of st \<Longrightarrow>
     \<exists>st'. pop_all uuid_of n st = Inr st' \<and> items st' = take (length (items st) - n) (items st) \<and>
       view_ok uuid_of st' \<and> shown uuid_of st' \<and> get_selected st' = get_selected st"
proof (induction n arbitrary: st)
  case (Suc n)
  show ?case
  proof (cases "items st = []")
    case False
    define xs where "xs = take (length (items st) - 1) (items st)"
    have "view_ok uuid_of (st\<lparr>items := xs\<rparr>)"
      using Suc.prems(1) distinct_remove_nth [of "map uuid_of (items st)" "length (items st) - 1"]
      by (simp add: view_ok_def xs_def take_map)
    then obtain st1 where u: "update_model uuid_of (st\<lparr>items := xs\<rparr>) = Inr st1" and i1: "items st1 = xs"
      and v1: "view_ok uuid_of st1" "shown uuid_of st1" "get_selected st1 = get_selected st"
      using update_model_shown by (fastforce simp: get_selected_def)
    obtain st' where "pop_all uuid_of n st1 = Inr st'" "items st' = take (length (items st1) - n) (items st1)"
      "view_ok uuid_of st'" "shown uuid_of st'" "get_selected st' = get_selected st1"
      using Suc.IH v1 by blast
    then show ?thesis
      using False u v1(3) i1 by (simp add: list_pop_def py_pop_def xs_def min_def)
  qed (simp add: Suc.prems)
qed simp

lemma pop_all_empties:
  "view_ok uuid_of st \<Longrightarrow> shown uuid_of st \<Longrightarrow> length (items st) \<le> n \<Longrightarrow>
     \<exists>st'. pop_all uuid_of n st = Inr st' \<and> items st' = [] \<and> view_ok uuid_of st' \<and> shown uuid_of st' \<and>
       get_selected st' = get_selected st"
  using pop_all_take [of uuid_of st n] by simp

lemma shown_empty_synced: "shown uuid_of st \<Longrightarrow> items st = [] \<Longrightarrow> synced uuid_of st"
  by (cases "view st") (simp_all add: shown_def synced_def)


lemma list_append_synced:
  assumes "synced uuid_of st" "distinct (map uuid_of (items st))"
    and "map uuid_of' (items st) = map uuid_of (items st)" "uuid_of' r \<notin> set (map uuid_of (items st))"
  shows "\<exists>st'. list_append uuid_of' st r = Inr st' \<and> items st' = items st @ [r] \<and> synced uuid_of' st' \<and>
           get_selected st' = get_selected st"
proof -
  define st1 where "st1 = st\<lparr>items := items st @ [r]\<rparr>"
  have i1: "items st1 = items st @ [r]" "view st1 = view st" by (simp_all add: st1_def)
  have d: "distinct (map uuid_of' (items st1))"
    unfolding i1 map_append assms(3) using assms(2,4) by simp
  have c: "case view st1 of None \<Rightarrow> True | Some v \<Rightarrow>
          filter (\<lambda>u. u \<in> set (map uuid_of' (items st1))) (rows v) @
            [u \<leftarrow> map uuid_of' (items st1). u \<notin> set (filter (\<lambda>u. u \<in> set (map uuid_of' (items st1))) (rows v))] =
          map uuid_of' (items st1)"
    unfolding i1 using assms(1,3,4) by (cases "view st") (auto simp: synced_def filter_id_conv)
  obtain st' where "update_model uuid_of' st1 = Inr st'" "items st' = items st1" "synced uuid_of' st'"
    "get_selected st' = get_selected st1"
    using update_model_synced [OF d c] by blast
  then show ?thesis using i1 by (simp add: list_append_def st1_def [symmetric] get_selected_def)
qed

section \<open>Restoring one entity\<close>

lemma init_restore_plain:
  assumes "plain_entity cls e"
  shows "\<exists>e'. ObjectWithAttributes_init cls (Some (attrs e)) fresh st =
           Inr (next_ref st, st\<lparr>heap := (heap st)(next_ref st \<mapsto> e'),
                                uuid_map := (uuid_map st)(euuid e \<mapsto> next_ref st),
                                next_ref := Suc (next_ref st)\<rparr>) \<and>
           ecls e' = cls \<and> map_of (attrs e') = map_of (attrs e)"
proof -
  define e0 where "e0 = \<lparr>ecls = cls, attrs = dict_update [(''name'', VStr (node_key cls)),
                                                    (''uuid'', VStr fresh)] (defaults cls)\<rparr>"
  have pe: "ecls e = cls" "entitylist_parameters cls = []" "entity_keys_ok e"
    "distinct (map fst (attrs e))" "map_of (attrs e) ''parameters'' = None" "py_hashable (euuid e)"
    using assms by (simp_all add: plain_entity_def)
  have keys: "fst ` set (attrs e0) \<subseteq> fst ` set (attrs e)"
    using pe(1,3) by (auto simp: e0_def dom_dict_update entity_keys_ok_def)
  have m1: "map_of (dict_update (attrs e0) (attrs e)) = map_of (attrs e)"
    using map_of_dict_update [OF pe(4)] keys by (simp add: map_add_dom_subset dom_map_of_conv_image_fst)
  have ce: "ecls e0 = cls" by (simp add: e0_def)
  have u: "unpersist st e0 (attrs e) = Inr (e0\<lparr>attrs := dict_update (attrs e0) (attrs e)\<rparr>)"
    using pe(2,5) by (simp add: unpersist_def Let_def m1 ce)
  have "map_of (attrs e) ''uuid'' \<noteq> None"
    using pe(3) by (simp add: entity_keys_ok_def map_of_eq_None_iff)
  then obtain v where v: "map_of (attrs e) ''uuid'' = Some v" by blast
  then have "register_uuid (e0\<lparr>attrs := dict_update (attrs e0) (attrs e)\<rparr>) st =
      Inr (next_ref st, st\<lparr>heap := (heap st)(next_ref st \<mapsto> e0\<lparr>attrs := dict_update (attrs e0) (attrs e)\<rparr>),
                           uuid_map := (uuid_map st)(euuid e \<mapsto> next_ref st), next_ref := Suc (next_ref st)\<rparr>)"
    using pe(6) by (simp add: register_uuid_def Let_def m1 euuid_def)
  moreover have "ObjectWithAttributes_init cls (Some (attrs e)) fresh st =
      (case unpersist st e0 (attrs e) of Inl err \<Rightarrow> Inl err | Inr e1 \<Rightarrow> register_uuid e1 st)"
    unfolding ObjectWithAttributes_init_def Let_def e0_def by simp
  ultimately show ?thesis
    using u m1 ce by auto
qed


lemma uuid_val_extend:
  "r \<noteq> n \<Longrightarrow> uuid_val (st\<lparr>heap := (heap st)(n \<mapsto> e'), uuid_map := um, next_ref := k\<rparr>) r = uuid_val st r"
  by (simp add: uuid_val_def)

lemma uuid_val_new:
  "map_of (attrs e') = map_of (attrs e) \<Longrightarrow>
     uuid_val (st\<lparr>heap := (heap st)(n \<mapsto> e'), uuid_map := um, next_ref := k\<rparr>) n = euuid e"
  by (simp add: uuid_val_def euuid_def)

section \<open>The append loop\<close>

lemma append_loop_restores:
  "list_all (plain_entity cls) es \<Longrightarrow> distinct (map euuid es) \<Longrightarrow>
   synced (uuid_val st) lp \<Longrightarrow> distinct (map (uuid_val st) (items lp)) \<Longrightarrow>
   (\<forall>r \<in> set (items lp). r < next_ref st) \<Longrightarrow>
   set (map (uuid_val st) (items lp)) \<inter> set (map euuid es) = {} \<Longrightarrow>
   \<exists>lp' st'. append_loop cls uuid4 k (map (VDict \<circ> attrs) es) lp st = Inr (lp', st') \<and>
     items lp' = items lp @ [next_ref st..<next_ref st + length es] \<and>
     next_ref st' = next_ref st + length es \<and>
     synced (uuid_val st') lp' \<and> distinct (map (uuid_val st') (items lp')) \<and>
     get_selected lp' = get_selected lp \<and>
     (\<forall>r < next_ref st. heap st' r = heap st r) \<and>
     (\<forall>u. u \<notin> set (map euuid es) \<longrightarrow> uuid_map st' u = uuid_map st u) \<and>
     (\<forall>j < length es. \<exists>e'. heap st' (next_ref st + j) = Some e' \<and> ecls e' = cls \<and>
        map_of (attrs e') = map_of (attrs (es ! j)) \<and> uuid_map st' (euuid (es ! j)) = Some (next_ref st + j))"
proof (induction es arbitrary: k lp st)
  case Nil
  then show ?case by simp
next
  case (Cons e es)
  let ?n = "next_ref st"
  obtain e' where init: "ObjectWithAttributes_init cls (Some (attrs e)) (uuid4 k) st =
      Inr (?n, st\<lparr>heap := (heap st)(?n \<mapsto> e'), uuid_map := (uuid_map st)(euuid e \<mapsto> ?n),
                   next_ref := Suc ?n\<rparr>)"
    and ce: "ecls e' = cls" and me: "map_of (attrs e') = map_of (attrs e)"
    using init_restore_plain Cons.prems(1) by fastforce
  define st1 where "st1 = st\<lparr>heap := (heap st)(?n \<mapsto> e'), uuid_map := (uuid_map st)(euuid e \<mapsto> ?n),
                   next_ref := Suc ?n\<rparr>"
  have old: "map (uuid_val st1) (items lp) = map (uuid_val st) (items lp)"
    using Cons.prems(5) by (auto simp: st1_def uuid_val_extend)
  have new: "uuid_val st1 ?n = euuid e" using me by (simp add: st1_def uuid_val_new)
  have fresh: "uuid_val st1 ?n \<notin> set (map (uuid_val st) (items lp))" using new Cons.prems(6) by auto
  obtain lp1 where app: "list_append (uuid_val st1) lp ?n = Inr lp1" and i1: "items lp1 = items lp @ [?n]"
    and s1: "synced (uuid_val st1) lp1" and g1: "get_selected lp1 = get_selected lp"
    using list_append_synced [OF Cons.prems(3,4) old fresh] by blast
  have m1: "map (uuid_val st1) (items lp1) = map (uuid_val st) (items lp) @ [euuid e]"
    using i1 old new by simp
  have ih: "list_all (plain_entity cls) es" "distinct (map euuid es)"
    using Cons.prems(1,2) by simp_all
  have ih2: "distinct (map (uuid_val st1) (items lp1))"
    "set (map (uuid_val st1) (items lp1)) \<inter> set (map euuid es) = {}"
    unfolding m1 using Cons.prems(2,4,6) by auto
  have ih3: "\<forall>r \<in> set (items lp1). r < next_ref st1"
    using Cons.prems(5) i1 by (auto simp: st1_def)
  obtain lp' st' where run: "append_loop cls uuid4 (Suc k) (map (VDict \<circ> attrs) es) lp1 st1 = Inr (lp', st')"
    and r1: "items lp' = items lp1 @ [next_ref st1..<next_ref st1 + length es]"
    and r2: "next_ref st' = next_ref st1 + length es"
    and r3: "synced (uuid_val st') lp'" "distinct (map (uuid_val st') (items lp'))"
      "get_selected lp' = get_selected lp1"
    and r4: "\<forall>r < next_ref st1. heap st' r = heap st1 r"
    and r5: "\<forall>u. u \<notin> set (map euuid es) \<longrightarrow> uuid_map st' u = uuid_map st1 u"
    and r6: "\<forall>j < length es. \<exists>e'. heap st' (next_ref st1 + j) = Some e' \<and> ecls e' = cls \<and>
        map_of (attrs e') = map_of (attrs (es ! j)) \<and> uuid_map st' (euuid (es ! j)) = Some (next_ref st1 + j)"
    using Cons.IH [OF ih(1,2) s1 ih2(1) ih3 ih2(2)] by blast
  have step: "append_loop cls uuid4 k (map (VDict \<circ> attrs) (e # es)) lp st = Inr (lp', st')"
    using init app run by (simp add: update_arg_def st1_def [symmetric])
  have ns: "next_ref st1 = Suc ?n" by (simp add: st1_def)
  have items: "items lp' = items lp @ [?n..<?n + length (e # es)]"
  proof -
    have "[?n..<?n + length (e # es)] = ?n # [Suc ?n..<Suc ?n + length es]"
      by (subst upt_conv_Cons) simp_all
    then show ?thesis using r1 i1 ns by simp
  qed
  have heap_old: "\<forall>r < ?n. heap st' r = heap st r" using r4 ns by (simp add: st1_def)
  have umap: "\<forall>u. u \<notin> set (map euuid (e # es)) \<longrightarrow> uuid_map st' u = uuid_map st u"
    using r5 by (simp add: st1_def)
  have ue: "uuid_map st' (euuid e) = Some ?n"
    using r5 Cons.prems(2) by (simp add: st1_def)
  have objs: "\<forall>j < length (e # es). \<exists>e''. heap st' (?n + j) = Some e'' \<and> ecls e'' = cls \<and>
      map_of (attrs e'') = map_of (attrs ((e # es) ! j)) \<and> uuid_map st' (euuid ((e # es) ! j)) = Some (?n + j)"
  proof (intro allI impI)
    fix j assume j: "j < length (e # es)"
    show "\<exists>e''. heap st' (?n + j) = Some e'' \<and> ecls e'' = cls \<and>
      map_of (attrs e'') = map_of (attrs ((e # es) ! j)) \<and> uuid_map st' (euuid ((e # es) ! j)) = Some (?n + j)"
    proof (cases j)
      case 0
      then show ?thesis using r4 ns ce me ue by (simp add: st1_def)
    next
      case (Suc j')
      then show ?thesis using r6 j ns by auto
    qed
  qed
  have r2': "next_ref st' = ?n + length (e # es)" using r2 ns by simp
  have g': "get_selected lp' = get_selected lp" using r3(3) g1 by simp
  show ?case
    using step items r2' r3(1,2) g' heap_old umap objs by blast
qed


lemma update_model_keeps_synced:
  assumes "distinct (map uuid_of (items st))" "synced uuid_of st"
  shows "\<exists>st'. update_model uuid_of st = Inr st' \<and> items st' = items st \<and> synced uuid_of st' \<and>
           get_selected st' = get_selected st"
proof (cases "view st")
  case None
  then show ?thesis by (simp add: update_model_def synced_def)
next
  case (Some v)
  then have "rows v = map uuid_of (items st)" using assms(2) by (simp add: synced_def)
  then have "case view st of None \<Rightarrow> True | Some v \<Rightarrow>
           filter (\<lambda>u. u \<in> set (map uuid_of (items st))) (rows v) @
             [u \<leftarrow> map uuid_of (items st). u \<notin> set (filter (\<lambda>u. u \<in> set (map uuid_of (items st))) (rows v))] =
           map uuid_of (items st)"
    using Some by (simp add: filter_id_conv)
  from update_model_synced [OF assms(1) this] show ?thesis .
qed

section \<open>Saving the list\<close>

lemma uuid_val_heap: "list_all2 (\<lambda>r e. heap st r = Some e) xs es \<Longrightarrow> map (uuid_val st) xs = map euuid es"
  by (induction rule: list_all2_induct) (simp_all add: uuid_val_def euuid_def)

lemma list_get_persist_data_plain:
  assumes "list_all2 (\<lambda>r e. heap st r = Some e) xs es" "list_all (plain_entity cls) es" "PERSIST cls"
  shows "list_get_persist_data st (Some cls) name (Some PERSIST_TASK_SETTINGS_literal) xs =
           Inr [(name, VList (map (VDict \<circ> attrs) es))]"
proof -
  have "list_all2 (\<lambda>x y. item_persist_data st x = Inr y) xs (map attrs es)"
    using assms unfolding list_all2_map2
    by (induction rule: list_all2_induct)
       (auto simp: item_persist_data_def get_persist_data_def plain_entity_def)
  then have "map_res (item_persist_data st) xs = Inr (map attrs es)" by (simp only: map_res_Inr_iff)
  then show ?thesis
    using assms(3) by (simp add: list_get_persist_data_def child_persist_def)
qed


section \<open>Restoring the list\<close>

lemma list_set_persist_data_restores:
  assumes "view_ok (uuid_val st) lp" "shown (uuid_val st) lp"
    and "list_all (plain_entity cls) es" "distinct (map euuid es)"
    and "py_iter st (case map_of data name of None \<Rightarrow> VList [] | Some v \<Rightarrow> v) = Inr (map (VDict \<circ> attrs) es)"
  shows "\<exists>lp' st'. list_set_persist_data (Some cls) name uuid4 data lp st = Inr (lp', st') \<and>
           items lp' = [next_ref st..<next_ref st + length es] \<and> synced (uuid_val st') lp' \<and>
           get_selected lp' = get_selected lp \<and>
           (\<forall>j < length es. \<exists>e'. heap st' (next_ref st + j) = Some e' \<and> ecls e' = cls \<and>
              map_of (attrs e') = map_of (attrs (es ! j)) \<and> uuid_map st' (euuid (es ! j)) = Some (next_ref st + j))"
proof -
  obtain lp1 where p: "pop_all (uuid_val st) (length (items lp)) lp = Inr lp1" and e1: "items lp1 = []"
    and s1: "shown (uuid_val st) lp1" and g1: "get_selected lp1 = get_selected lp"
    using pop_all_empties [OF assms(1,2)] by blast
  have "synced (uuid_val st) lp1" using shown_empty_synced [OF s1 e1] .
  then obtain lp2 st2 where a: "append_loop cls uuid4 0 (map (VDict \<circ> attrs) es) lp1 st = Inr (lp2, st2)"
    and i2: "items lp2 = [next_ref st..<next_ref st + length es]"
    and s2: "synced (uuid_val st2) lp2" "distinct (map (uuid_val st2) (items lp2))"
    and g2: "get_selected lp2 = get_selected lp1"
    and o2: "\<forall>j < length es. \<exists>e'. heap st2 (next_ref st + j) = Some e' \<and> ecls e' = cls \<and>
              map_of (attrs e') = map_of (attrs (es ! j)) \<and> uuid_map st2 (euuid (es ! j)) = Some (next_ref st + j)"
    using append_loop_restores [OF assms(3,4), of st lp1 uuid4 0] e1 by auto
  obtain lp3 where u: "update_model (uuid_val st2) lp2 = Inr lp3" and i3: "items lp3 = items lp2"
    and s3: "synced (uuid_val st2) lp3" and g3: "get_selected lp3 = get_selected lp2"
    using update_model_keeps_synced [OF s2(2) s2(1)] by blast
  have "list_set_persist_data (Some cls) name uuid4 data lp st = Inr (lp3, st2)"
    using p assms(5) a u by (simp add: list_set_persist_data_def)
  then show ?thesis using i3 i2 s3 g3 g2 g1 o2 by auto
qed




text \<open>C26. The edge cases of the persistence. Restoring data that has no entry under the
  plugin's name (\<^verbatim>\<open>data.get(self.name, [])\<close>) does not leave the list alone: every
  item is popped and nothing is appended, so the list and its tree model end up empty;
  the entity store is untouched. \<^verbatim>\<open>what is not 'PERSIST_TASK_SETTINGS'\<close> compares
  objects, so a string equal to the literal but another object gets the empty dict
  however the list looks; without a child class (\<^verbatim>\<open>CHILD_ENTITY = None\<close>) nothing
  is saved and restoring changes nothing.\<close>

theorem list_set_persist_data_missing_key:
  assumes "view_ok (uuid_val st) lp" "shown (uuid_val st) lp" "map_of data name = None"
  shows "(\<exists>lp'. list_set_persist_data (Some cls) name uuid4 data lp st = Inr (lp', st) \<and>
            items lp' = [] \<and> synced (uuid_val st) lp') \<and>
         list_get_persist_data st child name (Some (PyStr ''PERSIST_TASK_SETTINGS'' (Suc k))) xs = Inr [] \<and>
         list_get_persist_data st None name what xs = Inr [] \<and>
         list_set_persist_data None name uuid4 data lp st = Inr (lp, st)"
proof -
  obtain lp1 where p: "pop_all (uuid_val st) (length (items lp)) lp = Inr lp1" and e1: "items lp1 = []"
    and s1: "shown (uuid_val st) lp1"
    using pop_all_empties [OF assms(1,2)] by blast
  obtain lp3 where u: "update_model (uuid_val st) lp1 = Inr lp3" and i3: "items lp3 = []"
    and s3: "synced (uuid_val st) lp3"
    using update_model_keeps_synced [of "uuid_val st" lp1] shown_empty_synced [OF s1 e1] e1 by auto
  have "list_set_persist_data (Some cls) name uuid4 data lp st = Inr (lp3, st)"
    using p u assms(3) by (simp add: list_set_persist_data_def py_iter_def)
  moreover have "list_get_persist_data st child name (Some (PyStr ''PERSIST_TASK_SETTINGS'' (Suc k))) xs = Inr [] \<and>
         list_get_persist_data st None name what xs = Inr [] \<and>
         list_set_persist_data None name uuid4 data lp st = Inr (lp, st)"
    by (simp add: list_get_persist_data_def PERSIST_TASK_SETTINGS_literal_def child_persist_def
        list_set_persist_data_def)
  ultimately show ?thesis using i3 s3 by blast
qed

theorem list_set_persist_data_missing_key_witness:
  "view_ok (uuid_val demo_store) demo_tool_list \<and> shown (uuid_val demo_store) demo_tool_list \<and>
   map_of [(''Models'', VList [])] ''Tools'' = None \<and>
   (\<exists>lp'. list_set_persist_data (Some tool_class) ''Tools'' (\<lambda>_. ''u9'') [(''Models'', VList [])]
            demo_tool_list demo_store = Inr (lp', demo_store) \<and>
          items lp' = [] \<and> synced (uuid_val demo_store) lp') \<and>
   list_get_persist_data demo_store (Some tool_class) ''Tools'' (Some (PyStr ''PERSIST_TASK_SETTINGS'' 1))
     (items demo_tool_list) = Inr []"
proof -
  have h: "view_ok (uuid_val demo_store) demo_tool_list" "shown (uuid_val demo_store) demo_tool_list"
    "map_of [(''Models'', VList [])] ''Tools'' = None"
    by (simp_all add: demo_tool_list_def demo_store_def demo_tool_def view_ok_def shown_def uuid_val_def)
  show ?thesis
    using h list_set_persist_data_missing_key [OF h, of tool_class "\<lambda>_. ''u9''" "Some tool_class" 0
        "items demo_tool_list" "Some PERSIST_TASK_SETTINGS_literal"] by simp
qed

text \<open>C40. The reset loop \<^verbatim>\<open>while len(self) > 0: self.pop()\<close> of
  \<^verbatim>\<open>set_persist_data\<close> terminates after exactly \<^verbatim>\<open>len(self)\<close> iterations on a
  well-formed list: each iteration removes the last item, so after \<open>n\<close> of them the
  first \<open>len - n\<close> items are left (the guard still holds for \<open>n < len\<close>), and after
  \<open>len\<close> of them the list is empty, the guard fails, and the tree model is empty too.\<close>

theorem pop_all_terminates:
  assumes "view_ok uuid_of st" "shown uuid_of st"
  shows "(\<exists>st'. pop_all uuid_of (length (items st)) st = Inr st' \<and> items st' = [] \<and> synced uuid_of st') \<and>
         (\<forall>n < length (items st). \<exists>st'. pop_all uuid_of n st = Inr st' \<and>
            items st' = take (length (items st) - n) (items st) \<and> items st' \<noteq> [])"
proof -
  obtain st' where "pop_all uuid_of (length (items st)) st = Inr st'" "items st' = []" "shown uuid_of st'"
    using pop_all_empties [OF assms] by blast
  then have "\<exists>st'. pop_all uuid_of (length (items st)) st = Inr st' \<and> items st' = [] \<and> synced uuid_of st'"
    using shown_empty_synced by blast
  moreover have "\<exists>st'. pop_all uuid_of n st = Inr st' \<and>
      items st' = take (length (items st) - n) (items st) \<and> items st' \<noteq> []" if "n < length (items st)" for n
    using pop_all_take [OF assms, of n] that by auto
  ultimately show ?thesis by blast
qed

theorem pop_all_terminates_witness:
  "view_ok id demo_list \<and> shown id demo_list \<and>
   (\<exists>st'. pop_all id 3 demo_list = Inr st' \<and> items st' = [] \<and> synced id st') \<and>
   (\<exists>st'. pop_all id 2 demo_list = Inr st' \<and> items st' = [''a''] \<and> items st' \<noteq> [])"
proof -
  have h: "view_ok id demo_list" "shown id demo_list" by (simp_all add: view_ok_def shown_def demo_list_def)
  have l: "length (items demo_list) = 3" "take 1 (items demo_list) = [''a'']"
    by (simp_all add: demo_list_def)
  have t1: "\<exists>st'. pop_all id 3 demo_list = Inr st' \<and> items st' = [] \<and> synced id st'"
    and t2: "\<forall>n < 3. \<exists>st'. pop_all id n demo_list = Inr st' \<and>
       items st' = take (3 - n) (items demo_list) \<and> items st' \<noteq> []"
    using pop_all_terminates [OF h] unfolding l(1) by blast+
  have "\<exists>st'. pop_all id 2 demo_list = Inr st' \<and> items st' = take 1 (items demo_list) \<and> items st' \<noteq> []"
    using spec [OF t2, of 2] by simp
  then show ?thesis using h t1 l(2) by simp
qed

end
