(* ===== verification/ListView.thy ===== *)
theory ListView
  imports ListPersist
begin

text \<open>
  The selection side of \<^verbatim>\<open>ListPluginBase\<close> (\<^verbatim>\<open>select\<close>, \<^verbatim>\<open>_select_gtk\<close> and
  \<^verbatim>\<open>get_by_path\<close>, lines 492--505 and 539--547 of \<^verbatim>\<open>src/pycam/Plugins/__init__.py\<close>),
  and the list plugin's operations gathered in one datatype with one step function:
  the rebound \<^verbatim>\<open>pop\<close>, \<^verbatim>\<open>insert\<close> and \<^verbatim>\<open>append\<close>, the list actions and \<^verbatim>\<open>select\<close>.
  The invariant every operation keeps is that the tree model has distinct rows showing
  the list's uuids, each once, in some order.
\<close>

section \<open>Selecting\<close>

text \<open>The argument of \<^verbatim>\<open>select\<close>: one object, or a list or tuple of them (line 493).\<close>

datatype 'a sel_arg = SelOne 'a | SelList "'a list"

text \<open>\<^verbatim>\<open>_select_gtk\<close> (lines 498--505): the row at each index of the list is selected when
  the item at that index of the list has one of the wanted uuids, unselected otherwise.
  GTK ignores a path beyond the last row, and keeps the state of the rows beyond the
  list's length; it reports the selected rows in order.\<close>

definition select_gtk :: "('a \<Rightarrow> 'u) \<Rightarrow> ('a, 'u) list_plugin \<Rightarrow> 'a list \<Rightarrow> ('a, 'u) list_plugin" where
  "select_gtk uuid_of st selected_objs =
     (case view st of
        None \<Rightarrow> st
      | Some v \<Rightarrow>
          (let selected_uuids = map uuid_of selected_objs
           in st\<lparr>view := Some (v\<lparr>sel_rows :=
                  [index \<leftarrow> [0..<length (rows v)].
                     if index < length (items st) then uuid_of (items st ! index) \<in> set selected_uuids
                     else index \<in> set (sel_rows v)]\<rparr>)\<rparr>))"

text \<open>\<^verbatim>\<open>select\<close> (lines 492--496).\<close>

definition select :: "('a \<Rightarrow> 'u) \<Rightarrow> ('a, 'u) list_plugin \<Rightarrow> 'a sel_arg \<Rightarrow> ('a, 'u) list_plugin" where
  "select uuid_of st selected =
     (let selected' = (case selected of SelOne x \<Rightarrow> [x] | SelList xs \<Rightarrow> xs)
      in if view st \<noteq> None then select_gtk uuid_of st selected' else st)"

text \<open>\<^verbatim>\<open>get_by_path\<close> (lines 539--547): the uuid in the tree-model row of the path, then
  the first item of the list with that uuid. A row index beyond the tree model raises
  \<^verbatim>\<open>IndexError\<close> in PyGTK.\<close>

definition get_by_path :: "('a \<Rightarrow> 'u) \<Rightarrow> ('a, 'u) list_plugin \<Rightarrow> nat \<Rightarrow> 'a option result" where
  "get_by_path uuid_of st path =
     (case view st of
        None \<Rightarrow> Inr None
      | Some v \<Rightarrow>
          if path < length (rows v) then Inr (find (\<lambda>t. rows v ! path = uuid_of t) (items st))
          else Inl IndexError)"

section \<open>The other list methods\<close>

text \<open>\<^verbatim>\<open>extend\<close>, \<^verbatim>\<open>reverse\<close> and \<^verbatim>\<open>remove\<close>, rebound through
  \<^verbatim>\<open>_change_wrapper\<close> (lines 437--444): the list method, then \<^verbatim>\<open>_update_model\<close>.
  \<^verbatim>\<open>remove(x)\<close> deletes the first item equal to \<open>x\<close> and raises \<^verbatim>\<open>ValueError\<close>,
  before the model update, when there is none.\<close>

definition list_extend ::
  "('a \<Rightarrow> 'u) \<Rightarrow> ('a, 'u) list_plugin \<Rightarrow> 'a list \<Rightarrow> ('a, 'u) list_plugin result" where
  "list_extend uuid_of st xs = update_model uuid_of (st\<lparr>items := items st @ xs\<rparr>)"

definition list_reverse :: "('a \<Rightarrow> 'u) \<Rightarrow> ('a, 'u) list_plugin \<Rightarrow> ('a, 'u) list_plugin result" where
  "list_reverse uuid_of st = update_model uuid_of (st\<lparr>items := rev (items st)\<rparr>)"

definition list_remove ::
  "('a \<Rightarrow> 'u) \<Rightarrow> ('a, 'u) list_plugin \<Rightarrow> 'a \<Rightarrow> ('a, 'u) list_plugin result" where
  "list_remove uuid_of st x =
     (if x \<in> set (items st) then update_model uuid_of (st\<lparr>items := remove1 x (items st)\<rparr>)
      else Inl ValueError)"

text \<open>The classmethod \<^verbatim>\<open>new\<close> (lines 446--450) names \<^verbatim>\<open>self\<close>, which is not bound in
  it (its parameter is \<^verbatim>\<open>myclass\<close>): every call raises \<^verbatim>\<open>NameError\<close> at line 449.\<close>

definition list_new :: "'a list \<Rightarrow> ('a, 'u) list_plugin result" where
  "list_new value_list = Inl NameError"

section \<open>Model-update observers\<close>

text \<open>\<^verbatim>\<open>register_model_update\<close> and \<^verbatim>\<open>unregister_model_update\<close> (lines 554--559) on
  \<^verbatim>\<open>self._update_model_funcs\<close>; \<^verbatim>\<open>list.remove\<close> drops the first registration.\<close>

definition register_model_update :: "'f \<Rightarrow> 'f list \<Rightarrow> 'f list" where
  "register_model_update func funcs = funcs @ [func]"

definition unregister_model_update :: "'f \<Rightarrow> 'f list \<Rightarrow> 'f list" where
  "unregister_model_update func funcs = (if func \<in> set funcs then remove1 func funcs else funcs)"

text \<open>\<^verbatim>\<open>_update_model\<close> (lines 549--552): the tree-model update, then every registered
  function called once, in registration order; the model returns the state and the
  calls made. An exception of the tree-model update propagates before any call.\<close>

definition update_model_notify ::
  "('a \<Rightarrow> 'u) \<Rightarrow> 'f list \<Rightarrow> ('a, 'u) list_plugin \<Rightarrow> (('a, 'u) list_plugin \<times> 'f list) result" where
  "update_model_notify uuid_of funcs st = map_sum id (\<lambda>st'. (st', funcs)) (update_model uuid_of st)"

section \<open>The operations\<close>

datatype 'a list_op =
    OpPop nat
  | OpInsert nat 'a
  | OpAppend 'a
  | OpAction int
  | OpSelect "'a sel_arg"
  | OpExtend "'a list"
  | OpReverse
  | OpRemove 'a

fun list_step :: "('a \<Rightarrow> 'u) \<Rightarrow> 'a list_op \<Rightarrow> ('a, 'u) list_plugin \<Rightarrow> ('a, 'u) list_plugin result" where
  "list_step uuid_of (OpPop i) st = map_sum id snd (list_pop uuid_of st i)"
| "list_step uuid_of (OpInsert i x) st = list_insert uuid_of st i x"
| "list_step uuid_of (OpAppend x) st = list_append uuid_of st x"
| "list_step uuid_of (OpAction action) st = list_action uuid_of action st"
| "list_step uuid_of (OpSelect selected) st = Inr (select uuid_of st selected)"
| "list_step uuid_of (OpExtend xs) st = list_extend uuid_of st xs"
| "list_step uuid_of OpReverse st = list_reverse uuid_of st"
| "list_step uuid_of (OpRemove x) st = list_remove uuid_of st x"

text \<open>A sequence of operations, stopping at the first exception.\<close>

fun list_run :: "('a \<Rightarrow> 'u) \<Rightarrow> 'a list_op list \<Rightarrow> ('a, 'u) list_plugin \<Rightarrow> ('a, 'u) list_plugin result" where
  "list_run uuid_of [] st = Inr st"
| "list_run uuid_of (op # ops) st =
     (case list_step uuid_of op st of Inl e \<Rightarrow> Inl e | Inr st' \<Rightarrow> list_run uuid_of ops st')"

section \<open>Model notions\<close>

text \<open>The well-formedness of a list plugin: distinct uuids in the list, and a tree model
  whose rows are those uuids, each once.\<close>

definition list_wf :: "('a \<Rightarrow> 'u) \<Rightarrow> ('a, 'u) list_plugin \<Rightarrow> bool" where
  "list_wf uuid_of st = (view_ok uuid_of st \<and> shown uuid_of st)"

text \<open>An operation that adds an item adds one whose uuid is not in the list yet.\<close>

fun op_fresh :: "('a \<Rightarrow> 'u) \<Rightarrow> ('a, 'u) list_plugin \<Rightarrow> 'a list_op \<Rightarrow> bool" where
  "op_fresh uuid_of st (OpInsert i x) = (uuid_of x \<notin> set (map uuid_of (items st)))"
| "op_fresh uuid_of st (OpAppend x) = (uuid_of x \<notin> set (map uuid_of (items st)))"
| "op_fresh uuid_of st (OpExtend xs) =
     (distinct (map uuid_of xs) \<and> set (map uuid_of xs) \<inter> set (map uuid_of (items st)) = {})"
| "op_fresh uuid_of st _ = True"

fun run_fresh :: "('a \<Rightarrow> 'u) \<Rightarrow> 'a list_op list \<Rightarrow> ('a, 'u) list_plugin \<Rightarrow> bool" where
  "run_fresh uuid_of [] st = True"
| "run_fresh uuid_of (op # ops) st =
     (op_fresh uuid_of st op \<and>
      (case list_step uuid_of op st of Inl e \<Rightarrow> True | Inr st' \<Rightarrow> run_fresh uuid_of ops st'))"


section \<open>Every operation keeps the list well formed\<close>

lemma update_model_wf:
  assumes "view_ok uuid_of st" "update_model uuid_of st = Inr st'"
  shows "list_wf uuid_of st' \<and> items st' = items st \<and> get_selected st' = get_selected st"
  using update_model_shown [OF assms(1)] assms(2) by (auto simp: list_wf_def)

lemma mset_remove_nth: "i < length xs \<Longrightarrow> mset (take i xs @ drop (Suc i) xs) + {#xs ! i#} = mset xs"
  by (subst (3) id_take_nth_drop [of i xs]) simp_all

lemma map_sum_Pair_Inr: "map_sum id (Pair a) r = Inr (x, y) \<longleftrightarrow> x = a \<and> r = Inr y"
  by (cases r) auto

lemma mset_py_insert: "mset (py_insert xs j x) = mset xs + {#x#}"
  using mset_append [of "take j xs" "drop j xs"] by (simp add: py_insert_def)

lemma list_pop_wf:
  assumes "view_ok uuid_of st" "list_pop uuid_of st i = Inr (x, st1)"
  shows "list_wf uuid_of st1 \<and> mset (items st1) + {#x#} = mset (items st) \<and>
         uuid_of x \<notin> set (map uuid_of (items st1))"
proof -
  have i: "i < length (items st)" and x: "x = items st ! i"
    and u: "update_model uuid_of (st\<lparr>items := take i (items st) @ drop (Suc i) (items st)\<rparr>) = Inr st1"
    using assms(2) by (auto simp: list_pop_def py_pop_def map_sum_Pair_Inr split: if_splits)
  have d: "distinct (map uuid_of (take i (items st) @ x # drop (Suc i) (items st)))"
    using assms(1) id_take_nth_drop [OF i] x by (simp add: view_ok_def)
  have "view_ok uuid_of (st\<lparr>items := take i (items st) @ drop (Suc i) (items st)\<rparr>)"
    using assms(1) distinct_remove_nth [of "map uuid_of (items st)" i]
    by (simp add: view_ok_def take_map drop_map)
  from update_model_wf [OF this u] show ?thesis
    using d mset_remove_nth [OF i] x by auto
qed

lemma list_insert_wf:
  assumes "view_ok uuid_of st" "uuid_of x \<notin> set (map uuid_of (items st))" "list_insert uuid_of st j x = Inr st2"
  shows "list_wf uuid_of st2 \<and> mset (items st2) = mset (items st) + {#x#}"
proof -
  have "distinct (map uuid_of (take j (items st) @ x # drop j (items st)))"
    using assms(1,2) distinct_take [of "map uuid_of (items st)" j] distinct_drop [of "map uuid_of (items st)" j]
      set_take_disj_set_drop_if_distinct [of "map uuid_of (items st)" j j]
      in_set_takeD [of _ j "map uuid_of (items st)"] in_set_dropD [of _ j "map uuid_of (items st)"]
    by (auto simp: view_ok_def take_map drop_map)
  then have v: "view_ok uuid_of (st\<lparr>items := py_insert (items st) j x\<rparr>)"
    using assms(1) by (simp add: view_ok_def py_insert_def)
  have u: "update_model uuid_of (st\<lparr>items := py_insert (items st) j x\<rparr>) = Inr st2"
    using assms(3) by (simp add: list_insert_def)
  have "list_wf uuid_of st2" "items st2 = py_insert (items st) j x"
    using update_model_wf [OF v u] by simp_all
  then show ?thesis by (simp add: mset_py_insert)
qed

lemma list_append_wf:
  assumes "view_ok uuid_of st" "uuid_of x \<notin> set (map uuid_of (items st))" "list_append uuid_of st x = Inr st2"
  shows "list_wf uuid_of st2 \<and> mset (items st2) = mset (items st) + {#x#}"
proof -
  have "view_ok uuid_of (st\<lparr>items := items st @ [x]\<rparr>)"
    using assms(1,2) by (simp add: view_ok_def)
  from update_model_wf [OF this] assms(3) show ?thesis by (simp add: list_append_def)
qed

lemma list_extend_wf:
  assumes "view_ok uuid_of st" "distinct (map uuid_of xs)"
    and "set (map uuid_of xs) \<inter> set (map uuid_of (items st)) = {}" "list_extend uuid_of st xs = Inr st2"
  shows "list_wf uuid_of st2 \<and> items st2 = items st @ xs"
proof -
  have "view_ok uuid_of (st\<lparr>items := items st @ xs\<rparr>)"
    using assms(1-3) by (auto simp: view_ok_def)
  from update_model_wf [OF this] assms(4) show ?thesis by (simp add: list_extend_def)
qed

lemma list_reverse_wf:
  assumes "view_ok uuid_of st" "list_reverse uuid_of st = Inr st2"
  shows "list_wf uuid_of st2 \<and> items st2 = rev (items st)"
proof -
  have "view_ok uuid_of (st\<lparr>items := rev (items st)\<rparr>)"
    using assms(1) by (simp add: view_ok_def rev_map [symmetric])
  from update_model_wf [OF this] assms(2) show ?thesis by (simp add: list_reverse_def)
qed

lemma distinct_map_remove1: "distinct (map f xs) \<Longrightarrow> distinct (map f (remove1 x xs))"
  unfolding distinct_map by (blast intro: distinct_remove1 inj_on_subset [OF _ set_remove1_subset])

lemma list_remove_wf:
  assumes "view_ok uuid_of st" "list_remove uuid_of st x = Inr st2"
  shows "list_wf uuid_of st2 \<and> x \<in> set (items st) \<and> items st2 = remove1 x (items st)"
proof -
  have x: "x \<in> set (items st)"
    and u: "update_model uuid_of (st\<lparr>items := remove1 x (items st)\<rparr>) = Inr st2"
    using assms(2) by (simp_all add: list_remove_def split: if_splits)
  have "view_ok uuid_of (st\<lparr>items := remove1 x (items st)\<rparr>)"
    using assms(1) distinct_map_remove1 [of uuid_of "items st" x] by (simp add: view_ok_def)
  from update_model_wf [OF this u] x show ?thesis by simp
qed

lemma list_wf_view_ok: "list_wf uuid_of st \<Longrightarrow> view_ok uuid_of st"
  by (simp add: list_wf_def)

text \<open>Taking an item out and putting it back keeps the uuids distinct and the multiset of
  the list.\<close>

lemma pop_insert_wf:
  assumes "view_ok uuid_of st" "list_pop uuid_of st i = Inr (x, st1)" "list_insert uuid_of st1 j x = Inr st2"
  shows "view_ok uuid_of st2 \<and> mset (items st2) = mset (items st)"
proof -
  have p: "list_wf uuid_of st1" "mset (items st1) + {#x#} = mset (items st)"
    "uuid_of x \<notin> set (map uuid_of (items st1))"
    using list_pop_wf [OF assms(1,2)] by simp_all
  have "list_wf uuid_of st2" "mset (items st2) = mset (items st1) + {#x#}"
    using list_insert_wf [OF list_wf_view_ok [OF p(1)] p(3) assms(3)] by simp_all
  then show ?thesis using p(2) by (simp add: list_wf_def)
qed

lemma action_loop_wf:
  "view_ok uuid_of st \<Longrightarrow> action_loop uuid_of action st is ns = Inr (st', ns') \<Longrightarrow>
     view_ok uuid_of st' \<and> mset (items st') \<subseteq># mset (items st)"
proof (induction "is" arbitrary: st ns)
  case (Cons index rest)
  consider (up) "action = ACTION_UP" | (down) "action \<noteq> ACTION_UP" "action = ACTION_DOWN"
    | (del) "action \<noteq> ACTION_UP" "action \<noteq> ACTION_DOWN" "action = ACTION_DELETE"
    | (other) "action \<noteq> ACTION_UP" "action \<noteq> ACTION_DOWN" "action \<noteq> ACTION_DELETE"
    by blast
  then show ?case
  proof cases
    case up
    show ?thesis
    proof (cases "0 < index")
      case True
      then obtain x st1 st2 where p: "list_pop uuid_of st index = Inr (x, st1)"
        and ins: "list_insert uuid_of st1 (index - 1) x = Inr st2"
        and r: "action_loop uuid_of action st2 rest (ns @ [index - 1]) = Inr (st', ns')"
        using Cons.prems(2) up by (auto split: sum.splits prod.splits)
      have "view_ok uuid_of st2 \<and> mset (items st2) = mset (items st)"
        using pop_insert_wf [OF Cons.prems(1) p ins] .
      then show ?thesis using Cons.IH [OF _ r] by auto
    next
      case False
      then show ?thesis using Cons.IH Cons.prems up by auto
    qed
  next
    case down
    show ?thesis
    proof (cases "int index < int (length (items st)) - 1")
      case True
      then obtain x st1 st2 where p: "list_pop uuid_of st index = Inr (x, st1)"
        and ins: "list_insert uuid_of st1 (index + 1) x = Inr st2"
        and r: "action_loop uuid_of action st2 rest (ns @ [index + 1]) = Inr (st', ns')"
        using Cons.prems(2) down by (auto split: sum.splits prod.splits)
      have "view_ok uuid_of st2 \<and> mset (items st2) = mset (items st)"
        using pop_insert_wf [OF Cons.prems(1) p ins] .
      then show ?thesis using Cons.IH [OF _ r] by auto
    next
      case False
      then show ?thesis using Cons.IH Cons.prems down by auto
    qed
  next
    case del
    obtain x st1 ns1 where p: "list_pop uuid_of st index = Inr (x, st1)"
      and r: "action_loop uuid_of action st1 rest ns1 = Inr (st', ns')"
      using Cons.prems(2) del by (auto split: sum.splits prod.splits)
    have w: "list_wf uuid_of st1" and e: "mset (items st1) + {#x#} = mset (items st)"
      using list_pop_wf [OF Cons.prems(1) p] by simp_all
    have s1: "mset (items st1) \<subseteq># mset (items st)"
      unfolding e [symmetric] by (rule mset_subset_eq_add_left)
    have "view_ok uuid_of st' \<and> mset (items st') \<subseteq># mset (items st1)"
      using Cons.IH [OF list_wf_view_ok [OF w] r] .
    then show ?thesis using s1 subset_mset.order_trans by blast
  next
    case other
    then show ?thesis using Cons.IH Cons.prems by auto
  qed
qed simp

lemma clear_loop_wf:
  "view_ok uuid_of st \<Longrightarrow> clear_loop uuid_of n st = Inr st' \<Longrightarrow>
     view_ok uuid_of st' \<and> mset (items st') \<subseteq># mset (items st)"
proof (induction n arbitrary: st)
  case (Suc n)
  then obtain x st1 where p: "list_pop uuid_of st 0 = Inr (x, st1)"
    and r: "clear_loop uuid_of n st1 = Inr st'"
    by (auto split: sum.splits prod.splits)
  have w: "view_ok uuid_of st1" and e: "mset (items st1) + {#x#} = mset (items st)"
    using list_pop_wf [OF Suc.prems(1) p] by (simp_all add: list_wf_def)
  have s1: "mset (items st1) \<subseteq># mset (items st)"
    unfolding e [symmetric] by (rule mset_subset_eq_add_left)
  then show ?case using Suc.IH [OF w r] subset_mset.order_trans by blast
qed simp


lemma list_wf_sel_rows:
  "list_wf uuid_of st \<Longrightarrow> list_wf uuid_of (st\<lparr>view := map_option (\<lambda>v. v\<lparr>sel_rows := s\<rparr>) (view st)\<rparr>)"
  by (cases "view st") (simp_all add: list_wf_def view_ok_def shown_def)

lemma list_action_wf:
  assumes "list_wf uuid_of st" "list_action uuid_of action st = Inr st'"
  shows "list_wf uuid_of st' \<and> mset (items st') \<subseteq># mset (items st)"
proof (cases "action \<in> {ACTION_UP, ACTION_DOWN, ACTION_DELETE, ACTION_CLEAR}")
  case False
  then show ?thesis using assms by (simp add: list_action_def)
next
  case True
  obtain sel where sel: "get_selected st = Some sel"
    using assms(2) True by (auto simp: list_action_def split: option.splits)
  define order where "order = (if action \<in> {ACTION_DOWN, ACTION_DELETE} then rev (sort sel) else sort sel)"
  define looped where "looped = (if action = ACTION_CLEAR
      then map_sum id (\<lambda>st'. (st', [])) (clear_loop uuid_of (length (items st)) st)
      else action_loop uuid_of action st order [])"
  have la: "list_action uuid_of action st =
      (case looped of Inl e \<Rightarrow> Inl e
       | Inr (st1, new_selection) \<Rightarrow>
           (case update_model uuid_of st1 of Inl e \<Rightarrow> Inl e
            | Inr st2 \<Rightarrow> Inr (st2\<lparr>view := map_option (\<lambda>v. v\<lparr>sel_rows := sort (remdups new_selection)\<rparr>) (view st2)\<rparr>)))"
    using True sel by (simp add: list_action_def Let_def order_def looped_def)
  obtain st1 ns st2 where lp: "looped = Inr (st1, ns)" and u: "update_model uuid_of st1 = Inr st2"
    and st': "st' = st2\<lparr>view := map_option (\<lambda>v. v\<lparr>sel_rows := sort (remdups ns)\<rparr>) (view st2)\<rparr>"
    using assms(2) unfolding la by (auto split: sum.splits prod.splits)
  have l1: "view_ok uuid_of st1 \<and> mset (items st1) \<subseteq># mset (items st)"
  proof (cases "action = ACTION_CLEAR")
    case True
    then have "clear_loop uuid_of (length (items st)) st = Inr st1"
      using lp by (cases "clear_loop uuid_of (length (items st)) st") (simp_all add: looped_def)
    then show ?thesis using clear_loop_wf list_wf_view_ok [OF assms(1)] by blast
  next
    case False
    then have "action_loop uuid_of action st order [] = Inr (st1, ns)" using lp by (simp add: looped_def)
    then show ?thesis using action_loop_wf list_wf_view_ok [OF assms(1)] by blast
  qed
  have "list_wf uuid_of st2" "items st2 = items st1"
    using update_model_wf [OF _ u] l1 by simp_all
  then show ?thesis using l1 list_wf_sel_rows st' by simp
qed


lemma select_wf: "list_wf uuid_of st \<Longrightarrow> list_wf uuid_of (select uuid_of st selected)"
  by (simp add: select_def select_gtk_def Let_def list_wf_def view_ok_def shown_def split: option.splits)

lemma list_step_wf:
  assumes "list_wf uuid_of st" "op_fresh uuid_of st op" "list_step uuid_of op st = Inr st'"
  shows "list_wf uuid_of st'"
proof (cases op)
  case (OpPop i)
  then obtain x where "list_pop uuid_of st i = Inr (x, st')"
    using assms(3) by (cases "list_pop uuid_of st i") auto
  then show ?thesis using list_pop_wf [OF list_wf_view_ok [OF assms(1)]] by blast
next
  case (OpInsert i x)
  then show ?thesis using list_insert_wf [OF list_wf_view_ok [OF assms(1)]] assms(2,3) by simp
next
  case (OpAppend x)
  then show ?thesis using list_append_wf [OF list_wf_view_ok [OF assms(1)]] assms(2,3) by simp
next
  case (OpAction action)
  then show ?thesis using list_action_wf [OF assms(1)] assms(3) by simp
next
  case (OpSelect selected)
  then show ?thesis using select_wf [OF assms(1), of selected] assms(3) by auto
next
  case (OpExtend xs)
  then show ?thesis using list_extend_wf [OF list_wf_view_ok [OF assms(1)], of xs st'] assms(2,3) by auto
next
  case OpReverse
  then show ?thesis using list_reverse_wf [OF list_wf_view_ok [OF assms(1)]] assms(3) by simp
next
  case (OpRemove x)
  then show ?thesis using list_remove_wf [OF list_wf_view_ok [OF assms(1)]] assms(3) by simp
qed

section \<open>Selecting and reading back\<close>

lemma find_distinct_nth:
  "distinct (map f xs) \<Longrightarrow> i < length xs \<Longrightarrow> find (\<lambda>t. f (xs ! i) = f t) xs = Some (xs ! i)"
proof (induction xs arbitrary: i)
  case (Cons y ys)
  show ?case
  proof (cases i)
    case (Suc j)
    have "ys ! j \<in> set ys" using Cons.prems(2) Suc by simp
    then have "f (ys ! j) \<in> f ` set ys" by (rule imageI)
    then have "f (ys ! j) \<noteq> f y" using Cons.prems(1) by auto
    then show ?thesis using Cons Suc by simp
  qed simp
qed simp

lemma filter_upt_guard: "filter (\<lambda>x. (x < n \<longrightarrow> P x) \<and> (\<not> x < n \<longrightarrow> Q x)) [0..<n] = filter P [0..<n]"
  by (rule filter_cong) auto

lemma map_nth_filter_upt: "map ((!) xs) (filter (\<lambda>i. P (xs ! i)) [0..<length xs]) = filter P xs"
proof -
  have "map ((!) xs) (filter (P \<circ> (!) xs) [0..<length xs]) = filter P (map ((!) xs) [0..<length xs])"
    by (rule filter_map [symmetric])
  then show ?thesis by (simp add: map_nth comp_def)
qed

section \<open>Properties of the list operations\<close>

text \<open>C7. The well-formedness of a list plugin is kept by every operation: along any
  sequence of \<^verbatim>\<open>pop\<close>, \<^verbatim>\<open>insert\<close>, \<^verbatim>\<open>append\<close>, \<^verbatim>\<open>extend\<close>, \<^verbatim>\<open>reverse\<close>,
  \<^verbatim>\<open>remove\<close>, list actions and \<^verbatim>\<open>select\<close> that
  adds only items with new uuids, a run that returns leaves the uuids of the list
  distinct and its tree model holding each of them in exactly one row.\<close>

theorem list_run_wf:
  "list_wf uuid_of st \<Longrightarrow> run_fresh uuid_of ops st \<Longrightarrow> list_run uuid_of ops st = Inr st' \<Longrightarrow>
     list_wf uuid_of st'"
proof (induction ops arbitrary: st)
  case (Cons op ops)
  then obtain st1 where s1: "list_step uuid_of op st = Inr st1" and r: "list_run uuid_of ops st1 = Inr st'"
    by (cases "list_step uuid_of op st") auto
  have "list_wf uuid_of st1" using list_step_wf [OF Cons.prems(1) _ s1] Cons.prems(2) by simp
  then show ?case using Cons.IH r Cons.prems(2) s1 by simp
qed simp

theorem list_run_wf_witness:
  "list_wf id demo_list \<and>
   run_fresh id [OpAction ACTION_UP, OpAppend ''d'', OpPop 0, OpSelect (SelOne ''c'')] demo_list \<and>
   list_run id [OpAction ACTION_UP, OpAppend ''d'', OpPop 0, OpSelect (SelOne ''c'')] demo_list =
     Inr \<lparr>items = [''a'', ''c'', ''d''], view = Some \<lparr>rows = [''a'', ''c'', ''d''], sel_rows = [1]\<rparr>\<rparr> \<and>
   list_wf id \<lparr>items = [''a'', ''c'', ''d''], view = Some \<lparr>rows = [''a'', ''c'', ''d''], sel_rows = [1]\<rparr>\<rparr>"
proof -
  have w: "list_wf id demo_list"
    by (simp add: list_wf_def view_ok_def shown_def demo_list_def)
  have f: "run_fresh id [OpAction ACTION_UP, OpAppend ''d'', OpPop 0, OpSelect (SelOne ''c'')] demo_list"
    and r: "list_run id [OpAction ACTION_UP, OpAppend ''d'', OpPop 0, OpSelect (SelOne ''c'')] demo_list =
     Inr \<lparr>items = [''a'', ''c'', ''d''], view = Some \<lparr>rows = [''a'', ''c'', ''d''], sel_rows = [1]\<rparr>\<rparr>"
    by code_simp+
  show ?thesis using w f r list_run_wf [OF w f r] by blast
qed


text \<open>C14. Selection round trip: when the tree model shows the list in order,
  \<^verbatim>\<open>select(objs)\<close> selects exactly the rows of the list's items whose uuid is one of
  the objects', \<^verbatim>\<open>get_selected(index=True)\<close> reports those rows in order, and
  \<^verbatim>\<open>get_by_path\<close> reads back, row by row, exactly those items.\<close>

theorem select_get_by_path:
  assumes "synced uuid_of st" "view_ok uuid_of st" "view st \<noteq> None"
  shows "get_selected (select uuid_of st (SelList objs)) =
           Some [i \<leftarrow> [0..<length (items st)]. uuid_of (items st ! i) \<in> set (map uuid_of objs)] \<and>
         map_res (get_by_path uuid_of (select uuid_of st (SelList objs)))
             [i \<leftarrow> [0..<length (items st)]. uuid_of (items st ! i) \<in> set (map uuid_of objs)] =
           Inr (map Some (filter (\<lambda>x. uuid_of x \<in> set (map uuid_of objs)) (items st)))"
proof -
  define sel where "sel = [i \<leftarrow> [0..<length (items st)]. uuid_of (items st ! i) \<in> set (map uuid_of objs)]"
  obtain v where v: "view st = Some v" using assms(3) by blast
  have rows: "rows v = map uuid_of (items st)" using assms(1) v by (simp add: synced_def)
  have d: "distinct (map uuid_of (items st))" using assms(2) by (simp add: view_ok_def)
  define st' where "st' = select uuid_of st (SelList objs)"
  have st': "st' = st\<lparr>view := Some (v\<lparr>sel_rows := sel\<rparr>)\<rparr>"
    using v rows by (simp add: st'_def select_def select_gtk_def sel_def filter_upt_guard)
  have g: "get_by_path uuid_of st' i = Inr (Some (items st ! i))" if "i \<in> set sel" for i
  proof -
    have i: "i < length (items st)" using that by (simp add: sel_def)
    then show ?thesis using find_distinct_nth [OF d i] rows st'
      by (simp add: get_by_path_def)
  qed
  have "map_res (get_by_path uuid_of st') sel = Inr (map (\<lambda>i. Some (items st ! i)) sel)"
    using g by (simp add: map_res_all_Inr)
  moreover have "map (\<lambda>i. Some (items st ! i)) sel =
      map Some (filter (\<lambda>x. uuid_of x \<in> set (map uuid_of objs)) (items st))"
  proof -
    have e: "map ((!) (items st)) sel = filter (\<lambda>x. uuid_of x \<in> set (map uuid_of objs)) (items st)"
      unfolding sel_def by (rule map_nth_filter_upt)
    have "map (\<lambda>i. Some (items st ! i)) sel = map Some (map ((!) (items st)) sel)" by simp
    then show ?thesis unfolding e .
  qed
  ultimately show ?thesis using st' by (simp add: st'_def get_selected_def sel_def)
qed

theorem select_get_by_path_witness:
  "synced id demo_list \<and> view_ok id demo_list \<and> view demo_list \<noteq> None \<and>
   get_selected (select id demo_list (SelList [''c'', ''a''])) = Some [0, 2] \<and>
   map_res (get_by_path id (select id demo_list (SelList [''c'', ''a'']))) [0, 2] = Inr [Some ''a'', Some ''c'']"
proof -
  have h: "synced id demo_list" "view_ok id demo_list" "view demo_list \<noteq> None"
    by (simp_all add: synced_def view_ok_def demo_list_def)
  have s: "[i \<leftarrow> [0..<length (items demo_list)]. id (items demo_list ! i) \<in> set (map id [''c'', ''a''])] = [0, 2]"
    and f: "filter (\<lambda>x. id x \<in> set (map id [''c'', ''a''])) (items demo_list) = [''a'', ''c'']"
    by (simp_all add: demo_list_def upt_rec)
  show ?thesis using h select_get_by_path [OF h, of "[''c'', ''a'']"] unfolding s f by simp
qed


section \<open>Observers\<close>


end
