(* ===== verification/PluginHandlers.thy ===== *)
theory PluginHandlers
  imports Entities "HOL-Library.Multiset"
begin

text \<open>
  The handler registration of \<^verbatim>\<open>PluginBase\<close> (lines 97--208 of
  \<^verbatim>\<open>src/pycam/Plugins/__init__.py\<close>): the core methods a plugin adds to the core, the
  cache of handler functions \<^verbatim>\<open>__get_handler_func\<close> keeps so that a handler
  unregistered later is the same object as the one registered, the event and GTK signal
  handlers, and the keyboard accelerators. The core (\<^verbatim>\<open>pycam.Gui.Settings\<close>, not under
  \<^verbatim>\<open>src/\<close>) and GTK enter by the state they keep: the core's methods, settings and
  event handlers, GTK's signal connections and the UI manager's action groups.
  Python objects whose identity matters (closures, action groups) are numbered by the
  state that creates them.
\<close>

section \<open>Handler functions\<close>

text \<open>The \<^verbatim>\<open>func\<close> of a handler entry: an event name (a string), or a callable.\<close>

datatype hfunc = HStr string | HCall nat

text \<open>What \<^verbatim>\<open>__get_handler_func\<close> returns: the callable itself, or a closure it
  created (a lambda emitting the event, or one appending the parameters).\<close>

datatype handler = Func nat | Closure nat

record plugin_handlers =
  func_cache :: "((hfunc \<times> pyval list) \<times> handler) list"
  gtk_handler_id_cache :: "(nat \<times> nat) list"
  next_closure :: nat

text \<open>\<^verbatim>\<open>__get_handler_func\<close> (lines 121--140). The cache key is
  \<^verbatim>\<open>(hash(func), repr(params))\<close>; the model keys it by the function and the parameter
  values, that is, it reads \<^verbatim>\<open>hash\<close> and \<^verbatim>\<open>repr\<close> as injective (the \<^verbatim>\<open>TypeError\<close>
  branch of line 127 is taken only for unhashable functions, and strings and
  functions are hashable).\<close>

definition get_handler_func ::
  "plugin_handlers \<Rightarrow> hfunc \<Rightarrow> pyval list \<Rightarrow> handler \<times> plugin_handlers" where
  "get_handler_func ph func params =
     (let key = (func, params) in
      case map_of (func_cache ph) key of
        Some h \<Rightarrow> (h, ph)
      | None \<Rightarrow>
          (let (result, ph1) =
                 (case func of
                    HStr _ \<Rightarrow> (Closure (next_closure ph), ph\<lparr>next_closure := Suc (next_closure ph)\<rparr>)
                  | HCall f \<Rightarrow>
                      if params = [] then (Func f, ph)
                      else (Closure (next_closure ph), ph\<lparr>next_closure := Suc (next_closure ph)\<rparr>))
           in (result, ph1\<lparr>func_cache := AList.update key result (func_cache ph1)\<rparr>)))"

section \<open>Event handlers\<close>

text \<open>The core's event registry: the handlers registered, in order, with their event.
  \<^verbatim>\<open>register_event\<close> appends, \<^verbatim>\<open>unregister_event\<close> removes the first entry equal to
  its arguments (the core is not under \<^verbatim>\<open>src/\<close>).\<close>

record core_state =
  core_methods :: "(string \<times> handler) list"
  core_settings :: "(string \<times> handler option) list"
  core_events :: "(string \<times> handler) list"

definition register_event :: "string \<Rightarrow> handler \<Rightarrow> core_state \<Rightarrow> core_state" where
  "register_event name h core = core\<lparr>core_events := core_events core @ [(name, h)]\<rparr>"

definition unregister_event :: "string \<Rightarrow> handler \<Rightarrow> core_state \<Rightarrow> core_state" where
  "unregister_event name h core = core\<lparr>core_events := remove1 (name, h) (core_events core)\<rparr>"

section \<open>Core methods\<close>

text \<open>The core's \<^verbatim>\<open>addmethod\<close>, \<^verbatim>\<open>delmethod\<close> and \<^verbatim>\<open>set\<close> (a setting of
  \<^verbatim>\<open>None\<close> is \<open>Some None\<close>).\<close>

definition core_addmethod :: "string \<Rightarrow> handler \<Rightarrow> core_state \<Rightarrow> core_state" where
  "core_addmethod name func core = core\<lparr>core_methods := AList.update name func (core_methods core)\<rparr>"

definition core_delmethod :: "string \<Rightarrow> core_state \<Rightarrow> core_state" where
  "core_delmethod name core = core\<lparr>core_methods := AList.delete name (core_methods core)\<rparr>"

definition core_set :: "string \<Rightarrow> handler option \<Rightarrow> core_state \<Rightarrow> core_state" where
  "core_set name v core = core\<lparr>core_settings := AList.update name v (core_settings core)\<rparr>"

text \<open>\<^verbatim>\<open>register_core_methods\<close> (lines 97--108): \<^verbatim>\<open>getattr(self, name)\<close> is the
  plugin's bound method, \<^verbatim>\<open>AttributeError\<close> when it has none.\<close>

fun register_core_methods ::
  "(string \<Rightarrow> handler option) \<Rightarrow> string list \<Rightarrow> core_state \<Rightarrow> core_state result" where
  "register_core_methods plugin_attr [] core = Inr core"
| "register_core_methods plugin_attr (name # names) core =
     (case plugin_attr name of
        None \<Rightarrow> Inl AttributeError
      | Some func \<Rightarrow> register_core_methods plugin_attr names (core_set name (Some func) (core_addmethod name func core)))"

text \<open>\<^verbatim>\<open>unregister_core_methods\<close> (lines 110--119).\<close>

definition unregister_core_methods :: "string list \<Rightarrow> core_state \<Rightarrow> core_state" where
  "unregister_core_methods names core = fold (\<lambda>name c. core_set name None (core_delmethod name c)) names core"

text \<open>An entry of \<^verbatim>\<open>event_handlers\<close>: \<^verbatim>\<open>(name, func, *params)\<close>.\<close>

type_synonym event_entry = "string \<times> hfunc \<times> pyval list"

text \<open>\<^verbatim>\<open>register_event_handlers\<close> and \<^verbatim>\<open>unregister_event_handlers\<close> (lines 142--150
  and 163--171).\<close>

fun register_event_handlers ::
  "event_entry list \<Rightarrow> plugin_handlers \<Rightarrow> core_state \<Rightarrow> plugin_handlers \<times> core_state" where
  "register_event_handlers [] ph core = (ph, core)"
| "register_event_handlers ((name, func, params) # rest) ph core =
     (let (h, ph1) = get_handler_func ph func params
      in register_event_handlers rest ph1 (register_event name h core))"

fun unregister_event_handlers ::
  "event_entry list \<Rightarrow> plugin_handlers \<Rightarrow> core_state \<Rightarrow> plugin_handlers \<times> core_state" where
  "unregister_event_handlers [] ph core = (ph, core)"
| "unregister_event_handlers ((name, func, params) # rest) ph core =
     (let (h, ph1) = get_handler_func ph func params
      in unregister_event_handlers rest ph1 (unregister_event name h core))"


section \<open>GTK signal handlers and accelerators\<close>

text \<open>What GTK keeps: the signal connections (widget, handler id, signal, handler), the
  next handler id, and for the UI manager its action groups (objects, in order), the
  actions of every action group object, the accelerator path of every action and the
  accelerator map. GTK objects are numbered by \<open>next_gobject\<close>.\<close>

record gtk_state =
  connections :: "(nat \<times> nat \<times> string \<times> handler) list"
  next_handler_id :: nat
  ui_groups :: "nat list"
  group_actions :: "(nat \<times> nat list) list"
  accel_paths :: "(nat \<times> string) list"
  accel_map :: "(string \<times> nat \<times> nat) list"
  next_gobject :: nat

text \<open>\<^verbatim>\<open>obj.connect(signal, handler)\<close> returns a new handler id;
  \<^verbatim>\<open>obj.disconnect(handler_id)\<close> removes that connection of the object (an unknown id
  only makes GTK warn).\<close>

definition gtk_connect :: "nat \<Rightarrow> string \<Rightarrow> handler \<Rightarrow> gtk_state \<Rightarrow> nat \<times> gtk_state" where
  "gtk_connect obj signal h gtk =
     (next_handler_id gtk,
      gtk\<lparr>connections := connections gtk @ [(obj, next_handler_id gtk, signal, h)],
          next_handler_id := Suc (next_handler_id gtk)\<rparr>)"

definition gtk_disconnect :: "nat \<Rightarrow> nat \<Rightarrow> gtk_state \<Rightarrow> gtk_state" where
  "gtk_disconnect obj handler_id gtk =
     gtk\<lparr>connections := filter (\<lambda>c. (fst c, fst (snd c)) \<noteq> (obj, handler_id)) (connections gtk)\<rparr>"

text \<open>An entry of \<^verbatim>\<open>gtk_widget_handlers\<close>: \<^verbatim>\<open>(obj, signal, func, *params)\<close>.\<close>

type_synonym gtk_entry = "nat \<times> string \<times> hfunc \<times> pyval list"

text \<open>\<^verbatim>\<open>register_gtk_handlers\<close> (lines 152--161): each connection is remembered in
  \<^verbatim>\<open>_gtk_handler_id_cache\<close>.\<close>

fun register_gtk_handlers ::
  "gtk_entry list \<Rightarrow> plugin_handlers \<Rightarrow> gtk_state \<Rightarrow> plugin_handlers \<times> gtk_state" where
  "register_gtk_handlers [] ph gtk = (ph, gtk)"
| "register_gtk_handlers ((obj, signal, func, params) # rest) ph gtk =
     (let (h, ph1) = get_handler_func ph func params;
          (handler_id, gtk1) = gtk_connect obj signal h gtk
      in register_gtk_handlers rest
           (ph1\<lparr>gtk_handler_id_cache := gtk_handler_id_cache ph1 @ [(obj, handler_id)]\<rparr>) gtk1)"

text \<open>\<^verbatim>\<open>unregister_gtk_handlers\<close> (lines 173--176): the argument is not used; the loop
  pops the cache from its end, disconnecting each entry, until it is empty.\<close>

definition unregister_gtk_handlers ::
  "gtk_entry list \<Rightarrow> plugin_handlers \<Rightarrow> gtk_state \<Rightarrow> plugin_handlers \<times> gtk_state" where
  "unregister_gtk_handlers gtk_widget_handlers ph gtk =
     (ph\<lparr>gtk_handler_id_cache := []\<rparr>,
      fold (\<lambda>(obj, handler_id) g. gtk_disconnect obj handler_id g) (rev (gtk_handler_id_cache ph)) gtk)"

text \<open>\<^verbatim>\<open>register_gtk_accelerator\<close> (lines 186--201), with GTK importable: a new
  \<^verbatim>\<open>ActionGroup\<close>, the action's accelerator path \<^verbatim>\<open>"<pycam>/" + accel_name\<close>, the
  parsed accelerator entered in the map when \<^verbatim>\<open>accel_string\<close> is not empty, the action
  added to the group and the group appended to the UI manager's groups
  (\<^verbatim>\<open>pos=-1\<close>). \<open>accelerator_parse\<close> is GTK's parser.\<close>

definition register_gtk_accelerator ::
  "(string \<Rightarrow> nat \<times> nat) \<Rightarrow> string \<Rightarrow> nat \<Rightarrow> string \<Rightarrow> string \<Rightarrow> gtk_state \<Rightarrow> gtk_state" where
  "register_gtk_accelerator accelerator_parse groupname action accel_string accel_name gtk =
     (let actiongroup = next_gobject gtk;
          accel_path = ''<pycam>/'' @ accel_name;
          gtk1 = gtk\<lparr>next_gobject := Suc actiongroup,
                     group_actions := AList.update actiongroup [] (group_actions gtk),
                     accel_paths := AList.update action accel_path (accel_paths gtk)\<rparr>;
          gtk2 = (if accel_string \<noteq> [] then
                    gtk1\<lparr>accel_map := AList.update accel_path (accelerator_parse accel_string) (accel_map gtk1)\<rparr>
                  else gtk1);
          gtk3 = gtk2\<lparr>group_actions := AList.update actiongroup [action] (group_actions gtk2)\<rparr>
      in gtk3\<lparr>ui_groups := ui_groups gtk3 @ [actiongroup]\<rparr>)"

text \<open>\<^verbatim>\<open>unregister_gtk_accelerator\<close> (lines 203--208): a new \<^verbatim>\<open>ActionGroup\<close> again,
  the action removed from it (it is not there: GTK only warns), and the group removed
  from the UI manager if it is empty and one of the manager's groups.\<close>

definition unregister_gtk_accelerator :: "string \<Rightarrow> nat \<Rightarrow> gtk_state \<Rightarrow> gtk_state" where
  "unregister_gtk_accelerator groupname action gtk =
     (let actiongroup = next_gobject gtk;
          gtk1 = gtk\<lparr>next_gobject := Suc actiongroup,
                     group_actions := AList.update actiongroup [] (group_actions gtk)\<rparr>;
          gtk2 = gtk1\<lparr>group_actions := AList.update actiongroup
                        (removeAll action (case map_of (group_actions gtk1) actiongroup of None \<Rightarrow> [] | Some acts \<Rightarrow> acts))
                        (group_actions gtk1)\<rparr>;
          acts = (case map_of (group_actions gtk2) actiongroup of None \<Rightarrow> [] | Some acts \<Rightarrow> acts)
      in if length acts = 0 \<and> actiongroup \<in> set (ui_groups gtk2)
         then gtk2\<lparr>ui_groups := remove1 actiongroup (ui_groups gtk2)\<rparr> else gtk2)"

text \<open>GTK's state is consistent: handler ids and objects already handed out are below
  the counters.\<close>

definition gtk_ok :: "gtk_state \<Rightarrow> bool" where
  "gtk_ok gtk = (list_all (\<lambda>c. fst (snd c) < next_handler_id gtk) (connections gtk) \<and>
                 list_all (\<lambda>g. g < next_gobject gtk) (ui_groups gtk))"

section \<open>Fixtures\<close>

text \<open>A fresh GTK and a plugin that has registered nothing yet.\<close>

definition demo_gtk :: gtk_state where
  "demo_gtk = \<lparr>connections = [], next_handler_id = 0, ui_groups = [], group_actions = [],
               accel_paths = [], accel_map = [], next_gobject = 0\<rparr>"

text \<open>A core in which another plugin has registered the method \<open>get_tool\<close>.\<close>

definition demo_core_state :: core_state where
  "demo_core_state = \<lparr>core_methods = [(''get_tool'', Func 3)], core_settings = [(''get_tool'', Some (Func 3))],
                      core_events = []\<rparr>"

definition demo_handlers :: plugin_handlers where
  "demo_handlers = \<lparr>func_cache = [], gtk_handler_id_cache = [], next_closure = 0\<rparr>"

section \<open>The cache\<close>

text \<open>The cache only grows: every handler it held is still held.\<close>

definition cache_ext :: "plugin_handlers \<Rightarrow> plugin_handlers \<Rightarrow> bool" where
  "cache_ext ph ph' = (\<forall>k h. map_of (func_cache ph) k = Some h \<longrightarrow> map_of (func_cache ph') k = Some h)"

lemma cache_ext_refl [simp]: "cache_ext ph ph"
  by (simp add: cache_ext_def)

lemma cache_ext_trans: "cache_ext ph1 ph2 \<Longrightarrow> cache_ext ph2 ph3 \<Longrightarrow> cache_ext ph1 ph3"
  by (simp add: cache_ext_def)

lemma get_handler_func_hit:
  "map_of (func_cache ph) (func, params) = Some h \<Longrightarrow> get_handler_func ph func params = (h, ph)"
  by (simp add: get_handler_func_def)

lemma get_handler_func_cached:
  assumes "get_handler_func ph func params = (h, ph')"
  shows "map_of (func_cache ph') (func, params) = Some h \<and> cache_ext ph ph'"
proof (cases "map_of (func_cache ph) (func, params)")
  case None
  then show ?thesis
    using assms by (auto simp: get_handler_func_def cache_ext_def update_conv' split: hfunc.splits if_splits)
qed (use assms in \<open>simp add: get_handler_func_def\<close>)

section \<open>Registration and unregistration of event handlers\<close>

text \<open>An entry of the core's registry made for an entry of \<^verbatim>\<open>event_handlers\<close> with
  the handler the cache holds for it.\<close>

fun cached_reg :: "plugin_handlers \<Rightarrow> event_entry \<Rightarrow> string \<times> handler \<Rightarrow> bool" where
  "cached_reg ph (n, f, p) (n', h) = (n' = n \<and> map_of (func_cache ph) (f, p) = Some h)"

lemma register_event_handlers_events:
  "register_event_handlers hs ph core = (ph', core') \<Longrightarrow>
     \<exists>regs. core_events core' = core_events core @ regs \<and>
       list_all2 (cached_reg ph') hs regs \<and>
       cache_ext ph ph' \<and> core_methods core' = core_methods core \<and> core_settings core' = core_settings core"
proof (induction hs arbitrary: ph core)
  case (Cons e rest)
  obtain name func params where e: "e = (name, func, params)" by (cases e) auto
  obtain h ph1 where g: "get_handler_func ph func params = (h, ph1)" by (cases "get_handler_func ph func params")
  have r: "register_event_handlers rest ph1 (register_event name h core) = (ph', core')"
    using Cons.prems e g by simp
  obtain regs where ev: "core_events core' = core_events core @ (name, h) # regs"
    and l: "list_all2 (cached_reg ph') rest regs"
    and c: "cache_ext ph1 ph'" and o: "core_methods core' = core_methods core" "core_settings core' = core_settings core"
    using Cons.IH [OF r] by (auto simp: register_event_def)
  have "map_of (func_cache ph1) (func, params) = Some h" "cache_ext ph ph1"
    using get_handler_func_cached [OF g] by simp_all
  then have "map_of (func_cache ph') (func, params) = Some h" "cache_ext ph ph'"
    using c cache_ext_trans by (auto simp: cache_ext_def)
  then show ?case using ev l o e by (intro exI [of _ "(name, h) # regs"]) auto
qed simp

lemma unregister_event_handlers_cached:
  "list_all2 (cached_reg ph) hs regs \<Longrightarrow>
     unregister_event_handlers hs ph core = (ph, core\<lparr>core_events := fold remove1 regs (core_events core)\<rparr>)"
proof (induction hs arbitrary: regs core)
  case (Cons e rest)
  obtain name func params where e: "e = (name, func, params)" by (cases e) auto
  from Cons.prems e obtain h regs' where regs: "regs = (name, h) # regs'"
    and hit: "map_of (func_cache ph) (func, params) = Some h"
    and l: "list_all2 (cached_reg ph) rest regs'"
    by (cases regs) (auto simp: list_all2_Cons1)
  show ?case
    using Cons.IH [OF l] e regs get_handler_func_hit [OF hit] by (simp add: unregister_event_def)
qed simp

lemma mset_fold_remove1: "mset (fold remove1 ys xs) = mset xs - mset ys"
  by (induction ys arbitrary: xs) (auto simp: mset_remove1)

section \<open>Properties of the handler registration\<close>

text \<open>C25. Unregistering the event handlers a plugin registered gives the core back its
  event registry: \<^verbatim>\<open>__get_handler_func\<close> returns from its cache the very closure it
  created at registration, so \<^verbatim>\<open>unregister_event\<close> finds and removes each of them,
  creates no new closure, and leaves the core's methods and settings alone.\<close>

theorem event_handlers_roundtrip:
  "\<exists>core2. unregister_event_handlers hs (fst (register_event_handlers hs ph core))
                                        (snd (register_event_handlers hs ph core)) =
             (fst (register_event_handlers hs ph core), core2) \<and>
           mset (core_events core2) = mset (core_events core) \<and>
           core_methods core2 = core_methods core \<and> core_settings core2 = core_settings core"
proof -
  obtain ph1 core1 where r: "register_event_handlers hs ph core = (ph1, core1)" by fastforce
  obtain regs where ev: "core_events core1 = core_events core @ regs"
    and l: "list_all2 (cached_reg ph1) hs regs"
    and o: "core_methods core1 = core_methods core" "core_settings core1 = core_settings core"
    using register_event_handlers_events [OF r] by blast
  have "mset (fold remove1 regs (core_events core1)) = mset (core_events core)"
    unfolding mset_fold_remove1 ev by simp
  then show ?thesis using unregister_event_handlers_cached [OF l, of core1] r o by simp
qed


section \<open>Core methods\<close>

lemma register_core_methods_other:
  "register_core_methods plugin_attr names core = Inr core1 \<Longrightarrow> k \<notin> set names \<Longrightarrow>
     map_of (core_methods core1) k = map_of (core_methods core) k \<and>
     map_of (core_settings core1) k = map_of (core_settings core) k"
proof (induction names arbitrary: core)
  case (Cons name names)
  then obtain func where f: "plugin_attr name = Some func"
    and r: "register_core_methods plugin_attr names (core_set name (Some func) (core_addmethod name func core)) = Inr core1"
    by (cases "plugin_attr name") auto
  show ?case using Cons.IH [OF r] Cons.prems(2)
    by (simp add: core_set_def core_addmethod_def update_conv')
qed simp

lemma register_core_methods_events:
  "register_core_methods plugin_attr names core = Inr core1 \<Longrightarrow> core_events core1 = core_events core"
proof (induction names arbitrary: core)
  case (Cons name names)
  then show ?case by (cases "plugin_attr name") (auto simp: core_set_def core_addmethod_def)
qed simp

lemma unregister_core_methods_maps:
  "map_of (core_methods (unregister_core_methods names c)) =
     (\<lambda>k. if k \<in> set names then None else map_of (core_methods c) k) \<and>
   map_of (core_settings (unregister_core_methods names c)) =
     (\<lambda>k. if k \<in> set names then Some None else map_of (core_settings c) k) \<and>
   core_events (unregister_core_methods names c) = core_events c"
proof (induction names arbitrary: c)
  case (Cons name names)
  show ?case
    using Cons.IH [of "core_set name None (core_delmethod name c)"]
    by (auto simp: unregister_core_methods_def core_set_def core_delmethod_def update_conv' delete_conv'
             fun_eq_iff)
qed (simp add: unregister_core_methods_def fun_eq_iff)

text \<open>C37. Unregistering a plugin's core methods does not give the core back what it
  had: each name's method is deleted, also one another plugin had registered under it
  before, and each name's setting becomes \<^verbatim>\<open>None\<close> instead of its former value; the
  other methods and settings, and the event registry, are as before registration.\<close>

theorem core_methods_unregistered:
  assumes "register_core_methods plugin_attr names core = Inr core1"
  shows "map_of (core_methods (unregister_core_methods names core1)) =
           (\<lambda>k. if k \<in> set names then None else map_of (core_methods core) k) \<and>
         map_of (core_settings (unregister_core_methods names core1)) =
           (\<lambda>k. if k \<in> set names then Some None else map_of (core_settings core) k) \<and>
         core_events (unregister_core_methods names core1) = core_events core"
  using unregister_core_methods_maps [of names core1] register_core_methods_other [OF assms]
    register_core_methods_events [OF assms]
  by (auto simp: fun_eq_iff)

theorem core_methods_unregistered_witness:
  "register_core_methods (\<lambda>n. if n = ''get_tool'' then Some (Func 9) else None) [''get_tool''] demo_core_state =
     Inr \<lparr>core_methods = [(''get_tool'', Func 9)], core_settings = [(''get_tool'', Some (Func 9))],
          core_events = []\<rparr> \<and>
   map_of (core_methods (unregister_core_methods [''get_tool'']
     \<lparr>core_methods = [(''get_tool'', Func 9)], core_settings = [(''get_tool'', Some (Func 9))],
      core_events = []\<rparr>)) ''get_tool'' = None \<and>
   map_of (core_settings (unregister_core_methods [''get_tool'']
     \<lparr>core_methods = [(''get_tool'', Func 9)], core_settings = [(''get_tool'', Some (Func 9))],
      core_events = []\<rparr>)) ''get_tool'' = Some None"
proof -
  have r: "register_core_methods (\<lambda>n. if n = ''get_tool'' then Some (Func 9) else None) [''get_tool''] demo_core_state =
     Inr \<lparr>core_methods = [(''get_tool'', Func 9)], core_settings = [(''get_tool'', Some (Func 9))],
          core_events = []\<rparr>"
    by (simp add: demo_core_state_def core_set_def core_addmethod_def)
  show ?thesis using r core_methods_unregistered [OF r] by (simp add: fun_eq_iff)
qed

section \<open>GTK handlers and accelerators\<close>

lemma fold_gtk_disconnect:
  "fold (\<lambda>(obj, handler_id) g. gtk_disconnect obj handler_id g) ps gtk =
     gtk\<lparr>connections := filter (\<lambda>c. (fst c, fst (snd c)) \<notin> set ps) (connections gtk)\<rparr>"
  by (induction ps arbitrary: gtk) (auto simp: gtk_disconnect_def intro: filter_cong)

lemma register_gtk_handlers_conns:
  "register_gtk_handlers hs ph gtk = (ph', gtk') \<Longrightarrow>
     \<exists>new. connections gtk' = connections gtk @ new \<and>
       gtk_handler_id_cache ph' = gtk_handler_id_cache ph @ map (\<lambda>c. (fst c, fst (snd c))) new \<and>
       list_all (\<lambda>c. next_handler_id gtk \<le> fst (snd c)) new \<and>
       next_handler_id gtk \<le> next_handler_id gtk' \<and>
       gtk'\<lparr>connections := connections gtk, next_handler_id := next_handler_id gtk\<rparr> = gtk"
proof (induction hs arbitrary: ph gtk)
  case (Cons e rest)
  obtain obj signal func params where e: "e = (obj, signal, func, params)" by (cases e) auto
  obtain h ph1 where g: "get_handler_func ph func params = (h, ph1)" by (cases "get_handler_func ph func params")
  define gtk1 where "gtk1 = snd (gtk_connect obj signal h gtk)"
  have c: "gtk_connect obj signal h gtk = (next_handler_id gtk, gtk1)" by (simp add: gtk1_def gtk_connect_def)
  have ph1: "gtk_handler_id_cache ph1 = gtk_handler_id_cache ph"
    using g by (auto simp: get_handler_func_def Let_def split: option.splits hfunc.splits if_splits)
  have r: "register_gtk_handlers rest
      (ph1\<lparr>gtk_handler_id_cache := gtk_handler_id_cache ph1 @ [(obj, next_handler_id gtk)]\<rparr>) gtk1 = (ph', gtk')"
    using Cons.prems e g c by simp
  obtain new where n: "connections gtk' = connections gtk1 @ new"
    "gtk_handler_id_cache ph' = (gtk_handler_id_cache ph @ [(obj, next_handler_id gtk)]) @ map (\<lambda>c. (fst c, fst (snd c))) new"
    "list_all (\<lambda>c. next_handler_id gtk1 \<le> fst (snd c)) new" "next_handler_id gtk1 \<le> next_handler_id gtk'"
    "gtk'\<lparr>connections := connections gtk1, next_handler_id := next_handler_id gtk1\<rparr> = gtk1"
    using Cons.IH [OF r] ph1 by auto
  have g1: "connections gtk1 = connections gtk @ [(obj, next_handler_id gtk, signal, h)]"
    "next_handler_id gtk1 = Suc (next_handler_id gtk)"
    by (simp_all add: gtk1_def gtk_connect_def)
  have "gtk'\<lparr>connections := connections gtk, next_handler_id := next_handler_id gtk\<rparr> = gtk"
  proof -
    have "gtk'\<lparr>connections := connections gtk, next_handler_id := next_handler_id gtk\<rparr> =
        (gtk'\<lparr>connections := connections gtk1, next_handler_id := next_handler_id gtk1\<rparr>)
          \<lparr>connections := connections gtk, next_handler_id := next_handler_id gtk\<rparr>" by simp
    also have "\<dots> = gtk" unfolding n(5) by (simp add: gtk1_def gtk_connect_def)
    finally show ?thesis .
  qed
  then show ?case using n g1
    by (intro exI [of _ "(obj, next_handler_id gtk, signal, h) # new"]) (auto simp: list_all_iff)
qed simp


lemma gtk_accelerator_kept:
  assumes "gtk_ok gtk"
  shows "ui_groups (unregister_gtk_accelerator groupname action
           (register_gtk_accelerator accelerator_parse groupname action accel_string accel_name gtk)) =
           ui_groups gtk @ [next_gobject gtk] \<and>
         map_of (group_actions (unregister_gtk_accelerator groupname action
           (register_gtk_accelerator accelerator_parse groupname action accel_string accel_name gtk)))
           (next_gobject gtk) = Some [action]"
proof -
  have "Suc (next_gobject gtk) \<notin> set (ui_groups gtk @ [next_gobject gtk])"
    using assms by (auto simp: gtk_ok_def list_all_iff)
  then show ?thesis
    by (simp add: register_gtk_accelerator_def unregister_gtk_accelerator_def Let_def update_conv')
qed

text \<open>C30. The GTK unregistration functions do not undo their registration.
  \<^verbatim>\<open>unregister_gtk_handlers(hs)\<close> ignores its argument and disconnects every handler
  the plugin ever connected: after registering \<open>hs1\<close> and then \<open>hs2\<close>, unregistering
  \<open>hs1\<close> also drops the connections of \<open>hs2\<close>. \<^verbatim>\<open>unregister_gtk_accelerator\<close> works
  on a new \<^verbatim>\<open>ActionGroup\<close>, which is never one of the UI manager's groups, so the
  group \<^verbatim>\<open>register_gtk_accelerator\<close> inserted stays, with its action.\<close>

theorem gtk_unregistration_incomplete:
  assumes "gtk_ok gtk" "register_gtk_handlers hs1 ph gtk = (ph1, gtk1)"
    and "register_gtk_handlers hs2 ph1 gtk1 = (ph2, gtk2)"
  shows "unregister_gtk_handlers hs1 ph2 gtk2 =
           (ph2\<lparr>gtk_handler_id_cache := []\<rparr>,
            gtk2\<lparr>connections := filter (\<lambda>c. (fst c, fst (snd c)) \<notin> set (gtk_handler_id_cache ph)) (connections gtk)\<rparr>) \<and>
         ui_groups (unregister_gtk_accelerator groupname action
           (register_gtk_accelerator accelerator_parse groupname action accel_string accel_name gtk)) =
           ui_groups gtk @ [next_gobject gtk] \<and>
         map_of (group_actions (unregister_gtk_accelerator groupname action
           (register_gtk_accelerator accelerator_parse groupname action accel_string accel_name gtk)))
           (next_gobject gtk) = Some [action]"
proof -
  obtain new1 where n1: "connections gtk1 = connections gtk @ new1"
    "gtk_handler_id_cache ph1 = gtk_handler_id_cache ph @ map (\<lambda>c. (fst c, fst (snd c))) new1"
    "list_all (\<lambda>c. next_handler_id gtk \<le> fst (snd c)) new1" "next_handler_id gtk \<le> next_handler_id gtk1"
    using register_gtk_handlers_conns [OF assms(2)] by blast
  obtain new2 where n2: "connections gtk2 = connections gtk1 @ new2"
    "gtk_handler_id_cache ph2 = gtk_handler_id_cache ph1 @ map (\<lambda>c. (fst c, fst (snd c))) new2"
    "list_all (\<lambda>c. next_handler_id gtk1 \<le> fst (snd c)) new2"
    using register_gtk_handlers_conns [OF assms(3)] by blast
  define ks where "ks = gtk_handler_id_cache ph @ map (\<lambda>c. (fst c, fst (snd c))) (new1 @ new2)"
  have cache: "gtk_handler_id_cache ph2 = ks" using n1(2) n2(2) by (simp add: ks_def)
  have old: "filter (\<lambda>c. (fst c, fst (snd c)) \<notin> set ks) (connections gtk) =
      filter (\<lambda>c. (fst c, fst (snd c)) \<notin> set (gtk_handler_id_cache ph)) (connections gtk)"
  proof (rule filter_cong [OF refl])
    fix c assume c: "c \<in> set (connections gtk)"
    then have "fst (snd c) < next_handler_id gtk" using assms(1) by (auto simp: gtk_ok_def list_all_iff)
    moreover have "next_handler_id gtk \<le> fst (snd c')" if "c' \<in> set (new1 @ new2)" for c'
      using that n1(3,4) n2(3) by (auto simp: list_all_iff)
    ultimately have "(fst c, fst (snd c)) \<notin> set (map (\<lambda>c. (fst c, fst (snd c))) (new1 @ new2))"
      by fastforce
    then show "((fst c, fst (snd c)) \<notin> set ks) = ((fst c, fst (snd c)) \<notin> set (gtk_handler_id_cache ph))"
      by (auto simp: ks_def)
  qed
  have new: "filter (\<lambda>c. (fst c, fst (snd c)) \<notin> set ks) (new1 @ new2) = []"
    by (auto simp: ks_def filter_empty_conv)
  have "connections gtk2 = connections gtk @ (new1 @ new2)" using n1(1) n2(1) by simp
  then have "unregister_gtk_handlers hs1 ph2 gtk2 =
      (ph2\<lparr>gtk_handler_id_cache := []\<rparr>,
       gtk2\<lparr>connections := filter (\<lambda>c. (fst c, fst (snd c)) \<notin> set (gtk_handler_id_cache ph)) (connections gtk)\<rparr>)"
    using old new by (simp add: unregister_gtk_handlers_def fold_gtk_disconnect cache del: append_assoc)
  then show ?thesis using gtk_accelerator_kept [OF assms(1)] by simp
qed


theorem gtk_unregistration_incomplete_witness:
  "gtk_ok demo_gtk \<and>
   register_gtk_handlers [(7, ''clicked'', HCall 1, [])] demo_handlers demo_gtk =
     (\<lparr>func_cache = [((HCall 1, []), Func 1)], gtk_handler_id_cache = [(7, 0)], next_closure = 0\<rparr>,
      demo_gtk\<lparr>connections := [(7, 0, ''clicked'', Func 1)], next_handler_id := 1\<rparr>) \<and>
   register_gtk_handlers [(8, ''changed'', HStr ''refresh'', [])]
       \<lparr>func_cache = [((HCall 1, []), Func 1)], gtk_handler_id_cache = [(7, 0)], next_closure = 0\<rparr>
       (demo_gtk\<lparr>connections := [(7, 0, ''clicked'', Func 1)], next_handler_id := 1\<rparr>) =
     (\<lparr>func_cache = [((HCall 1, []), Func 1), ((HStr ''refresh'', []), Closure 0)],
        gtk_handler_id_cache = [(7, 0), (8, 1)], next_closure = 1\<rparr>,
      demo_gtk\<lparr>connections := [(7, 0, ''clicked'', Func 1), (8, 1, ''changed'', Closure 0)],
               next_handler_id := 2\<rparr>) \<and>
   unregister_gtk_handlers [(7, ''clicked'', HCall 1, [])]
       \<lparr>func_cache = [((HCall 1, []), Func 1), ((HStr ''refresh'', []), Closure 0)],
        gtk_handler_id_cache = [(7, 0), (8, 1)], next_closure = 1\<rparr>
       (demo_gtk\<lparr>connections := [(7, 0, ''clicked'', Func 1), (8, 1, ''changed'', Closure 0)],
                next_handler_id := 2\<rparr>) =
     (\<lparr>func_cache = [((HCall 1, []), Func 1), ((HStr ''refresh'', []), Closure 0)],
        gtk_handler_id_cache = [], next_closure = 1\<rparr>,
      demo_gtk\<lparr>connections := [], next_handler_id := 2\<rparr>) \<and>
   ui_groups (unregister_gtk_accelerator ''file'' 5
     (register_gtk_accelerator (\<lambda>_. (115, 4)) ''file'' 5 ''<Control>s'' ''save'' demo_gtk)) = [0] \<and>
   map_of (group_actions (unregister_gtk_accelerator ''file'' 5
     (register_gtk_accelerator (\<lambda>_. (115, 4)) ''file'' 5 ''<Control>s'' ''save'' demo_gtk))) 0 = Some [5]"
proof -
  have ok: "gtk_ok demo_gtk" by (simp add: gtk_ok_def demo_gtk_def)
  have r1: "register_gtk_handlers [(7, ''clicked'', HCall 1, [])] demo_handlers demo_gtk =
     (\<lparr>func_cache = [((HCall 1, []), Func 1)], gtk_handler_id_cache = [(7, 0)], next_closure = 0\<rparr>,
      demo_gtk\<lparr>connections := [(7, 0, ''clicked'', Func 1)], next_handler_id := 1\<rparr>)"
    by (simp add: demo_gtk_def demo_handlers_def get_handler_func_def gtk_connect_def)
  have r2: "register_gtk_handlers [(8, ''changed'', HStr ''refresh'', [])]
       \<lparr>func_cache = [((HCall 1, []), Func 1)], gtk_handler_id_cache = [(7, 0)], next_closure = 0\<rparr>
       (demo_gtk\<lparr>connections := [(7, 0, ''clicked'', Func 1)], next_handler_id := 1\<rparr>) =
     (\<lparr>func_cache = [((HCall 1, []), Func 1), ((HStr ''refresh'', []), Closure 0)],
        gtk_handler_id_cache = [(7, 0), (8, 1)], next_closure = 1\<rparr>,
      demo_gtk\<lparr>connections := [(7, 0, ''clicked'', Func 1), (8, 1, ''changed'', Closure 0)],
               next_handler_id := 2\<rparr>)"
    by (simp add: demo_gtk_def get_handler_func_def gtk_connect_def)
  show ?thesis
    using ok r1 r2 gtk_unregistration_incomplete [OF ok r1 r2, of "''file''" 5 "\<lambda>_. (115, 4)" "''<Control>s''" "''save''"]
    by (simp add: demo_handlers_def demo_gtk_def)
qed

end
