(* ===== verification/ListButtons.thy ===== *)
theory ListButtons
  imports ListView PluginHandlers
begin

text \<open>
  \<^verbatim>\<open>ListPluginBase.register_list_action_button\<close> (lines 623--641 of
  \<^verbatim>\<open>src/pycam/Plugins/__init__.py\<close>) on the GTK state of \<open>PluginHandlers\<close>: the
  state-update handler connected to the selection (a tree view) or to the view itself
  (an icon view) and to five signals of the tree model, the list action connected to the
  button's \<^verbatim>\<open>clicked\<close>, and the button's first sensitivity. The bound methods
  \<^verbatim>\<open>_update_list_action_button_state\<close> and \<^verbatim>\<open>_list_action\<close> are callables numbered
  like every handler of \<open>PluginHandlers\<close>; the extra arguments GTK passes them
  (\<^verbatim>\<open>modelview, action, button\<close>) are not recorded in a connection.
\<close>

text \<open>The GTK objects of a list plugin's view: the view, its selection (a tree view has
  one, an icon view has none) and its tree model.\<close>

record view_objs =
  modelview_obj :: nat
  selection_obj :: "nat option"
  model_obj :: nat

definition row_signals :: "string list" where
  "row_signals = [''row-changed'', ''row-deleted'', ''row-has-child-toggled'', ''row-inserted'',
                  ''rows-reordered'']"

text \<open>The connections of lines 625--639; without a model view, \<^verbatim>\<open>None.connect\<close>
  raises \<^verbatim>\<open>AttributeError\<close> (line 631). The result is the GTK state and the button's
  sensitivity set by line 641.\<close>

definition register_list_action_button ::
  "nat \<Rightarrow> nat \<Rightarrow> view_objs option \<Rightarrow> int \<Rightarrow> nat \<Rightarrow> ('a, 'u) list_plugin \<Rightarrow> gtk_state \<Rightarrow>
   (gtk_state \<times> bool) result" where
  "register_list_action_button update_state list_action_fn objs action button st gtk =
     (case objs of
        None \<Rightarrow> Inl AttributeError
      | Some vo \<Rightarrow>
          (let gtk1 = (case selection_obj vo of
                        Some sel \<Rightarrow> snd (gtk_connect sel ''changed'' (Func update_state) gtk)
                      | None \<Rightarrow> snd (gtk_connect (modelview_obj vo) ''selection-changed'' (Func update_state) gtk));
              gtk2 = fold (\<lambda>signal g. snd (gtk_connect (model_obj vo) signal (Func update_state) g)) row_signals gtk1;
              gtk3 = snd (gtk_connect button ''clicked'' (Func list_action_fn) gtk2)
          in Inr (gtk3, button_sensitive action st)))"

lemma fold_gtk_connect:
  "connections (fold (\<lambda>signal g. snd (gtk_connect obj signal h g)) signals gtk) =
     connections gtk @ map (\<lambda>(i, signal). (obj, next_handler_id gtk + i, signal, h)) (enumerate 0 signals) \<and>
   next_handler_id (fold (\<lambda>signal g. snd (gtk_connect obj signal h g)) signals gtk) =
     next_handler_id gtk + length signals"
proof (induction signals arbitrary: gtk)
  case (Cons s ss)
  show ?case
    using Cons.IH [of "snd (gtk_connect obj s h gtk)"]
    by (simp add: gtk_connect_def enumerate_Suc_eq comp_def split_def)
qed simp

text \<open>A button registered on a tree view: seven connections, with consecutive handler
  ids, the first on the selection, five on the tree model, the last the button's click;
  the sensitivity is that of \<^verbatim>\<open>_update_list_action_button_state\<close>.\<close>

lemma register_list_action_button_treeview:
  assumes "selection_obj vo = Some sel"
  shows "register_list_action_button upd act (Some vo) action button st gtk =
           Inr (gtk\<lparr>connections := connections gtk @
                      [(sel, next_handler_id gtk, ''changed'', Func upd)] @
                      map (\<lambda>(i, signal). (model_obj vo, Suc (next_handler_id gtk) + i, signal, Func upd))
                        (enumerate 0 row_signals) @
                      [(button, next_handler_id gtk + 6, ''clicked'', Func act)],
                    next_handler_id := next_handler_id gtk + 7\<rparr>,
                button_sensitive action st)"
  using assms fold_gtk_connect [of "model_obj vo" "Func upd" row_signals
      "snd (gtk_connect sel ''changed'' (Func upd) gtk)"]
  by (simp add: register_list_action_button_def gtk_connect_def row_signals_def Let_def)

end
