(* ===== verification/PluginInit.thy ===== *)
theory PluginInit
  imports PluginHandlers
begin

text \<open>
  \<^verbatim>\<open>PluginBase.__init__\<close> (lines 53--95 of \<^verbatim>\<open>src/pycam/Plugins/__init__.py\<close>): the
  instance attributes, the GTK builder loaded from the class's \<^verbatim>\<open>UI_FILE\<close>, the common
  accelerator group added to its windows, and the icons of the class attribute
  \<^verbatim>\<open>ICONS\<close>. \<^verbatim>\<open>ICONS\<close> is a dict of the class, shared by all its instances, and
  \<^verbatim>\<open>__init__\<close> replaces its values in place: the model passes it in and returns it.
  \<^verbatim>\<open>pycam.Utils.locations\<close>, GTK and the core (not under \<^verbatim>\<open>src/\<close>) enter as the
  functions of \<open>init_env\<close>.
\<close>

section \<open>Resources and the environment\<close>

text \<open>A value of \<^verbatim>\<open>ICONS\<close>: a file name, as a plugin class declares it, a
  \<^verbatim>\<open>gtk.gdk.Pixbuf\<close> (numbered), or \<^verbatim>\<open>None\<close>.\<close>

datatype resource = ResFile string | ResPixbuf nat | ResNone

text \<open>\<^verbatim>\<open>get_ui_file_location(value)\<close> (a path, \<open>None\<close> when not found, or an exception),
  \<^verbatim>\<open>gtk.gdk.pixbuf_new_from_file_at_size\<close> (\<open>None\<close>: \<^verbatim>\<open>gobject.GError\<close>),
  \<^verbatim>\<open>gtk.Builder().add_from_file\<close> (the builder's objects, each flagged when it is a
  \<^verbatim>\<open>gtk.Window\<close>; \<open>None\<close>: \<^verbatim>\<open>RuntimeError\<close>) and \<^verbatim>\<open>core["gtk-accel-group"]\<close>
  (\<open>None\<close> when it is falsy).\<close>

record init_env =
  get_ui_file_location :: "resource \<Rightarrow> string option result"
  pixbuf_new_from_file_at_size :: "string \<Rightarrow> nat \<Rightarrow> nat option"
  builder_add_from_file :: "string \<Rightarrow> (nat \<times> bool) list option"
  gtk_accel_group :: "nat option"

text \<open>The attributes \<^verbatim>\<open>__init__\<close> sets on the instance; \<open>inst_handlers\<close> holds
  \<^verbatim>\<open>_func_cache\<close> and \<^verbatim>\<open>_gtk_handler_id_cache\<close> of \<open>PluginHandlers\<close>.\<close>

record plugin_inst =
  inst_enabled :: bool
  inst_name :: string
  inst_gui :: "(nat \<times> bool) list option"
  inst_handlers :: plugin_handlers

section \<open>The constructor\<close>

text \<open>Lines 59--77: with a \<^verbatim>\<open>UI_FILE\<close>, its location; a builder loaded from it, or
  \<^verbatim>\<open>None\<close> when loading raises \<^verbatim>\<open>RuntimeError\<close>; and with a common accelerator group,
  the pairs (window, group) of \<^verbatim>\<open>obj.add_accel_group\<close>. Empty strings are falsy.\<close>

definition init_gui ::
  "init_env \<Rightarrow> string option \<Rightarrow> ((nat \<times> bool) list option \<times> (nat \<times> nat) list) result" where
  "init_gui env ui_file =
     (case ui_file of
        None \<Rightarrow> Inr (None, [])
      | Some f \<Rightarrow>
          if f = [] then Inr (None, [])
          else (case get_ui_file_location env (ResFile f) of
                  Inl e \<Rightarrow> Inl e
                | Inr loc \<Rightarrow>
                    if loc = None \<or> loc = Some [] then Inr (None, [])
                    else (case builder_add_from_file env (the loc) of
                            None \<Rightarrow> Inr (None, [])
                          | Some objs \<Rightarrow>
                              Inr (Some objs,
                                   (case gtk_accel_group env of
                                      None \<Rightarrow> []
                                    | Some g \<Rightarrow> map (\<lambda>obj. (fst obj, g)) (filter snd objs))))))"

text \<open>Lines 79--92, one key of \<^verbatim>\<open>ICONS\<close>: the location of its current value, then the
  pixbuf, or \<^verbatim>\<open>None\<close> when there is no location or loading raises \<^verbatim>\<open>GError\<close>.\<close>

definition load_icon :: "init_env \<Rightarrow> nat \<Rightarrow> resource \<Rightarrow> resource result" where
  "load_icon env icon_size v =
     (case get_ui_file_location env v of
        Inl e \<Rightarrow> Inl e
      | Inr loc \<Rightarrow>
          if loc = None \<or> loc = Some [] then Inr ResNone
          else (case pixbuf_new_from_file_at_size env (the loc) icon_size of
                  None \<Rightarrow> Inr ResNone
                | Some pixbuf \<Rightarrow> Inr (ResPixbuf pixbuf)))"

text \<open>The loop \<^verbatim>\<open>for key in self.ICONS\<close>, each value replaced in place.\<close>

fun load_icons ::
  "init_env \<Rightarrow> nat \<Rightarrow> (string \<times> resource) list \<Rightarrow> (string \<times> resource) list result" where
  "load_icons env icon_size [] = Inr []"
| "load_icons env icon_size ((key, v) # rest) =
     (case load_icon env icon_size v of
        Inl e \<Rightarrow> Inl e
      | Inr v' \<Rightarrow> map_sum id (\<lambda>rest'. (key, v') # rest') (load_icons env icon_size rest))"

text \<open>\<^verbatim>\<open>PluginBase.__init__(core, name)\<close> for a class with \<^verbatim>\<open>UI_FILE\<close>, \<^verbatim>\<open>ICONS\<close> and
  \<^verbatim>\<open>ICON_SIZE\<close>: the instance, the accelerator groups added, and the class's new
  \<^verbatim>\<open>ICONS\<close>.\<close>

definition plugin_init ::
  "init_env \<Rightarrow> string option \<Rightarrow> (string \<times> resource) list \<Rightarrow> nat \<Rightarrow> string \<Rightarrow>
   (plugin_inst \<times> (nat \<times> nat) list \<times> (string \<times> resource) list) result" where
  "plugin_init env ui_file icons icon_size name =
     (case init_gui env ui_file of
        Inl e \<Rightarrow> Inl e
      | Inr (gui, accels) \<Rightarrow>
          (case load_icons env icon_size icons of
             Inl e \<Rightarrow> Inl e
           | Inr icons' \<Rightarrow>
               Inr (\<lparr>inst_enabled = True, inst_name = name, inst_gui = gui,
                     inst_handlers = \<lparr>func_cache = [], gtk_handler_id_cache = [], next_closure = 0\<rparr>\<rparr>,
                    accels, icons')))"

section \<open>Fixtures\<close>

text \<open>An installation where the two icon files of a plugin class are found and load,
  and \<^verbatim>\<open>get_ui_file_location\<close> finds nothing for a value that is not a file name; its
  UI file has one window, and the core has an accelerator group.\<close>

definition demo_env :: init_env where
  "demo_env = \<lparr>get_ui_file_location = (\<lambda>v. case v of ResFile f \<Rightarrow> Inr (Some (''/usr/share/pycam/'' @ f))
                                                     | _ \<Rightarrow> Inr None),
               pixbuf_new_from_file_at_size = (\<lambda>loc size. if loc = ''/usr/share/pycam/up.svg'' then Some 0
                                                         else if loc = ''/usr/share/pycam/down.svg'' then Some 1
                                                         else None),
               builder_add_from_file = (\<lambda>loc. Some [(7, True), (8, False)]),
               gtk_accel_group = Some 5\<rparr>"

definition demo_icons :: "(string \<times> resource) list" where
  "demo_icons = [(''up'', ResFile ''up.svg''), (''down'', ResFile ''down.svg'')]"

section \<open>Properties\<close>

lemma load_icons_keys:
  "load_icons env icon_size icons = Inr icons' \<Longrightarrow> map fst icons' = map fst icons"
proof (induction icons arbitrary: icons')
  case (Cons a rest)
  obtain key v where a: "a = (key, v)" by (cases a)
  obtain v' where v': "load_icon env icon_size v = Inr v'"
    using Cons.prems a by (cases "load_icon env icon_size v") simp_all
  obtain rest' where r: "load_icons env icon_size rest = Inr rest'"
    using Cons.prems a v' by (cases "load_icons env icon_size rest") simp_all
  have "icons' = (key, v') # rest'" using Cons.prems a v' r by simp
  with Cons.IH [OF r] a show ?case by simp
qed simp



end
