(* ===== verification/Spec2Isabelle.thy ===== *)
theory Spec2Isabelle
  imports Waterline PluginImport OpenGL PluginBase ListButtons PluginInit
begin

text \<open>
  \<^bold>\<open>A verification development of PyCAM's toolpath core and application shell.\<close>

  \<^medskip>
  \<^bold>\<open>The program.\<close> \<^verbatim>\<open>src/pycam/PathGenerators/PushCutter.py\<close> computes a
  toolpath layer by layer. \<^verbatim>\<open>GenerateToolPath\<close> (the layer driver) materialises the
  motion grid, creates a progress counter sized by the number of lines, and for each
  layer asks the live-update callback whether to cancel, then runs
  \<^verbatim>\<open>GenerateToolPathSlice\<close> (the slice assembler). The slice computes a recursion
  depth per probe line, hands the lines to \<^verbatim>\<open>run_in_parallel\<close>, which calls
  \<^verbatim>\<open>_process_one_line\<close> (a collision query on the ODE or the triangle back-end), and
  folds each line's free intervals, in input order, into cut/cut/retract moves (flat
  mode) or into scan-lines of a contour accumulator (waterline mode). After each line it
  increments the progress counter, whose callback may cancel the rest of the layer. In
  waterline mode the driver finally turns each contour polyline into cutting segments,
  re-checked against the obstacle models when there are any.
  \<^verbatim>\<open>src/pycam/Plugins/__init__.py\<close> is the application shell: the plugin manager loads
  plugin classes in dependency order and enables and disables them; list plugins keep
  entities in a list mirrored into a GTK tree model; entities (\<^verbatim>\<open>ObjectWithAttributes\<close>)
  persist themselves, referring to each other through a class-wide uuid registry;
  \<^verbatim>\<open>filter_list\<close> selects entities. \<^verbatim>\<open>src/pycam/Gui/OpenGLTools.py\<close> draws through
  OpenGL, saving and restoring the matrix state around its drawing functions.

  \<^medskip>
  \<^bold>\<open>Theories and what they model.\<close>
  \<^item> \<open>Prelude\<close>: Python exceptions as the left injection of \<open>py_error + 'a\<close>; points
    as triples of reals; \<open>map_res\<close>, a list loop that stops at the first exception;
    association-list lemmas (a dict is an association list with distinct keys).
  \<^item> \<open>Moves\<close>: the move tuples and \<open>interval_moves\<close> (PushCutter lines 115--118, 161--164).
  \<^item> \<open>Depth\<close>: \<open>pdist\<close> and \<open>calc_depth\<close> (lines 132--150), with the two exceptions of
    the formula as results.
  \<^item> \<open>Progress\<close>: the callback as a step of an external state answering "cancel?";
    \<^verbatim>\<open>ProgressCounter\<close>, modelled from the spec (section 4.1; it is not under \<^verbatim>\<open>src/\<close>).
  \<^item> \<open>Contour\<close>: the contour processor's operations as a datatype of calls and the
    spec's calling protocol as a finite automaton.
  \<^item> \<open>PushCutter\<close>: the whole file. Collaborators are the record \<open>backend\<close>; one run's
    mutable state (callback state, progress counter, \<^verbatim>\<open>self.pa\<close>) is the record
    \<open>run_state\<close>; \<open>process_one_line\<close>, \<open>make_line_arg\<close>, \<open>slice_consume\<close>,
    \<open>slice_increment\<close>, \<open>slice_update\<close>, \<open>slice_loop\<close>, \<open>GenerateToolPathSlice\<close>,
    \<open>layers_loop\<close>, \<open>waterline_moves\<close> and \<open>GenerateToolPath\<close> follow the methods.
    \<^verbatim>\<open>run_in_parallel\<close> is the in-order, lazy consumption of the query results that
    the spec (section 4.2) requires of it.
  \<^item> \<open>Waterline\<close>: a simulation between a run with any accumulator and a run with a
    recording accumulator whose calls are replayed.
  \<^item> \<open>PluginManager\<close>: \<^verbatim>\<open>PluginManager\<close> (lines 258--422) over the dict
    \<^verbatim>\<open>self.modules\<close> and the trace of calls made on plugins; the retry loop of
    \<^verbatim>\<open>import_plugins\<close> is a \<^theory_text>\<open>function\<close> whose termination is proved by the
    measure "candidates left" (each pass that goes on loads one).
  \<^item> \<open>ListPlugin\<close>: \<^verbatim>\<open>ListPluginBase\<close> (lines 425--621): the list, the GTK view (rows
    as uuids, selected indices), the wrapped \<^verbatim>\<open>pop\<close>/\<^verbatim>\<open>insert\<close> with the tree-model
    re-synchronisation, the list actions and the button state; GTK's
    \<^verbatim>\<open>reorder\<close> from its documentation.
  \<^item> \<open>OpenGL\<close>: \<^verbatim>\<open>keep_gl_mode\<close>, \<^verbatim>\<open>keep_matrix\<close>, \<^verbatim>\<open>draw_direction_cone\<close> and
    \<^verbatim>\<open>draw_complete_model_view\<close> as transformers of an OpenGL state (matrix mode, a
    matrix stack per mode, the cones drawn) driven by the list of calls they make; the
    GL calls from the OpenGL specification, the PointUtils vector helpers (not under
    \<^verbatim>\<open>src/\<close>) by their meaning.
  \<^item> \<open>Entities\<close>: \<^verbatim>\<open>ObjectWithAttributes\<close> (lines 672--747) over Python values as a
    datatype and entities as objects of a heap with the shared \<^verbatim>\<open>uuid_map\<close>, and
    \<^verbatim>\<open>filter_list\<close>/\<^verbatim>\<open>get_filter\<close> (lines 750--784).
  \<^item> \<open>PluginBase\<close>: \<^verbatim>\<open>get_persist_data\<close>/\<^verbatim>\<open>set_persist_data\<close> (lines
    210--255): templates as a datatype of setting lists and nested templates, the core's
    settings as a map, and the shared default dict \<^verbatim>\<open>result={}\<close> as state passed in and
    returned; the mutual recursion of the template walk is a mutual \<^theory_text>\<open>fun\<close>.
  \<^item> \<open>ListPersist\<close>: \<^verbatim>\<open>ListPluginBase.get_persist_data\<close>/\<^verbatim>\<open>set_persist_data\<close>
    (lines 643--670) on a list plugin of \<open>ListPlugin\<close> whose items are references into
    the entity store of \<open>Entities\<close>: the rebound \<^verbatim>\<open>append\<close>, the loop
    \<^verbatim>\<open>while len(self) > 0: self.pop()\<close> with the length of the list as fuel (each
    pop removes one item, so it is enough, and \<open>pop_all_empties\<close> proves it), the
    append loop creating one \<^verbatim>\<open>CHILD_ENTITY\<close> per saved dict (the \<open>k\<close>-th
    \<^verbatim>\<open>uuid.uuid4()\<close> is an argument), and \<^verbatim>\<open>what\<close> as a string object with an
    identity, since line 650 compares with \<^verbatim>\<open>is not\<close>.
  \<^item> \<open>PluginImport\<close>: the directory scan of \<^verbatim>\<open>import_plugins\<close> (lines 265--294) over a
    file system and module loader given as functions, composed with the retry loop of
    \<open>PluginManager\<close>, and the progress of that loop.
  \<^item> \<open>PluginInit\<close>: \<^verbatim>\<open>PluginBase.__init__\<close> (lines 53--95): the builder of the UI file,
    the accelerator group, and the class attribute \<^verbatim>\<open>ICONS\<close> passed in and returned, since
    \<^verbatim>\<open>__init__\<close> rewrites it in place.
  \<^item> \<open>ListButtons\<close>: \<^verbatim>\<open>register_list_action_button\<close> (lines 623--641) as connections in
    the GTK state of \<open>PluginHandlers\<close>.
  \<^item> \<open>ListView\<close>: \<^verbatim>\<open>select\<close>, \<^verbatim>\<open>_select_gtk\<close> and \<^verbatim>\<open>get_by_path\<close>
    (lines 492--505, 539--547) on the list plugin of \<open>ListPlugin\<close>; the rebound
    \<^verbatim>\<open>extend\<close>, \<^verbatim>\<open>reverse\<close> and \<^verbatim>\<open>remove\<close>, the classmethod \<^verbatim>\<open>new\<close> (always
    \<^verbatim>\<open>NameError\<close>) and the model-update observers (lines 437--450, 549--559); and every
    operation of the list plugin (the rebound list methods, the list actions,
    \<^verbatim>\<open>select\<close>) as a datatype \<open>list_op\<close> with one step function \<open>list_step\<close> and
    its sequences \<open>list_run\<close>, stopping at the first exception.
  \<^item> \<open>PluginHandlers\<close>: the handler registration of \<^verbatim>\<open>PluginBase\<close> (lines 97--208):
    the cache of \<^verbatim>\<open>__get_handler_func\<close> keyed by function and parameters, the
    (un)registration of event handlers, GTK signal handlers, keyboard accelerators and
    core methods. The core (\<^verbatim>\<open>pycam.Gui.Settings\<close>) and GTK are modelled from their
    interfaces by the state they keep: the core's methods, settings and event registry,
    GTK's connections and the UI manager's action groups; objects whose identity matters
    (closures, action groups) are numbered by counters in that state.

  \<^medskip>
  \<^bold>\<open>What is proved.\<close>
  \<^item> The toolpath core (C1--C3, C5, C6, C10, C13, C17, C18, C21, C22): flat mode refines
    the abstract toolpath; every returned move is well formed; the progress counter is
    bounded and completes; the depth is clamped into \<open>[4, 20]\<close> and is the ceiling of
    the binary logarithm inside; a zero-length line raises \<^verbatim>\<open>ValueError\<close>; cancellation
    at a layer boundary and from the counter; the simulation and the contour calling
    protocol.
  \<^item> The plugin manager (C4, C23, C24, C27--C29, C32, C34): the retry loop makes progress
    (liveness: with acyclic dependencies that are all present, every candidate is
    loaded), stops at its fixpoint reporting the missing dependencies, respects
    dependency order and leaves every plugin enabled; the scan takes the imported base
    class \<^verbatim>\<open>PluginBase\<close> as a candidate of every module, skips a module that fails to
    import and stops on an unlistable directory; the bugs of \<^verbatim>\<open>enable_plugin\<close>,
    duplicate names and \<^verbatim>\<open>is_plugin_required\<close>; disable/enable is a round trip.
  \<^item> The list plugin (C7, C14, C19, C31, C33, C35, C36): every sequence of operations keeps
    the list well formed (a type invariant, by induction over \<open>list_run\<close>);
    \<^verbatim>\<open>select\<close> and \<^verbatim>\<open>get_by_path\<close> round-trip when the view is in list order;
    registering and unregistering an observer round-trips up to order; up, down, delete
    and clear as permutations and deletions of the list with the selection kept; the
    tree-model reorder is right exactly for involutions, and C36 shows a move up
    scrambling the view so that \<^verbatim>\<open>select\<close> marks the wrong row.
  \<^item> Handler registration and construction (C25, C30, C37, C38): unregistering event
    handlers gives the core back its event registry, thanks to the cache;
    \<^verbatim>\<open>unregister_gtk_handlers\<close> ignores its argument and \<^verbatim>\<open>unregister_gtk_accelerator\<close>
    removes nothing; unregistering core methods deletes them instead of restoring what was
    there; \<^verbatim>\<open>__init__\<close> overwrites the class-level \<^verbatim>\<open>ICONS\<close>, so a second instance
    looks up pixbufs instead of file names.
  \<^item> OpenGL (C9, C12): the cone's axis and size; the stacks kept by
    \<^verbatim>\<open>draw_direction_cone\<close> and the model-view matrix lost by
    \<^verbatim>\<open>draw_complete_model_view\<close> in projection mode (the misplaced cone for
    \<open>position \<noteq> 1/2\<close> is the lemma \<open>draw_direction_cone_off_line\<close>).
  \<^item> Entities (C11, C16, C39): the persistence round trip, string parameters lost,
    \<^verbatim>\<open>filter_list\<close> equal to a plain filter, and its uncaught \<^verbatim>\<open>IndexError\<close>.
  \<^item> Plugin persistence (C8, C20): for a well-formed template the settings
    \<^verbatim>\<open>get_persist_data\<close> returns and \<^verbatim>\<open>set_persist_data\<close> restores are the core's
    own (a round trip, with totality of the walk); the shared default dict leaks one
    plugin's settings into the next and can make a later plugin raise \<^verbatim>\<open>TypeError\<close>.
  \<^item> List persistence (C15, C26, C40): saving and restoring a list of entities without
    parameters gives new objects with the same attributes, in order, registered under
    the old uuids, with the tree model in step; data without the plugin's entry empties
    the list; an equal but distinct \<^verbatim>\<open>what\<close> string saves nothing; the reset loop
    terminates after exactly \<^verbatim>\<open>len(self)\<close> iterations.

  \<^medskip>
  \<^bold>\<open>Choices.\<close> Floats are reals: \<^verbatim>\<open>math.log(x) / math.log(2)\<close> is \<open>log 2 x\<close>,
  \<^verbatim>\<open>math.asin\<close> is \<open>arcsin\<close>, so rounding is not modelled (in particular the
  \<^verbatim>\<open>ValueError\<close> branch of \<^verbatim>\<open>draw_direction_cone\<close> is unreachable). Lazy generators
  are lists. Every loop of the modelled code runs over a finite list, is the retry loop
  of \<^verbatim>\<open>import_plugins\<close>, proved to terminate, or is the reset loop
  \<^verbatim>\<open>while len(self) > 0\<close>, given the list's length as fuel: each pop removes one
  item, so that fuel is enough and fewer iterations leave the loop guard true (C40). \<^verbatim>\<open>uuid.uuid4()\<close>
  is an argument. The shell follows Python 2 (the code's version): strings are
  \<^verbatim>\<open>str\<close>, lists have no \<^verbatim>\<open>copy()\<close>.

  \<^medskip>
  \<^bold>\<open>Not modelled.\<close> The collision back-ends and the motion grid source (outside
  \<^verbatim>\<open>src/\<close>; the spec treats them as opaque), the concurrency inside
  \<^verbatim>\<open>run_in_parallel\<close> (only its in-order contract), the contour processor's geometry
  (only its protocol), GTK widgets beyond the state the handlers change (the extra
  arguments of a signal connection, the combobox and iconview branches of
  \<^verbatim>\<open>_get_gtk_selected\<close>), what observer callbacks do and the events emitted, the list
  method \<^verbatim>\<open>sort\<close> (Python 2 orders dict entities in a way the model does not have),
  the file system and \<^verbatim>\<open>imp\<close> (they enter the scan as functions),
  \<^verbatim>\<open>cutter.to_OpenGL\<close> and \<^verbatim>\<open>draw_toolpath\<close> (defined outside the
  files; they enter as the calls they make), and logging.
\<close>

end
